(* ===== verification/FProto_Prelude.thy ===== *)
theory FProto_Prelude
  imports Main "HOL-Library.Word" "HOL-Library.AList"
begin

text \<open>
  The shared base of the development: the types that stand for Go's scalars, slices,
  strings and errors, the pieces of the Go standard library the sources use on them
  (\<open>encoding/binary\<close>, \<open>encoding/hex\<close>, \<open>strconv\<close>, \<open>time\<close>), and the generic
  lemmas on lists, words and association lists that the component theories share.
\<close>

unbundle bit_operations_syntax

named_theorems go_defs \<open>definitions of Go helper functions\<close>

section \<open>Scalars, slices, errors\<close>

text \<open>
  A Go \<open>[]byte\<close> is \<open>None\<close> when nil and \<open>Some bs\<close> otherwise; \<open>len\<close> of both a nil
  and an empty slice is 0, but a nil slice is an SQL \<open>NULL\<close> argument.
\<close>

type_synonym byte = "8 word"
type_synonym bytes = "byte list"
type_synonym slice = "bytes option"
type_synonym uint32 = "32 word"
type_synonym uint64 = "64 word"
type_synonym goerr = string

definition slice_bytes :: "slice \<Rightarrow> bytes" where
  "slice_bytes s = (case s of None \<Rightarrow> [] | Some bs \<Rightarrow> bs)"

abbreviation slice_len :: "slice \<Rightarrow> nat" where
  "slice_len s \<equiv> length (slice_bytes s)"

lemma slice_bytes_simps [simp]:
  "slice_bytes None = []" "slice_bytes (Some bs) = bs"
  by (simp_all add: slice_bytes_def)

text \<open>Conversions \<open>[]byte(s)\<close> and \<open>string(b)\<close>: a Go string is its bytes.\<close>

definition string_to_bytes :: "string \<Rightarrow> bytes" where
  "string_to_bytes s = map of_char s"

definition bytes_to_string :: "bytes \<Rightarrow> string" where
  "bytes_to_string bs = map (\<lambda>b. char_of (unat b)) bs"

lemma char_of_of_char_byte [simp]: "char_of (unat (of_char c :: byte)) = c"
proof -
  have "(of_char c :: byte) = of_nat (of_char c)" by (simp add: of_nat_of_char)
  moreover have "(of_char c :: nat) < 256"
    by (metis of_char_mod_256 mod_less_divisor zero_less_numeral)
  ultimately show ?thesis by (simp add: unat_of_nat)
qed

lemma bytes_to_string_to_bytes [simp]: "bytes_to_string (string_to_bytes s) = s"
  by (simp add: bytes_to_string_def string_to_bytes_def comp_def)

lemma string_to_bytes_inject [simp]: "string_to_bytes s = string_to_bytes t \<longleftrightarrow> s = t"
  by (metis bytes_to_string_to_bytes)

lemma length_string_to_bytes [simp]: "length (string_to_bytes s) = length s"
  by (simp add: string_to_bytes_def)

section \<open>encoding/binary\<close>

definition be32 :: "uint32 \<Rightarrow> bytes" where
  "be32 w = [ucast (drop_bit 24 w), ucast (drop_bit 16 w), ucast (drop_bit 8 w), ucast w]"

definition of_be32 :: "bytes \<Rightarrow> uint32" where
  "of_be32 bs = push_bit 24 (ucast (bs ! 0)) OR push_bit 16 (ucast (bs ! 1))
     OR push_bit 8 (ucast (bs ! 2)) OR ucast (bs ! 3)"

definition le64 :: "uint64 \<Rightarrow> bytes" where
  "le64 w = map (\<lambda>i. ucast (drop_bit (8 * i) w)) [0..<8]"

lemma length_be32 [simp]: "length (be32 w) = 4"
  by (simp add: be32_def)

lemma length_le64 [simp]: "length (le64 w) = 8"
  by (simp add: le64_def)

lemma of_be32_be32_append [simp]: "of_be32 (be32 w @ bs) = w"
proof (rule bit_word_eqI)
  fix n assume "n < LENGTH(32)"
  then consider "n < 8" | "8 \<le> n" "n < 16" | "16 \<le> n" "n < 24" | "24 \<le> n" "n < 32"
    by fastforce
  then show "bit (of_be32 (be32 w @ bs)) n = bit w n"
    by cases (auto simp: be32_def of_be32_def bit_simps)
qed

lemma of_be32_be32 [simp]: "of_be32 (be32 w) = w"
  using of_be32_be32_append [of w "[]"] by simp

lemma le64_inject [simp]: "le64 v = le64 w \<longleftrightarrow> v = w"
proof
  assume "le64 v = le64 w"
  then have eq: "\<forall>i<8. (ucast (drop_bit (8 * i) v) :: byte) = ucast (drop_bit (8 * i) w)"
    by (auto simp: le64_def)
  show "v = w"
  proof (rule bit_word_eqI)
    fix n assume n: "n < LENGTH(64)"
    then have "n div 8 < 8" by simp
    with eq have "bit (ucast (drop_bit (8 * (n div 8)) v) :: byte) (n mod 8) =
        bit (ucast (drop_bit (8 * (n div 8)) w) :: byte) (n mod 8)" by simp
    then show "bit v n = bit w n" by (simp add: bit_simps)
  qed
qed simp

section \<open>encoding/hex\<close>

definition hex_char :: "nat \<Rightarrow> char" where
  "hex_char n = (if n < 10 then char_of (48 + n) else char_of (87 + n))"

definition unhex :: "char \<Rightarrow> nat option" where
  "unhex c = (let n = (of_char c :: nat) in
     if 48 \<le> n \<and> n \<le> 57 then Some (n - 48)
     else if 97 \<le> n \<and> n \<le> 102 then Some (n - 87)
     else if 65 \<le> n \<and> n \<le> 70 then Some (n - 55)
     else None)"

definition hex_byte :: "byte \<Rightarrow> string" where
  "hex_byte b = [hex_char (unat b div 16), hex_char (unat b mod 16)]"

definition hex_encode :: "bytes \<Rightarrow> string" where
  "hex_encode bs = concat (map hex_byte bs)"

text \<open>
  \<open>hex.DecodeString\<close> returns the bytes decoded before the error together with the error,
  which the callers in the sources drop.
\<close>

datatype hex_error = InvalidByteError char | ErrLength

fun hex_decode :: "string \<Rightarrow> bytes \<times> hex_error option" where
  "hex_decode [] = ([], None)"
| "hex_decode [p] = ([], Some (if unhex p = None then InvalidByteError p else ErrLength))"
| "hex_decode (p # q # s) =
     (case unhex p of None \<Rightarrow> ([], Some (InvalidByteError p))
      | Some a \<Rightarrow> (case unhex q of None \<Rightarrow> ([], Some (InvalidByteError q))
          | Some b \<Rightarrow> (let (bs, e) = hex_decode s in (of_nat (16 * a + b) # bs, e))))"

lemma unhex_hex_char [simp]: "n < 16 \<Longrightarrow> unhex (hex_char n) = Some n"
  by (auto simp: unhex_def hex_char_def Let_def)

lemma unat_byte_less [simp]: "unat (b :: byte) < 256"
  using unsigned_less [of b] by simp

lemma hex_byte_nibbles [simp]: "unat (b :: byte) div 16 < 16" "unat (b :: byte) mod 16 < 16"
  using unat_byte_less [of b] by (simp_all add: less_mult_imp_div_less del: unat_byte_less)

lemma hex_decode_encode [simp]: "hex_decode (hex_encode bs) = (bs, None)"
  by (induction bs) (simp_all add: hex_encode_def hex_byte_def)

lemma hex_encode_inject [simp]: "hex_encode as = hex_encode bs \<longleftrightarrow> as = bs"
  by (metis fst_conv hex_decode_encode)

lemma hex_encode_Nil [simp]: "hex_encode [] = []"
  by (simp add: hex_encode_def)

lemma length_hex_encode [simp]: "length (hex_encode bs) = 2 * length bs"
  by (induction bs) (simp_all add: hex_encode_def hex_byte_def)

section \<open>strconv\<close>

definition digit_char :: "nat \<Rightarrow> char" where
  "digit_char d = char_of (48 + d)"

definition digit_val :: "char \<Rightarrow> nat option" where
  "digit_val c = (let n = (of_char c :: nat) in if 48 \<le> n \<and> n \<le> 57 then Some (n - 48) else None)"

fun show_nat :: "nat \<Rightarrow> string" where
  "show_nat n = (if n < 10 then [digit_char n] else show_nat (n div 10) @ [digit_char (n mod 10)])"

declare show_nat.simps [simp del]

definition show_int :: "int \<Rightarrow> string" where
  "show_int i = (if i < 0 then CHR ''-'' # show_nat (nat (- i)) else show_nat (nat i))"

fun read_digits :: "nat \<Rightarrow> string \<Rightarrow> nat option" where
  "read_digits acc [] = Some acc"
| "read_digits acc (c # cs) =
     (case digit_val c of None \<Rightarrow> None | Some d \<Rightarrow> read_digits (10 * acc + d) cs)"

definition read_nat :: "string \<Rightarrow> nat option" where
  "read_nat s = (if s = [] then None else read_digits 0 s)"

text \<open>
  \<open>strconv.ParseInt(s, 10, 64)\<close>: 0 on a syntax error, the nearest bound when out of range.
  The flag is the error the callers drop.
\<close>

definition int64_max :: int where "int64_max = 9223372036854775807"
definition int64_min :: int where "int64_min = - 9223372036854775808"

definition in_int64 :: "int \<Rightarrow> bool" where
  "in_int64 i \<longleftrightarrow> int64_min \<le> i \<and> i \<le> int64_max"

definition ParseInt64 :: "string \<Rightarrow> int \<times> bool" where
  "ParseInt64 s =
     (let neg = (s \<noteq> [] \<and> hd s = CHR ''-'');
          ds = (if s \<noteq> [] \<and> (hd s = CHR ''-'' \<or> hd s = CHR ''+'') then tl s else s)
      in case read_nat ds of None \<Rightarrow> (0, True)
         | Some n \<Rightarrow> (let v = (if neg then - int n else int n) in
             if v < int64_min then (int64_min, True)
             else if int64_max < v then (int64_max, True) else (v, False)))"

lemma digit_val_digit_char [simp]: "d < 10 \<Longrightarrow> digit_val (digit_char d) = Some d"
  by (simp add: digit_val_def digit_char_def)

lemma read_digits_append:
  "read_digits acc (s @ t) = (case read_digits acc s of None \<Rightarrow> None | Some a \<Rightarrow> read_digits a t)"
  by (induction s arbitrary: acc) (auto split: option.splits)

lemma read_digits_show_nat [simp]: "read_digits 0 (show_nat n) = Some n"
proof (induction n rule: show_nat.induct)
  case (1 n)
  show ?case
  proof (cases "n < 10")
    case True
    then show ?thesis by (subst show_nat.simps) simp
  next
    case False
    with 1 show ?thesis by (subst show_nat.simps) (simp add: read_digits_append)
  qed
qed

lemma show_nat_not_Nil [simp]: "show_nat n \<noteq> []"
  by (subst show_nat.simps) simp

lemma hd_show_nat_digit: "digit_val (hd (show_nat n)) \<noteq> None"
proof (induction n rule: show_nat.induct)
  case (1 n)
  then show ?case by (subst show_nat.simps) (simp add: hd_append)
qed

lemma hd_show_nat [simp]: "hd (show_nat n) \<noteq> CHR ''-''" "hd (show_nat n) \<noteq> CHR ''+''"
  using hd_show_nat_digit [of n] by (auto simp: digit_val_def)

lemma read_nat_show_nat [simp]: "read_nat (show_nat n) = Some n"
  by (simp add: read_nat_def)

lemma ParseInt64_show_int [simp]: "in_int64 i \<Longrightarrow> ParseInt64 (show_int i) = (i, False)"
  by (auto simp: ParseInt64_def show_int_def in_int64_def)

section \<open>time\<close>

text \<open>
  An instant is its distance from the Unix epoch in nanoseconds. \<open>Time.Unix\<close> drops the
  sub-second part, \<open>time.Unix(s, 0)\<close> builds an instant from whole seconds.
\<close>

type_synonym time = int
type_synonym duration = int

definition Second :: duration where "Second = 1000000000"
definition Minute :: duration where "Minute = 60 * Second"
definition Hour :: duration where "Hour = 60 * Minute"

definition to_unix :: "time \<Rightarrow> int" where "to_unix t = t div Second"
definition from_unix :: "int \<Rightarrow> time" where "from_unix s = s * Second"

lemma to_unix_from_unix [simp]: "to_unix (from_unix s) = s"
  by (simp add: to_unix_def from_unix_def Second_def)

lemma from_unix_to_unix: "from_unix (to_unix t) = t - t mod Second"
  by (simp add: to_unix_def from_unix_def minus_mod_eq_div_mult)

section \<open>Calls that may panic\<close>

datatype 'a call = Panic string | Returns 'a

section \<open>Integer roots\<close>

text \<open>\<open>root_bits k n b 0\<close>: the integer \<open>k\<close>-th root of \<open>n\<close>, found bit by bit, when it has at most \<open>b\<close> bits.\<close>

primrec root_bits :: "nat \<Rightarrow> int \<Rightarrow> nat \<Rightarrow> int \<Rightarrow> int" where
  "root_bits k n 0 a = a"
| "root_bits k n (Suc b) a = root_bits k n b (if (a + 2 ^ b) ^ k \<le> n then a + 2 ^ b else a)"

lemma root_bits_root:
  assumes "a ^ k \<le> n" "n < (a + 2 ^ b) ^ k"
  shows "root_bits k n b a ^ k \<le> n \<and> n < (root_bits k n b a + 1) ^ k"
  using assms
proof (induction b arbitrary: a)
  case (Suc b)
  have e: "a + 2 ^ b + 2 ^ b = a + 2 ^ Suc b" by simp
  show ?case
    using Suc.IH [of "a + 2 ^ b"] Suc.IH [of a] Suc.prems unfolding e
    by (cases "(a + 2 ^ b) ^ k \<le> n") (simp_all del: power_Suc)
qed simp

lemma root_bits_numeral:
  "root_bits k n (numeral v) a =
     root_bits k n (pred_numeral v) (if (a + 2 ^ pred_numeral v) ^ k \<le> n then a + 2 ^ pred_numeral v else a)"
  by (simp only: numeral_eq_Suc root_bits.simps)

end
