(* ===== verification/Proto_Messages.thy ===== *)
theory Proto_Messages
  imports FProto_Prelude
begin

text \<open>
  The protobuf messages the services exchange (\<open>proto/fproto/v1\<close>) as the Go structs generated for them, and the
  contract of the protobuf runtime. \<open>proto.Marshal\<close> and \<open>proto.Unmarshal\<close> are library code: a component that
  calls them takes them as arguments, and what it relies on is the locale \<open>app_codec\<close>, a message comes back equal up
  to nil and empty byte strings. The wire format, varints and length-delimited fields with defaults left out, is
  the instance.
\<close>

section \<open>Messages\<close>

type_synonym int32 = "32 word"
type_synonym pb_time = "(uint64 \<times> uint32) option"

record Attachment =
  at_MimeType :: string
  at_Url :: string
  at_SizeBytes :: uint64
  at_Thumbnail :: slice

record ChatMessage =
  cm_ConversationId :: slice
  cm_SenderId :: slice
  cm_RecipientId :: slice
  cm_GroupId :: slice
  cm_Action :: int32
  cm_Text :: string
  cm_ReplyTo :: slice
  cm_Attachments :: "Attachment list"

record Command =
  co_Type :: int32
  co_TargetId :: slice
  co_Payload :: slice

record MediaChunk =
  mc_StreamId :: slice
  mc_ChunkIndex :: uint32
  mc_TotalChunks :: uint32
  mc_Data :: slice
  mc_Hash :: slice
  mc_MimeType :: string
  mc_TotalSize :: uint64

record Ack =
  ak_AckMessageId :: slice
  ak_Status :: int32

record Pong =
  po_EchoTimestampMs :: uint64
  po_ServerTimestampMs :: uint64

record SenderKeyDistribution =
  sk_GroupId :: slice
  sk_SenderId :: slice
  sk_KeyId :: uint32
  sk_ChainKey :: slice
  sk_SigningKey :: slice

record SyncRequest =
  sr_LastSeenMessageId :: slice
  sr_MaxMessages :: uint32

datatype SignalingContent =
    Signaling_Offer string string
  | Signaling_Answer string string
  | Signaling_IceCandidate string string uint32
  | Signaling_StreamControl int32 slice "bytes list"

record SignalingMessage =
  sg_RecipientId :: slice
  sg_StreamId :: slice
  sg_Content :: "SignalingContent option"

text \<open>The oneof \<open>body\<close>: each wrapper holds a pointer, which may be nil.\<close>

datatype AppBody =
    AppMessage_Chat "ChatMessage option"
  | AppMessage_Command "Command option"
  | AppMessage_Media "MediaChunk option"
  | AppMessage_Ack "Ack option"
  | AppMessage_Ping "uint64 option"
  | AppMessage_Pong "Pong option"
  | AppMessage_SenderKey "SenderKeyDistribution option"
  | AppMessage_SyncRequest "SyncRequest option"
  | AppMessage_Signaling "SignalingMessage option"

record AppMessage =
  am_MessageId :: slice
  am_Timestamp :: pb_time
  am_Body :: "AppBody option"

record Frame =
  fr_SessionId :: slice
  fr_Seq :: uint64
  fr_Ack :: uint64
  fr_EncryptedPayload :: slice

record DispatchRequest =
  dr_SessionId :: slice
  dr_SenderId :: slice
  dr_Message :: "AppMessage option"

record DispatchResponse =
  ds_Success :: bool
  ds_AckMessageId :: slice

record PushToUserRequest =
  pu_UserId :: slice
  pu_Message :: "AppMessage option"

text \<open>\<open>Command_CommandType_name\<close> and \<open>Command_CommandType.String\<close>: a number with no name prints as itself.\<close>

definition Command_CommandType_name :: "(int \<times> string) list" where
  "Command_CommandType_name = [(0, ''COMMAND_TYPE_UNSPECIFIED''), (1, ''CREATE_GROUP''), (2, ''ADD_MEMBER''),
     (3, ''REMOVE_MEMBER''), (4, ''UPDATE_GROUP_SETTINGS''), (5, ''BAN_MEMBER''), (6, ''DELETE_MESSAGE'')]"

definition CommandType_String :: "int32 \<Rightarrow> string" where
  "CommandType_String x = (case map_of Command_CommandType_name (sint x) of Some s \<Rightarrow> s | None \<Rightarrow> show_int (sint x))"

section \<open>Equality of messages\<close>

text \<open>\<open>proto.Equal\<close>: a nil and an empty byte string are the same field value.\<close>

definition nb :: "slice \<Rightarrow> slice" where
  "nb s = Some (slice_bytes s)"

lemma nb_eq [simp]: "nb s = nb t \<longleftrightarrow> slice_bytes s = slice_bytes t"
  by (simp add: nb_def)

definition at_norm :: "Attachment \<Rightarrow> Attachment" where
  "at_norm a = a\<lparr>at_Thumbnail := nb (at_Thumbnail a)\<rparr>"

definition chat_norm :: "ChatMessage \<Rightarrow> ChatMessage" where
  "chat_norm c = c\<lparr>cm_ConversationId := nb (cm_ConversationId c), cm_SenderId := nb (cm_SenderId c),
     cm_RecipientId := nb (cm_RecipientId c), cm_GroupId := nb (cm_GroupId c), cm_ReplyTo := nb (cm_ReplyTo c),
     cm_Attachments := map at_norm (cm_Attachments c)\<rparr>"

definition command_norm :: "Command \<Rightarrow> Command" where
  "command_norm c = c\<lparr>co_TargetId := nb (co_TargetId c), co_Payload := nb (co_Payload c)\<rparr>"

definition media_norm :: "MediaChunk \<Rightarrow> MediaChunk" where
  "media_norm c = c\<lparr>mc_StreamId := nb (mc_StreamId c), mc_Data := nb (mc_Data c), mc_Hash := nb (mc_Hash c)\<rparr>"

definition ack_norm :: "Ack \<Rightarrow> Ack" where
  "ack_norm a = a\<lparr>ak_AckMessageId := nb (ak_AckMessageId a)\<rparr>"

definition sender_key_norm :: "SenderKeyDistribution \<Rightarrow> SenderKeyDistribution" where
  "sender_key_norm s = s\<lparr>sk_GroupId := nb (sk_GroupId s), sk_SenderId := nb (sk_SenderId s),
     sk_ChainKey := nb (sk_ChainKey s), sk_SigningKey := nb (sk_SigningKey s)\<rparr>"

definition sync_norm :: "SyncRequest \<Rightarrow> SyncRequest" where
  "sync_norm s = s\<lparr>sr_LastSeenMessageId := nb (sr_LastSeenMessageId s)\<rparr>"

fun content_norm :: "SignalingContent \<Rightarrow> SignalingContent" where
  "content_norm (Signaling_StreamControl a sid ps) = Signaling_StreamControl a (nb sid) ps"
| "content_norm c = c"

definition signaling_norm :: "SignalingMessage \<Rightarrow> SignalingMessage" where
  "signaling_norm s = s\<lparr>sg_RecipientId := nb (sg_RecipientId s), sg_StreamId := nb (sg_StreamId s),
     sg_Content := map_option content_norm (sg_Content s)\<rparr>"

fun body_norm :: "AppBody \<Rightarrow> AppBody" where
  "body_norm (AppMessage_Chat c) = AppMessage_Chat (map_option chat_norm c)"
| "body_norm (AppMessage_Command c) = AppMessage_Command (map_option command_norm c)"
| "body_norm (AppMessage_Media c) = AppMessage_Media (map_option media_norm c)"
| "body_norm (AppMessage_Ack c) = AppMessage_Ack (map_option ack_norm c)"
| "body_norm (AppMessage_Ping c) = AppMessage_Ping c"
| "body_norm (AppMessage_Pong c) = AppMessage_Pong c"
| "body_norm (AppMessage_SenderKey c) = AppMessage_SenderKey (map_option sender_key_norm c)"
| "body_norm (AppMessage_SyncRequest c) = AppMessage_SyncRequest (map_option sync_norm c)"
| "body_norm (AppMessage_Signaling c) = AppMessage_Signaling (map_option signaling_norm c)"

definition am_norm :: "AppMessage \<Rightarrow> AppMessage" where
  "am_norm m = m\<lparr>am_MessageId := nb (am_MessageId m), am_Body := map_option body_norm (am_Body m)\<rparr>"

text \<open>No wrapper of the oneof holds a nil pointer.\<close>

fun body_valid :: "AppBody \<Rightarrow> bool" where
  "body_valid (AppMessage_Chat c) = (c \<noteq> None)"
| "body_valid (AppMessage_Command c) = (c \<noteq> None)"
| "body_valid (AppMessage_Media c) = (c \<noteq> None)"
| "body_valid (AppMessage_Ack c) = (c \<noteq> None)"
| "body_valid (AppMessage_Ping c) = (c \<noteq> None)"
| "body_valid (AppMessage_Pong c) = (c \<noteq> None)"
| "body_valid (AppMessage_SenderKey c) = (c \<noteq> None)"
| "body_valid (AppMessage_SyncRequest c) = (c \<noteq> None)"
| "body_valid (AppMessage_Signaling c) = (c \<noteq> None)"

definition am_valid :: "AppMessage \<Rightarrow> bool" where
  "am_valid m \<longleftrightarrow> (case am_Body m of None \<Rightarrow> True | Some b \<Rightarrow> body_valid b)"

section \<open>The contract of the protobuf runtime\<close>

locale app_codec =
  fixes Marshal :: "AppMessage \<Rightarrow> goerr + bytes"
    and Unmarshal :: "bytes \<Rightarrow> goerr + AppMessage"
  assumes roundtrip: "am_valid m \<Longrightarrow> Marshal m = Inr bs \<Longrightarrow> \<exists>m'. Unmarshal bs = Inr m' \<and> am_norm m' = am_norm m"

section \<open>The wire format\<close>

datatype wire = WVar nat | WLen bytes

type_synonym wire_fields = "(nat \<times> wire) list"

fun enc_varint :: "nat \<Rightarrow> bytes" where
  "enc_varint n = (if n < 128 then [of_nat n] else of_nat (n mod 128 + 128) # enc_varint (n div 128))"

fun dec_varint :: "bytes \<Rightarrow> (nat \<times> bytes) option" where
  "dec_varint [] = None"
| "dec_varint (b # bs) =
     (if unat b < 128 then Some (unat b, bs)
      else map_option (\<lambda>(n, r). (unat b - 128 + 128 * n, r)) (dec_varint bs))"

declare enc_varint.simps [simp del]

lemma enc_varint_not_Nil [simp]: "enc_varint n \<noteq> []"
  by (subst enc_varint.simps) simp

lemma dec_enc_varint [simp]: "dec_varint (enc_varint n @ bs) = Some (n, bs)"
proof (induction n rule: enc_varint.induct)
  case (1 n)
  have u: "unat (of_nat k :: byte) = k" if "k < 256" for k using that by (simp add: unat_of_nat)
  show ?case
  proof (cases "n < 128")
    case True
    then show ?thesis by (subst enc_varint.simps) (simp add: u)
  next
    case False
    have *: "unat (of_nat (n mod 128 + 128) :: byte) = n mod 128 + 128" by (rule u) presburger
    from False 1 show ?thesis by (subst enc_varint.simps) (simp add: * del: of_nat_add of_nat_mod)
  qed
qed

fun enc_field :: "nat \<times> wire \<Rightarrow> bytes" where
  "enc_field (k, WVar n) = enc_varint (8 * k) @ enc_varint n"
| "enc_field (k, WLen bs) = enc_varint (8 * k + 2) @ enc_varint (length bs) @ bs"

definition enc_fields :: "wire_fields \<Rightarrow> bytes" where
  "enc_fields fs = concat (map enc_field fs)"

text \<open>The fuel is the number of bytes left: a field takes at least one.\<close>

fun dec_fields :: "nat \<Rightarrow> bytes \<Rightarrow> wire_fields option" where
  "dec_fields n [] = Some []"
| "dec_fields 0 bs = None"
| "dec_fields (Suc n) bs =
     (case dec_varint bs of None \<Rightarrow> None
      | Some (t, r) \<Rightarrow>
          (case dec_varint r of None \<Rightarrow> None
           | Some (v, r') \<Rightarrow>
               if t mod 8 = 0 then map_option ((#) (t div 8, WVar v)) (dec_fields n r')
               else if t mod 8 = 2 \<and> v \<le> length r'
                    then map_option ((#) (t div 8, WLen (take v r'))) (dec_fields n (drop v r'))
               else None))"

lemma enc_field_length: "0 < length (enc_field f)"
  by (cases f rule: enc_field.cases) simp_all

lemma enc_field_not_Nil [simp]: "enc_field f \<noteq> []"
  using enc_field_length [of f] by auto

lemma dec_enc_fields: "length (enc_fields fs) \<le> n \<Longrightarrow> dec_fields n (enc_fields fs) = Some fs"
proof (induction fs arbitrary: n)
  case Nil
  then show ?case by (simp add: enc_fields_def)
next
  case (Cons f fs)
  have "length (enc_field f) + length (enc_fields fs) \<le> n" using Cons.prems by (simp add: enc_fields_def)
  with enc_field_length [of f] have "Suc (length (enc_fields fs)) \<le> n" by linarith
  then obtain n' where n: "n = Suc n'" "length (enc_fields fs) \<le> n'" by (cases n) auto
  note IH = Cons.IH [OF n(2)]
  obtain b bs where ne: "enc_fields (f # fs) = b # bs"
    by (cases "enc_fields (f # fs)") (auto simp: enc_fields_def)
  have "dec_fields (Suc n') (enc_field f @ enc_fields fs) =
     (case dec_varint (enc_field f @ enc_fields fs) of None \<Rightarrow> None
      | Some (t, r) \<Rightarrow>
          (case dec_varint r of None \<Rightarrow> None
           | Some (v, r') \<Rightarrow>
               if t mod 8 = 0 then map_option ((#) (t div 8, WVar v)) (dec_fields n' r')
               else if t mod 8 = 2 \<and> v \<le> length r'
                    then map_option ((#) (t div 8, WLen (take v r'))) (dec_fields n' (drop v r'))
               else None))"
    using ne by (simp add: enc_fields_def)
  moreover have "Suc (Suc (8 * k)) mod 8 = 2" "Suc (Suc (8 * k)) div 8 = k" for k by presburger+
  ultimately show ?case using IH n(1) by (cases f rule: enc_field.cases) (simp_all add: enc_fields_def)
qed

text \<open>Writing fields, defaults left out, and reading them, the last of a number wins.\<close>

fun lens :: "nat \<Rightarrow> wire_fields \<Rightarrow> bytes list" where
  "lens k [] = []"
| "lens k ((j, WLen b) # fs) = (if j = k then b # lens k fs else lens k fs)"
| "lens k ((j, WVar n) # fs) = lens k fs"

fun vars :: "nat \<Rightarrow> wire_fields \<Rightarrow> nat list" where
  "vars k [] = []"
| "vars k ((j, WLen b) # fs) = vars k fs"
| "vars k ((j, WVar n) # fs) = (if j = k then n # vars k fs else vars k fs)"

definition w_bytes :: "nat \<Rightarrow> slice \<Rightarrow> wire_fields" where
  "w_bytes k s = (if slice_bytes s = [] then [] else [(k, WLen (slice_bytes s))])"

definition w_str :: "nat \<Rightarrow> string \<Rightarrow> wire_fields" where
  "w_str k s = (if s = [] then [] else [(k, WLen (string_to_bytes s))])"

definition w_u32 :: "nat \<Rightarrow> uint32 \<Rightarrow> wire_fields" where
  "w_u32 k v = (if v = 0 then [] else [(k, WVar (unat v))])"

definition w_u64 :: "nat \<Rightarrow> uint64 \<Rightarrow> wire_fields" where
  "w_u64 k v = (if v = 0 then [] else [(k, WVar (unat v))])"

text \<open>Enumerations are \<open>int32\<close>: a negative one is extended to 64 bits.\<close>

definition w_enum :: "nat \<Rightarrow> int32 \<Rightarrow> wire_fields" where
  "w_enum k v = (if v = 0 then [] else [(k, WVar (unat (scast v :: uint64)))])"

definition w_msg :: "nat \<Rightarrow> wire_fields \<Rightarrow> wire_fields" where
  "w_msg k fs = [(k, WLen (enc_fields fs))]"

definition g_bytes :: "nat \<Rightarrow> wire_fields \<Rightarrow> slice" where
  "g_bytes k fs = (if lens k fs = [] then None else Some (last (lens k fs)))"

definition last_or :: "'a \<Rightarrow> 'a list \<Rightarrow> 'a" where
  "last_or d xs = (if xs = [] then d else last xs)"

definition g_str :: "nat \<Rightarrow> wire_fields \<Rightarrow> string" where
  "g_str k fs = bytes_to_string (last_or [] (lens k fs))"

definition g_num :: "nat \<Rightarrow> wire_fields \<Rightarrow> 'a::len word" where
  "g_num k fs = of_nat (last_or 0 (vars k fs))"

definition g_fields :: "bytes \<Rightarrow> wire_fields" where
  "g_fields bs = (case dec_fields (length bs) bs of None \<Rightarrow> [] | Some fs \<Rightarrow> fs)"

lemma g_fields_enc [simp]: "g_fields (enc_fields fs) = fs"
  by (simp add: g_fields_def dec_enc_fields)

lemma lens_append [simp]: "lens k (fs @ gs) = lens k fs @ lens k gs"
  by (induction k fs rule: lens.induct) simp_all

lemma vars_append [simp]: "vars k (fs @ gs) = vars k fs @ vars k gs"
  by (induction k fs rule: vars.induct) simp_all

lemma lens_w [simp]:
  "lens k (w_bytes j s) = (if j = k \<and> slice_bytes s \<noteq> [] then [slice_bytes s] else [])"
  "lens k (w_str j t) = (if j = k \<and> t \<noteq> [] then [string_to_bytes t] else [])"
  "lens k (w_u32 j v) = []" "lens k (w_u64 j w) = []" "lens k (w_enum j e) = []"
  "lens k (w_msg j fs) = (if j = k then [enc_fields fs] else [])"
  by (simp_all add: w_bytes_def w_str_def w_u32_def w_u64_def w_enum_def w_msg_def)

lemma vars_w [simp]:
  "vars k (w_bytes j s) = []" "vars k (w_str j t) = []" "vars k (w_msg j fs) = []"
  "vars k (w_u32 j v) = (if j = k \<and> v \<noteq> 0 then [unat v] else [])"
  "vars k (w_u64 j w) = (if j = k \<and> w \<noteq> 0 then [unat w] else [])"
  "vars k (w_enum j e) = (if j = k \<and> e \<noteq> 0 then [unat (scast e :: uint64)] else [])"
  by (simp_all add: w_bytes_def w_str_def w_u32_def w_u64_def w_enum_def w_msg_def)

lemma enum_back [simp]: "(ucast (scast (e :: int32) :: uint64) :: int32) = e"
  by (rule bit_word_eqI) (auto simp: bit_ucast_iff bit_simps)

lemma slice_bytes_g_bytes [simp]: "slice_bytes (g_bytes k fs) = last_or [] (lens k fs)"
  by (simp add: g_bytes_def last_or_def)

lemma last_or_field [simp]:
  "last_or [] (if bs = [] then [] else [bs]) = bs"
  "last_or [] (if t = [] then [] else [string_to_bytes t]) = string_to_bytes t"
  "last_or 0 (if v = 0 then [] else [unat v]) = unat (v :: 'a::len word)"
  "last_or 0 (if e = 0 then [] else [unat (scast (e :: int32) :: uint64)]) = unat (scast e :: uint64)"
  by (simp_all add: last_or_def string_to_bytes_def)

lemma if_field_neg [simp]: "(if x \<noteq> y then xs else []) = (if x = y then [] else xs)"
  by simp

lemmas g_defs = g_str_def g_num_def nb_def

text \<open>The messages, field by field.\<close>

definition at_fields :: "Attachment \<Rightarrow> wire_fields" where
  "at_fields a = w_str 1 (at_MimeType a) @ w_str 2 (at_Url a) @ w_u64 3 (at_SizeBytes a) @ w_bytes 4 (at_Thumbnail a)"

definition at_of :: "wire_fields \<Rightarrow> Attachment" where
  "at_of fs = \<lparr>at_MimeType = g_str 1 fs, at_Url = g_str 2 fs, at_SizeBytes = g_num 3 fs, at_Thumbnail = g_bytes 4 fs\<rparr>"

definition chat_fields :: "ChatMessage \<Rightarrow> wire_fields" where
  "chat_fields c = w_bytes 1 (cm_ConversationId c) @ w_bytes 2 (cm_SenderId c) @ w_bytes 3 (cm_RecipientId c) @
     w_bytes 4 (cm_GroupId c) @ w_enum 5 (cm_Action c) @ w_str 6 (cm_Text c) @ w_bytes 7 (cm_ReplyTo c) @
     concat (map (\<lambda>a. w_msg 8 (at_fields a)) (cm_Attachments c))"

definition chat_of :: "wire_fields \<Rightarrow> ChatMessage" where
  "chat_of fs = \<lparr>cm_ConversationId = g_bytes 1 fs, cm_SenderId = g_bytes 2 fs, cm_RecipientId = g_bytes 3 fs,
     cm_GroupId = g_bytes 4 fs, cm_Action = g_num 5 fs, cm_Text = g_str 6 fs, cm_ReplyTo = g_bytes 7 fs,
     cm_Attachments = map (at_of \<circ> g_fields) (lens 8 fs)\<rparr>"

definition command_fields :: "Command \<Rightarrow> wire_fields" where
  "command_fields c = w_enum 1 (co_Type c) @ w_bytes 2 (co_TargetId c) @ w_bytes 3 (co_Payload c)"

definition command_of :: "wire_fields \<Rightarrow> Command" where
  "command_of fs = \<lparr>co_Type = g_num 1 fs, co_TargetId = g_bytes 2 fs, co_Payload = g_bytes 3 fs\<rparr>"

definition media_fields :: "MediaChunk \<Rightarrow> wire_fields" where
  "media_fields c = w_bytes 1 (mc_StreamId c) @ w_u32 2 (mc_ChunkIndex c) @ w_u32 3 (mc_TotalChunks c) @
     w_bytes 4 (mc_Data c) @ w_bytes 5 (mc_Hash c) @ w_str 6 (mc_MimeType c) @ w_u64 7 (mc_TotalSize c)"

definition media_of :: "wire_fields \<Rightarrow> MediaChunk" where
  "media_of fs = \<lparr>mc_StreamId = g_bytes 1 fs, mc_ChunkIndex = g_num 2 fs, mc_TotalChunks = g_num 3 fs,
     mc_Data = g_bytes 4 fs, mc_Hash = g_bytes 5 fs, mc_MimeType = g_str 6 fs, mc_TotalSize = g_num 7 fs\<rparr>"

definition ack_fields :: "Ack \<Rightarrow> wire_fields" where
  "ack_fields a = w_bytes 1 (ak_AckMessageId a) @ w_enum 2 (ak_Status a)"

definition ack_of :: "wire_fields \<Rightarrow> Ack" where
  "ack_of fs = \<lparr>ak_AckMessageId = g_bytes 1 fs, ak_Status = g_num 2 fs\<rparr>"

definition pong_fields :: "Pong \<Rightarrow> wire_fields" where
  "pong_fields p = w_u64 1 (po_EchoTimestampMs p) @ w_u64 2 (po_ServerTimestampMs p)"

definition pong_of :: "wire_fields \<Rightarrow> Pong" where
  "pong_of fs = \<lparr>po_EchoTimestampMs = g_num 1 fs, po_ServerTimestampMs = g_num 2 fs\<rparr>"

definition sender_key_fields :: "SenderKeyDistribution \<Rightarrow> wire_fields" where
  "sender_key_fields s = w_bytes 1 (sk_GroupId s) @ w_bytes 2 (sk_SenderId s) @ w_u32 3 (sk_KeyId s) @
     w_bytes 4 (sk_ChainKey s) @ w_bytes 5 (sk_SigningKey s)"

definition sender_key_of :: "wire_fields \<Rightarrow> SenderKeyDistribution" where
  "sender_key_of fs = \<lparr>sk_GroupId = g_bytes 1 fs, sk_SenderId = g_bytes 2 fs, sk_KeyId = g_num 3 fs,
     sk_ChainKey = g_bytes 4 fs, sk_SigningKey = g_bytes 5 fs\<rparr>"

definition sync_fields :: "SyncRequest \<Rightarrow> wire_fields" where
  "sync_fields s = w_bytes 1 (sr_LastSeenMessageId s) @ w_u32 2 (sr_MaxMessages s)"

definition sync_of :: "wire_fields \<Rightarrow> SyncRequest" where
  "sync_of fs = \<lparr>sr_LastSeenMessageId = g_bytes 1 fs, sr_MaxMessages = g_num 2 fs\<rparr>"

fun content_fields :: "SignalingContent \<Rightarrow> wire_fields" where
  "content_fields (Signaling_Offer sdp t) = w_msg 3 (w_str 1 sdp @ w_str 2 t)"
| "content_fields (Signaling_Answer sdp t) = w_msg 4 (w_str 1 sdp @ w_str 2 t)"
| "content_fields (Signaling_IceCandidate c mid i) = w_msg 5 (w_str 1 c @ w_str 2 mid @ w_u32 3 i)"
| "content_fields (Signaling_StreamControl a sid ps) =
     w_msg 6 (w_enum 1 a @ w_bytes 2 sid @ map (\<lambda>p. (3, WLen p)) ps)"

text \<open>The last field of a oneof wins.\<close>

fun content_step :: "nat \<times> wire \<Rightarrow> SignalingContent option \<Rightarrow> SignalingContent option" where
  "content_step (k, WLen b) c =
     (let fs = g_fields b in
      if k = 3 then Some (Signaling_Offer (g_str 1 fs) (g_str 2 fs))
      else if k = 4 then Some (Signaling_Answer (g_str 1 fs) (g_str 2 fs))
      else if k = 5 then Some (Signaling_IceCandidate (g_str 1 fs) (g_str 2 fs) (g_num 3 fs))
      else if k = 6 then Some (Signaling_StreamControl (g_num 1 fs) (g_bytes 2 fs) (lens 3 fs))
      else c)"
| "content_step (k, WVar n) c = c"

definition signaling_fields :: "SignalingMessage \<Rightarrow> wire_fields" where
  "signaling_fields s = w_bytes 1 (sg_RecipientId s) @ w_bytes 2 (sg_StreamId s) @
     (case sg_Content s of None \<Rightarrow> [] | Some c \<Rightarrow> content_fields c)"

definition signaling_of :: "wire_fields \<Rightarrow> SignalingMessage" where
  "signaling_of fs = \<lparr>sg_RecipientId = g_bytes 1 fs, sg_StreamId = g_bytes 2 fs, sg_Content = fold content_step fs None\<rparr>"

fun body_fields :: "AppBody \<Rightarrow> wire_fields" where
  "body_fields (AppMessage_Chat (Some c)) = w_msg 3 (chat_fields c)"
| "body_fields (AppMessage_Command (Some c)) = w_msg 4 (command_fields c)"
| "body_fields (AppMessage_Media (Some c)) = w_msg 5 (media_fields c)"
| "body_fields (AppMessage_Ack (Some c)) = w_msg 6 (ack_fields c)"
| "body_fields (AppMessage_Ping (Some c)) = w_msg 7 (w_u64 1 c)"
| "body_fields (AppMessage_Pong (Some c)) = w_msg 8 (pong_fields c)"
| "body_fields (AppMessage_SenderKey (Some c)) = w_msg 9 (sender_key_fields c)"
| "body_fields (AppMessage_SyncRequest (Some c)) = w_msg 10 (sync_fields c)"
| "body_fields (AppMessage_Signaling (Some c)) = w_msg 11 (signaling_fields c)"
| "body_fields _ = []"

fun body_step :: "nat \<times> wire \<Rightarrow> AppBody option \<Rightarrow> AppBody option" where
  "body_step (k, WLen b) c =
     (let fs = g_fields b in
      if k = 3 then Some (AppMessage_Chat (Some (chat_of fs)))
      else if k = 4 then Some (AppMessage_Command (Some (command_of fs)))
      else if k = 5 then Some (AppMessage_Media (Some (media_of fs)))
      else if k = 6 then Some (AppMessage_Ack (Some (ack_of fs)))
      else if k = 7 then Some (AppMessage_Ping (Some (g_num 1 fs)))
      else if k = 8 then Some (AppMessage_Pong (Some (pong_of fs)))
      else if k = 9 then Some (AppMessage_SenderKey (Some (sender_key_of fs)))
      else if k = 10 then Some (AppMessage_SyncRequest (Some (sync_of fs)))
      else if k = 11 then Some (AppMessage_Signaling (Some (signaling_of fs)))
      else c)"
| "body_step (k, WVar n) c = c"

definition am_fields :: "AppMessage \<Rightarrow> wire_fields" where
  "am_fields m = w_bytes 1 (am_MessageId m) @
     (case am_Timestamp m of None \<Rightarrow> [] | Some (s, n) \<Rightarrow> w_msg 2 (w_u64 1 s @ w_u32 2 n)) @
     (case am_Body m of None \<Rightarrow> [] | Some b \<Rightarrow> body_fields b)"

definition am_of :: "wire_fields \<Rightarrow> AppMessage" where
  "am_of fs = \<lparr>am_MessageId = g_bytes 1 fs,
     am_Timestamp = (if lens 2 fs = [] then None else Some (let ts = g_fields (last (lens 2 fs)) in (g_num 1 ts, g_num 2 ts))),
     am_Body = fold body_step fs None\<rparr>"

definition wire_Marshal :: "AppMessage \<Rightarrow> goerr + bytes" where
  "wire_Marshal m = Inr (enc_fields (am_fields m))"

definition wire_Unmarshal :: "bytes \<Rightarrow> goerr + AppMessage" where
  "wire_Unmarshal bs = (case dec_fields (length bs) bs of None \<Rightarrow> Inl ''proto: cannot parse invalid wire-format data''
     | Some fs \<Rightarrow> Inr (am_of fs))"

lemma at_of_fields: "at_norm (at_of (at_fields a)) = at_norm a"
  by (simp add: at_norm_def at_of_def at_fields_def g_defs)

lemma lens_atts [simp]:
  "lens k (concat (map (\<lambda>a. w_msg 8 (at_fields a)) as)) = (if k = 8 then map (enc_fields \<circ> at_fields) as else [])"
  by (induction as) auto

lemma vars_atts [simp]: "vars k (concat (map (\<lambda>a. w_msg 8 (at_fields a)) as)) = []"
  by (induction as) auto

lemma chat_of_fields: "chat_norm (chat_of (chat_fields c)) = chat_norm c"
  by (simp add: chat_norm_def chat_of_def chat_fields_def g_defs at_of_fields comp_def)

lemma body_parts:
  "command_norm (command_of (command_fields co)) = command_norm co"
  "media_norm (media_of (media_fields mc)) = media_norm mc"
  "ack_norm (ack_of (ack_fields ak)) = ack_norm ak"
  "pong_of (pong_fields po) = po"
  "sender_key_norm (sender_key_of (sender_key_fields sk)) = sender_key_norm sk"
  "sync_norm (sync_of (sync_fields sy)) = sync_norm sy"
  by (simp_all add: command_norm_def command_of_def command_fields_def media_norm_def media_of_def media_fields_def
      ack_norm_def ack_of_def ack_fields_def pong_of_def pong_fields_def sender_key_norm_def sender_key_of_def
      sender_key_fields_def sync_norm_def sync_of_def sync_fields_def g_defs)

lemma lens_parts [simp]: "lens k (map (\<lambda>p. (j, WLen p)) ps) = (if j = k then ps else [])"
  by (induction ps) auto

lemma vars_parts [simp]: "vars k (map (\<lambda>p. (j, WLen p)) ps) = []"
  by (induction ps) auto

lemma content_fold [simp]: "k < 3 \<Longrightarrow> fold content_step (w_bytes k s) c = c"
  by (simp_all add: w_bytes_def)

lemma content_of_fields:
  "map_option content_norm (fold content_step (content_fields c) None) = Some (content_norm c)"
  by (cases c) (simp_all add: w_msg_def g_defs Let_def)

lemma lens_content [simp]: "k < 3 \<Longrightarrow> lens k (content_fields c) = []"
  by (cases c) simp_all

lemma signaling_of_fields: "signaling_norm (signaling_of (signaling_fields s)) = signaling_norm s"
proof (cases "sg_Content s")
  case None
  then show ?thesis by (simp add: signaling_norm_def signaling_of_def signaling_fields_def g_defs)
next
  case (Some c)
  with content_of_fields [of c] show ?thesis
    by (simp add: signaling_norm_def signaling_of_def signaling_fields_def g_defs)
qed

lemma body_fold [simp]: "k < 3 \<Longrightarrow> fold body_step (w_bytes k s) c = c" "k < 3 \<Longrightarrow> fold body_step (w_msg k fs) c = c"
  by (simp_all add: w_bytes_def w_msg_def)

lemma body_of_fields:
  "body_valid b \<Longrightarrow> map_option body_norm (fold body_step (body_fields b) None) = Some (body_norm b)"
  by (cases b rule: body_fields.cases)
    (simp_all add: w_msg_def Let_def chat_of_fields body_parts signaling_of_fields, simp add: g_defs)

lemma lens_body [simp]: "k < 3 \<Longrightarrow> lens k (body_fields b) = []"
  by (cases b rule: body_fields.cases) simp_all

lemma am_of_fields:
  assumes "am_valid m"
  shows "am_norm (am_of (am_fields m)) = am_norm m"
proof -
  have body: "map_option body_norm (fold body_step (am_fields m) None) = map_option body_norm (am_Body m)"
    using assms body_of_fields
    by (auto simp: am_valid_def am_fields_def split: option.splits prod.splits)
  have time: "am_Timestamp (am_of (am_fields m)) = am_Timestamp m"
    by (cases "am_Body m") (auto simp: am_of_def am_fields_def g_defs Let_def split: option.splits)
  have "slice_bytes (am_MessageId (am_of (am_fields m))) = slice_bytes (am_MessageId m)"
    by (cases "am_Body m") (auto simp: am_of_def am_fields_def last_or_def split: option.splits)
  with body time show ?thesis by (simp add: am_norm_def am_of_def nb_def)
qed

interpretation wire: app_codec wire_Marshal wire_Unmarshal
  by unfold_locales (auto simp: wire_Marshal_def wire_Unmarshal_def dec_enc_fields am_of_fields)

end
