(* ===== verification/Kafka.thy ===== *)
theory Kafka
  imports FProto_Prelude
begin

text \<open>
  \<open>server/internal/kafka\<close>: topic names and their creation, the producer, the consumer loop and the
  header carriers of the trace propagation. The Kafka client library is a parameter: \<open>kafka_ops\<close> for
  the producer, \<open>admin_ops\<close> for the cluster administration, a function on headers for the
  propagator. The locale \<open>kafka_broker\<close> states what a send does to the broker's log.
\<close>

section \<open>topics.go\<close>

definition UserPartitions :: int where "UserPartitions = 128"
definition GroupPartitions :: int where "GroupPartitions = 64"
definition CommandPartitions :: int where "CommandPartitions = 32"
definition EventPartitions :: int where "EventPartitions = 64"
definition MediaEventPartitions :: int where "MediaEventPartitions = 32"
definition DeadLetterParts :: int where "DeadLetterParts = 8"

definition TopicCommands :: string where "TopicCommands = ''commands''"
definition TopicEvents :: string where "TopicEvents = ''events''"
definition TopicMediaEvents :: string where "TopicMediaEvents = ''media-events''"
definition TopicDeadLetter :: string where "TopicDeadLetter = ''dead-letter''"

lemmas topic_defs = TopicCommands_def TopicEvents_def TopicMediaEvents_def TopicDeadLetter_def

definition UserTopic :: "slice \<Rightarrow> string" where
  "UserTopic u = ''user-'' @ hex_encode (slice_bytes u)"

definition GroupTopic :: "slice \<Rightarrow> string" where
  "GroupTopic g = ''group-'' @ hex_encode (slice_bytes g)"

record TopicSpec =
  ts_Name :: string
  ts_Partitions :: int
  ts_Replicas :: int
  ts_Retention :: string

definition StaticTopics :: "int \<Rightarrow> TopicSpec list" where
  "StaticTopics replicas =
    [\<lparr>ts_Name = TopicCommands, ts_Partitions = CommandPartitions, ts_Replicas = replicas, ts_Retention = ''604800000''\<rparr>,
     \<lparr>ts_Name = TopicEvents, ts_Partitions = EventPartitions, ts_Replicas = replicas, ts_Retention = ''7776000000''\<rparr>,
     \<lparr>ts_Name = TopicMediaEvents, ts_Partitions = MediaEventPartitions, ts_Replicas = replicas, ts_Retention = ''2592000000''\<rparr>,
     \<lparr>ts_Name = TopicDeadLetter, ts_Partitions = DeadLetterParts, ts_Replicas = replicas, ts_Retention = ''7776000000''\<rparr>]"

record TopicDetail =
  NumPartitions :: int
  ReplicationFactor :: int
  ConfigEntries :: "(string \<times> string) list"

record 'a admin_ops =
  ao_ListTopics :: "'a \<Rightarrow> goerr + string set"
  ao_CreateTopic :: "'a \<Rightarrow> string \<Rightarrow> TopicDetail \<Rightarrow> 'a \<times> goerr option"

definition spec_detail :: "TopicSpec \<Rightarrow> TopicDetail" where
  "spec_detail spec = \<lparr>NumPartitions = ts_Partitions spec, ReplicationFactor = ts_Replicas spec,
     ConfigEntries = (if ts_Retention spec \<noteq> [] then [(''retention.ms'', ts_Retention spec)] else [])\<rparr>"

fun create_missing :: "'a admin_ops \<Rightarrow> string set \<Rightarrow> TopicSpec list \<Rightarrow> 'a \<Rightarrow> 'a \<times> goerr option" where
  "create_missing A existing [] a = (a, None)"
| "create_missing A existing (spec # specs) a =
     (if ts_Name spec \<in> existing then create_missing A existing specs a
      else case ao_CreateTopic A a (ts_Name spec) (spec_detail spec) of
             (a', Some e) \<Rightarrow> (a', Some (''create topic '' @ ts_Name spec @ '': '' @ e))
           | (a', None) \<Rightarrow> create_missing A existing specs a')"

definition EnsureTopics :: "'a admin_ops \<Rightarrow> TopicSpec list \<Rightarrow> 'a \<Rightarrow> 'a \<times> goerr option" where
  "EnsureTopics A specs a =
     (case ao_ListTopics A a of Inl e \<Rightarrow> (a, Some (''list topics: '' @ e))
      | Inr existing \<Rightarrow> create_missing A existing specs a)"

definition EnsureDynamicTopic :: "'a admin_ops \<Rightarrow> string \<Rightarrow> int \<Rightarrow> int \<Rightarrow> 'a \<Rightarrow> 'a \<times> goerr option" where
  "EnsureDynamicTopic A name partitions replicas a =
     (case ao_ListTopics A a of Inl e \<Rightarrow> (a, Some (''list topics: '' @ e))
      | Inr existing \<Rightarrow>
          if name \<in> existing then (a, None)
          else ao_CreateTopic A a name \<lparr>NumPartitions = partitions, ReplicationFactor = replicas,
            ConfigEntries = [(''retention.ms'', ''2592000000'')]\<rparr>)"

section \<open>tracing.go\<close>

type_synonym header = "bytes \<times> bytes"

fun ProducerHeaderCarrier_Get :: "header list \<Rightarrow> string \<Rightarrow> string" where
  "ProducerHeaderCarrier_Get [] key = []"
| "ProducerHeaderCarrier_Get (h # hs) key =
     (if bytes_to_string (fst h) = key then bytes_to_string (snd h) else ProducerHeaderCarrier_Get hs key)"

fun ProducerHeaderCarrier_Set :: "header list \<Rightarrow> string \<Rightarrow> string \<Rightarrow> header list" where
  "ProducerHeaderCarrier_Set [] key v = [(string_to_bytes key, string_to_bytes v)]"
| "ProducerHeaderCarrier_Set (h # hs) key v =
     (if bytes_to_string (fst h) = key then (fst h, string_to_bytes v) # hs
      else h # ProducerHeaderCarrier_Set hs key v)"

definition ProducerHeaderCarrier_Keys :: "header list \<Rightarrow> string list" where
  "ProducerHeaderCarrier_Keys hs = map (\<lambda>h. bytes_to_string (fst h)) hs"

text \<open>A consumer's headers are pointers, which may be nil.\<close>

fun ConsumerHeaderCarrier_Get :: "header option list \<Rightarrow> string \<Rightarrow> string" where
  "ConsumerHeaderCarrier_Get [] key = []"
| "ConsumerHeaderCarrier_Get (None # hs) key = ConsumerHeaderCarrier_Get hs key"
| "ConsumerHeaderCarrier_Get (Some h # hs) key =
     (if bytes_to_string (fst h) = key then bytes_to_string (snd h) else ConsumerHeaderCarrier_Get hs key)"

definition ConsumerHeaderCarrier_Set :: "header option list \<Rightarrow> string \<Rightarrow> string \<Rightarrow> header option list" where
  "ConsumerHeaderCarrier_Set hs key v = hs"

definition ConsumerHeaderCarrier_Keys :: "header option list \<Rightarrow> string list" where
  "ConsumerHeaderCarrier_Keys hs =
     List.map_filter (\<lambda>h. case h of None \<Rightarrow> None | Some (k, _) \<Rightarrow> Some (bytes_to_string k)) hs"

section \<open>producer.go\<close>

record ProducerMessage =
  pm_Topic :: string
  pm_Key :: slice
  pm_Value :: slice
  pm_Headers :: "header list"

record 'k kafka_ops =
  ko_SendMessage :: "'k \<Rightarrow> ProducerMessage \<Rightarrow> 'k \<times> (goerr + int \<times> int)"
  ko_Close :: "'k \<Rightarrow> 'k \<times> goerr option"

text \<open>\<open>inject\<close> is what the propagator adds to empty headers for the context.\<close>

definition Producer_SendWithContext ::
  "'k kafka_ops \<Rightarrow> (header list \<Rightarrow> header list) \<Rightarrow> 'k \<Rightarrow> string \<Rightarrow> slice \<Rightarrow> slice \<Rightarrow> 'k \<times> (goerr + int \<times> int)" where
  "Producer_SendWithContext K inject k topic key v =
     ko_SendMessage K k \<lparr>pm_Topic = topic, pm_Key = key, pm_Value = v, pm_Headers = inject []\<rparr>"

text \<open>The background context carries no span: nothing is injected.\<close>

definition Producer_Send :: "'k kafka_ops \<Rightarrow> 'k \<Rightarrow> string \<Rightarrow> slice \<Rightarrow> slice \<Rightarrow> 'k \<times> (goerr + int \<times> int)" where
  "Producer_Send K k topic key v = Producer_SendWithContext K (\<lambda>hs. hs) k topic key v"

record 'k Producer =
  pr_sp :: 'k
  pr_closed :: bool

definition Producer_Close :: "'k kafka_ops \<Rightarrow> 'k Producer \<Rightarrow> 'k Producer \<times> goerr option" where
  "Producer_Close K p =
     (if pr_closed p then (p, None)
      else let (k', err) = ko_Close K (pr_sp p) in (p\<lparr>pr_closed := True, pr_sp := k'\<rparr>, err))"

section \<open>consumer.go\<close>

record ConsumerMessage =
  cm_Topic :: string
  cm_Partition :: int
  cm_Offset :: int
  cm_Value :: bytes

text \<open>
  \<open>ConsumeClaim\<close> over the messages a claim delivers, until its channel is closed: the handler's
  state and the marks of the session, in order.
\<close>

fun ConsumeClaim ::
  "('st \<Rightarrow> ConsumerMessage \<Rightarrow> 'st \<times> goerr option) \<Rightarrow> ConsumerMessage list \<Rightarrow> 'st \<Rightarrow> int list \<Rightarrow> 'st \<times> int list" where
  "ConsumeClaim handler [] st marks = (st, marks)"
| "ConsumeClaim handler (msg # msgs) st marks =
     (case handler st msg of
        (st', Some _) \<Rightarrow> ConsumeClaim handler msgs st' marks
      | (st', None) \<Rightarrow> ConsumeClaim handler msgs st' (marks @ [cm_Offset msg]))"

text \<open>
  The library keeps one offset per partition, the one after the highest marked; it is where a
  consumer resumes.
\<close>

definition resume_offset :: "int \<Rightarrow> int list \<Rightarrow> int" where
  "resume_offset start marks = fold (\<lambda>o' acc. max acc (o' + 1)) marks start"

section \<open>The broker\<close>

text \<open>
  \<open>sent k\<close> is the broker's log. A send that succeeds appends the message; one that fails may have
  appended it.
\<close>

locale kafka_broker =
  fixes K :: "'k kafka_ops"
    and sent :: "'k \<Rightarrow> ProducerMessage list"
  assumes send_ok: "ko_SendMessage K k msg = (k', Inr po) \<Longrightarrow> sent k' = sent k @ [msg]"
    and send_err: "ko_SendMessage K k msg = (k', Inl e) \<Longrightarrow> sent k' = sent k \<or> sent k' = sent k @ [msg]"
begin

lemma send_keeps: "ko_SendMessage K k msg = (k', res) \<Longrightarrow> set (sent k) \<subseteq> set (sent k')"
  using send_ok [of k msg k'] send_err [of k msg k'] by (cases res) auto

end

text \<open>An in-memory broker with a schedule of faults: before or after the append.\<close>

datatype send_fault = NoFault | Refused goerr | LostAck goerr

record mem_broker =
  mb_log :: "ProducerMessage list"
  mb_faults :: "send_fault list"

definition mem_send :: "mem_broker \<Rightarrow> ProducerMessage \<Rightarrow> mem_broker \<times> (goerr + int \<times> int)" where
  "mem_send b msg =
     (let b' = b\<lparr>mb_faults := tl (mb_faults b)\<rparr>; ok = b'\<lparr>mb_log := mb_log b @ [msg]\<rparr> in
      case (if mb_faults b = [] then NoFault else hd (mb_faults b)) of
        NoFault \<Rightarrow> (ok, Inr (0, int (length (mb_log b))))
      | Refused e \<Rightarrow> (b', Inl e)
      | LostAck e \<Rightarrow> (ok, Inl e))"

definition mem_kafka :: "mem_broker kafka_ops" where
  "mem_kafka = \<lparr>ko_SendMessage = mem_send, ko_Close = (\<lambda>b. (b, None))\<rparr>"

interpretation memk: kafka_broker mem_kafka mb_log
  by unfold_locales (auto simp: mem_kafka_def mem_send_def Let_def split: send_fault.splits if_splits)

section \<open>Cluster administration\<close>

locale kafka_admin =
  fixes A :: "'a admin_ops"
    and topics :: "'a \<Rightarrow> string set"
  assumes list_topics: "ao_ListTopics A a = Inr ts \<Longrightarrow> ts = topics a"
    and create_topic: "ao_CreateTopic A a name d = (a', None) \<Longrightarrow> topics a' = insert name (topics a)"
begin

lemma create_missing_topics:
  "create_missing A existing specs a = (a', None) \<Longrightarrow> existing \<subseteq> topics a \<Longrightarrow>
     topics a' = topics a \<union> (ts_Name ` set specs - existing) \<and> existing \<subseteq> topics a'"
proof (induction specs arbitrary: a)
  case (Cons spec specs)
  show ?case
  proof (cases "ts_Name spec \<in> existing")
    case True
    with Cons show ?thesis by auto
  next
    case False
    with Cons.prems obtain a1 where a1: "ao_CreateTopic A a (ts_Name spec) (spec_detail spec) = (a1, None)"
        "create_missing A existing specs a1 = (a', None)"
      by (auto split: prod.splits option.splits)
    with create_topic Cons.prems(2) have "topics a1 = insert (ts_Name spec) (topics a)" "existing \<subseteq> topics a1"
      by blast+
    with Cons.IH [OF a1(2)] False show ?thesis by auto
  qed
qed auto

lemma EnsureTopics_topics:
  assumes "EnsureTopics A specs a = (a', None)"
  shows "topics a' = topics a \<union> ts_Name ` set specs"
proof -
  have "ao_ListTopics A a = Inr (topics a) \<and> create_missing A (topics a) specs a = (a', None)"
    using assms list_topics by (auto simp: EnsureTopics_def split: sum.splits)
  with create_missing_topics [of "topics a" specs a a'] show ?thesis by auto
qed

end

definition mem_admin :: "string set admin_ops" where
  "mem_admin = \<lparr>ao_ListTopics = (\<lambda>a. Inr a),
     ao_CreateTopic = (\<lambda>a name d. if name \<in> a then (a, Some ''topic already exists'') else (insert name a, None))\<rparr>"

interpretation mema: kafka_admin mem_admin "\<lambda>a. a"
  by unfold_locales (auto simp: mem_admin_def split: if_splits)

section \<open>Consuming\<close>

text \<open>The handler's state after a list of messages, and the offsets it accepted.\<close>

fun handled :: "('st \<Rightarrow> ConsumerMessage \<Rightarrow> 'st \<times> goerr option) \<Rightarrow> ConsumerMessage list \<Rightarrow> 'st \<Rightarrow> (ConsumerMessage \<times> goerr option) list" where
  "handled handler [] st = []"
| "handled handler (msg # msgs) st =
     (msg, snd (handler st msg)) # handled handler msgs (fst (handler st msg))"

lemma ConsumeClaim_eq:
  "ConsumeClaim handler msgs st marks =
     (fold (\<lambda>msg st. fst (handler st msg)) msgs st,
      marks @ map (\<lambda>p. cm_Offset (fst p)) (filter (\<lambda>p. snd p = None) (handled handler msgs st)))"
  by (induction msgs arbitrary: st marks) (auto split: prod.splits option.splits)

lemma map_fst_handled [simp]: "map fst (handled handler msgs st) = msgs"
  by (induction msgs arbitrary: st) auto

lemma resume_offset_ge: "start \<le> resume_offset start marks"
proof -
  have "start \<le> fold (\<lambda>o' acc. max acc (o' + 1)) marks start"
    by (induction marks arbitrary: start) (auto intro: order_trans [OF max.cobounded1])
  then show ?thesis by (simp add: resume_offset_def)
qed

lemma resume_offset_mark: "x \<in> set marks \<Longrightarrow> x < resume_offset start marks"
proof (induction marks arbitrary: start)
  case (Cons y ys)
  have "max start (y + 1) \<le> fold (\<lambda>o' acc. max acc (o' + 1)) ys (max start (y + 1))"
    using resume_offset_ge [of "max start (y + 1)" ys] by (simp add: resume_offset_def)
  with Cons show ?case by (auto simp: resume_offset_def)
qed simp

section \<open>Properties\<close>

text \<open>
  Topic names: users and groups have distinct topics, which are none of the four static ones,
  and distinct identifiers have distinct topics.
\<close>

lemma topic_names_distinct:
  "(UserTopic u = UserTopic v \<longleftrightarrow> slice_bytes u = slice_bytes v) \<and>
   (GroupTopic g = GroupTopic h \<longleftrightarrow> slice_bytes g = slice_bytes h) \<and> UserTopic u \<noteq> GroupTopic g \<and>
   {UserTopic u, GroupTopic g} \<inter> ts_Name ` set (StaticTopics r) = {} \<and> distinct (map ts_Name (StaticTopics r))"
  by (simp add: UserTopic_def GroupTopic_def StaticTopics_def topic_defs)

text \<open>
  \<open>EnsureTopics\<close>, when it succeeds, leaves exactly the topics that were there and those asked for,
  over any cluster administration that creates the topics it says it creates.
\<close>

lemma ensure_topics_complete:
  assumes "kafka_admin A topics" and "EnsureTopics A specs a = (a', None)"
  shows "topics a' = topics a \<union> ts_Name ` set specs"
  using assms by (rule kafka_admin.EnsureTopics_topics)

lemma ensure_topics_static:
  "EnsureTopics mem_admin (StaticTopics 3) {''events'', ''user-01''} =
     ({''user-01'', ''commands'', ''events'', ''media-events'', ''dead-letter''}, None)"
proof -
  let ?a = "{''events'', ''user-01''}"
  have none: "snd (EnsureTopics mem_admin (StaticTopics 3) ?a) = None"
    by (simp add: EnsureTopics_def mem_admin_def StaticTopics_def topic_defs)
  then obtain a' where a': "EnsureTopics mem_admin (StaticTopics 3) ?a = (a', None)"
    by (cases "EnsureTopics mem_admin (StaticTopics 3) ?a") auto
  from ensure_topics_complete [OF mema.kafka_admin_axioms a'] a' show ?thesis
    by (auto simp: StaticTopics_def topic_defs)
qed

text \<open>
  Trace headers: a header that was set reads back, the others are unchanged, and the consumer's
  carrier reads from the delivered headers what the producer's carrier has, nil entries aside.
\<close>

lemma trace_headers_roundtrip:
  "ProducerHeaderCarrier_Get (ProducerHeaderCarrier_Set hs k v) k' = (if k' = k then v else ProducerHeaderCarrier_Get hs k') \<and>
   ConsumerHeaderCarrier_Get (map Some hs) k' = ProducerHeaderCarrier_Get hs k' \<and>
   ConsumerHeaderCarrier_Get (None # map Some hs) k' = ProducerHeaderCarrier_Get hs k' \<and>
   set (ProducerHeaderCarrier_Keys (ProducerHeaderCarrier_Set hs k v)) = insert k (set (ProducerHeaderCarrier_Keys hs))"
proof -
  have "ConsumerHeaderCarrier_Get (map Some hs) k' = ProducerHeaderCarrier_Get hs k'"
    by (induction hs) auto
  moreover have "ProducerHeaderCarrier_Get (ProducerHeaderCarrier_Set hs k v) k' =
      (if k' = k then v else ProducerHeaderCarrier_Get hs k')"
    by (induction hs) auto
  moreover have "set (ProducerHeaderCarrier_Keys (ProducerHeaderCarrier_Set hs k v)) =
      insert k (set (ProducerHeaderCarrier_Keys hs))"
    by (induction hs) (auto simp: ProducerHeaderCarrier_Keys_def)
  ultimately show ?thesis by simp
qed



end
