(* ===== verification/Postgres.thy ===== *)
theory Postgres
  imports FProto_Prelude
begin

text \<open>
  The PostgreSQL side of the stores. The SQL statements are source code of the repository and are
  translated, store by store, to functions on the rows of their table; this theory holds what they
  share: the database as the rows of one table (absent until \<open>Migrate\<close>), the clock \<open>NOW()\<close> reads,
  and a schedule that says for each coming statement whether the connection fails it. A statement
  that fails, for the schedule or for a constraint, changes no row.
\<close>

record 't pg =
  pg_faults :: "goerr option list"
  pg_now :: time
  pg_tab :: "'t option"

text \<open>\<open>TIMESTAMPTZ\<close> has microseconds.\<close>

definition pg_time :: "time \<Rightarrow> time" where
  "pg_time t = t div 1000 * 1000"

definition no_relation :: goerr where
  "no_relation = ''ERROR: relation does not exist''"

definition null_violation :: "string \<Rightarrow> goerr" where
  "null_violation col = ''ERROR: null value in column '' @ col @ '' violates not-null constraint''"

definition unique_violation :: goerr where
  "unique_violation = ''ERROR: duplicate key value violates unique constraint''"

definition check_violation :: goerr where
  "check_violation = ''ERROR: new row violates check constraint''"

definition ErrNoRows :: goerr where
  "ErrNoRows = ''no rows in result set''"

definition pg_run :: "('t \<Rightarrow> goerr + 't \<times> 'a) \<Rightarrow> 't pg \<Rightarrow> 't pg \<times> (goerr + 'a)" where
  "pg_run stmt db =
     (let db' = db\<lparr>pg_faults := tl (pg_faults db)\<rparr> in
      case (if pg_faults db = [] then None else hd (pg_faults db)) of Some e \<Rightarrow> (db', Inl e)
      | None \<Rightarrow>
          (case pg_tab db of None \<Rightarrow> (db', Inl no_relation)
           | Some t \<Rightarrow>
               (case stmt t of Inl e \<Rightarrow> (db', Inl e)
                | Inr (t', x) \<Rightarrow> (db'\<lparr>pg_tab := Some t'\<rparr>, Inr x))))"

definition pg_query :: "('t \<Rightarrow> 'a) \<Rightarrow> 't pg \<Rightarrow> 't pg \<times> (goerr + 'a)" where
  "pg_query q db = pg_run (\<lambda>t. Inr (t, q t)) db"

text \<open>\<open>CREATE TABLE IF NOT EXISTS\<close>.\<close>

definition pg_migrate :: "'t \<Rightarrow> 't pg \<Rightarrow> 't pg \<times> goerr option" where
  "pg_migrate t0 db =
     (let db' = db\<lparr>pg_faults := tl (pg_faults db)\<rparr> in
      case (if pg_faults db = [] then None else hd (pg_faults db)) of Some e \<Rightarrow> (db', Some e)
      | None \<Rightarrow> (db'\<lparr>pg_tab := Some (case pg_tab db of None \<Rightarrow> t0 | Some t \<Rightarrow> t)\<rparr>, None))"

text \<open>\<open>_, err := pool.Exec(...)\<close>: the error of a statement.\<close>

definition exec_err :: "'d \<times> (goerr + 'a) \<Rightarrow> 'd \<times> goerr option" where
  "exec_err p = (fst p, case snd p of Inl e \<Rightarrow> Some e | Inr _ \<Rightarrow> None)"

text \<open>Comparison of a column with a parameter: a nil slice is \<open>NULL\<close>, which equals nothing.\<close>

definition sql_eq :: "bytes \<Rightarrow> slice \<Rightarrow> bool" where
  "sql_eq col arg \<longleftrightarrow> arg = Some col"

text \<open>\<open>UPDATE t SET f WHERE p\<close>, with the number of rows it touches.\<close>

definition sql_update :: "('row \<Rightarrow> bool) \<Rightarrow> ('row \<Rightarrow> 'row) \<Rightarrow> 'row list \<Rightarrow> 'row list \<times> nat" where
  "sql_update p f rows = (map (\<lambda>x. if p x then f x else x) rows, length (filter p rows))"

definition sql_delete :: "('row \<Rightarrow> bool) \<Rightarrow> 'row list \<Rightarrow> 'row list \<times> nat" where
  "sql_delete p rows = (filter (\<lambda>x. \<not> p x) rows, length (filter p rows))"

lemma exec_err_None [simp]: "exec_err p = (db', None) \<longleftrightarrow> (\<exists>x. p = (db', Inr x))"
  by (cases p) (auto simp: exec_err_def split: sum.splits)

lemma exec_err_Some [simp]: "exec_err p = (db', Some e) \<longleftrightarrow> p = (db', Inl e)"
  by (cases p) (auto simp: exec_err_def split: sum.splits)

lemma exec_err_simps [simp]: "exec_err (db, Inl e) = (db, Some e)" "exec_err (db, Inr x) = (db, None)"
  by (simp_all add: exec_err_def)

lemma pg_run_Inr:
  "pg_run stmt db = (db', Inr x) \<longleftrightarrow>
     (pg_faults db = [] \<or> hd (pg_faults db) = None) \<and>
     (\<exists>t t'. pg_tab db = Some t \<and> stmt t = Inr (t', x) \<and>
       db' = db\<lparr>pg_faults := tl (pg_faults db), pg_tab := Some t'\<rparr>)"
  by (auto simp: pg_run_def Let_def split: option.splits sum.splits prod.splits if_splits)

lemma pg_run_Inl_tab: "pg_run stmt db = (db', Inl e) \<Longrightarrow> pg_tab db' = pg_tab db \<and> pg_now db' = pg_now db"
  by (auto simp: pg_run_def Let_def split: option.splits sum.splits prod.splits if_splits)

lemma pg_run_now [simp]: "pg_now (fst (pg_run stmt db)) = pg_now db"
  by (auto simp: pg_run_def Let_def split: option.splits sum.splits prod.splits)

lemma pg_query_Inr:
  "pg_query q db = (db', Inr x) \<longleftrightarrow>
     (pg_faults db = [] \<or> hd (pg_faults db) = None) \<and>
     (\<exists>t. pg_tab db = Some t \<and> x = q t \<and> db' = db\<lparr>pg_faults := tl (pg_faults db)\<rparr>)"
  by (auto simp: pg_query_def pg_run_Inr)

lemma pg_query_tab: "pg_query q db = (db', y) \<Longrightarrow> pg_tab db' = pg_tab db \<and> pg_now db' = pg_now db"
  by (cases y) (auto simp: pg_query_Inr, auto simp: pg_query_def dest: pg_run_Inl_tab)

text \<open>A database whose next statement the connection does not fail.\<close>

definition pg_ready :: "'t pg \<Rightarrow> bool" where
  "pg_ready db \<longleftrightarrow> (pg_faults db = [] \<or> hd (pg_faults db) = None) \<and> pg_tab db \<noteq> None"

lemma pg_run_ready:
  "pg_ready db \<Longrightarrow> pg_run stmt db =
     (let db' = db\<lparr>pg_faults := tl (pg_faults db)\<rparr> in
      case stmt (the (pg_tab db)) of Inl e \<Rightarrow> (db', Inl e)
      | Inr (t', x) \<Rightarrow> (db'\<lparr>pg_tab := Some t'\<rparr>, Inr x))"
  by (auto simp: pg_ready_def pg_run_def)

end
