(* ===== verification/Outbox.thy ===== *)
theory Outbox
  imports Kafka Postgres
begin

text \<open>
  \<open>server/internal/outbox\<close>: the outbox table, its store and the relay that publishes pending entries
  to Kafka. The relay's guarantee is at-least-once delivery: an entry leaves the pending state only
  after its message, or its dead letter, has reached the broker.
\<close>

section \<open>model.go\<close>

type_synonym ob_Status = string

definition StatusPending :: ob_Status where "StatusPending = ''pending''"
definition StatusPublished :: ob_Status where "StatusPublished = ''published''"
definition StatusFailed :: ob_Status where "StatusFailed = ''failed''"

lemmas ob_status_defs = StatusPending_def StatusPublished_def StatusFailed_def

record Entry =
  en_ID :: int
  en_MessageID :: slice
  en_Topic :: string
  en_PartitionKey :: slice
  en_Payload :: slice
  en_Status :: ob_Status
  en_RetryCount :: int
  en_CreatedAt :: time
  en_PublishedAt :: "time option"

section \<open>store.go\<close>

text \<open>
  A row of the table; \<open>ob_next\<close> is the next value of the identifier sequence (a failed insertion
  leaves it, where PostgreSQL would leave a gap).
\<close>

record ob_row =
  or_id :: int
  or_message_id :: bytes
  or_topic :: string
  or_partition_key :: bytes
  or_payload :: bytes
  or_status :: string
  or_retry_count :: int
  or_created_at :: time
  or_published_at :: "time option"

record ob_table =
  ob_next :: int
  ob_rows :: "ob_row list"

type_synonym ob_db = "ob_table pg"

definition ob_empty :: ob_table where
  "ob_empty = \<lparr>ob_next = 1, ob_rows = []\<rparr>"

definition Outbox_Migrate :: "ob_db \<Rightarrow> ob_db \<times> goerr option" where
  "Outbox_Migrate db = pg_migrate ob_empty db"

definition sql_insert_outbox ::
  "time \<Rightarrow> slice \<Rightarrow> string \<Rightarrow> slice \<Rightarrow> slice \<Rightarrow> string \<Rightarrow> ob_table \<Rightarrow> goerr + ob_table \<times> nat" where
  "sql_insert_outbox now mid topic key payload status t =
     (case mid of None \<Rightarrow> Inl (null_violation ''message_id'') | Some mid' \<Rightarrow>
     (case key of None \<Rightarrow> Inl (null_violation ''partition_key'') | Some key' \<Rightarrow>
     (case payload of None \<Rightarrow> Inl (null_violation ''payload'') | Some payload' \<Rightarrow>
      if status \<notin> {''pending'', ''published'', ''failed''} then Inl check_violation
      else if \<exists>r \<in> set (ob_rows t). or_message_id r = mid' then Inl unique_violation
      else Inr (\<lparr>ob_next = ob_next t + 1,
        ob_rows = ob_rows t @ [\<lparr>or_id = ob_next t, or_message_id = mid', or_topic = topic, or_partition_key = key',
          or_payload = payload', or_status = status, or_retry_count = 0, or_created_at = pg_time now,
          or_published_at = None\<rparr>]\<rparr>, 1))))"

definition Outbox_Insert :: "ob_db \<Rightarrow> Entry \<Rightarrow> ob_db \<times> goerr option" where
  "Outbox_Insert db e = exec_err (pg_run (sql_insert_outbox (pg_now db) (en_MessageID e) (en_Topic e)
     (en_PartitionKey e) (en_Payload e) StatusPending) db)"

definition row_entry :: "ob_row \<Rightarrow> Entry" where
  "row_entry r = \<lparr>en_ID = or_id r, en_MessageID = Some (or_message_id r), en_Topic = or_topic r,
     en_PartitionKey = Some (or_partition_key r), en_Payload = Some (or_payload r), en_Status = or_status r,
     en_RetryCount = or_retry_count r, en_CreatedAt = or_created_at r, en_PublishedAt = or_published_at r\<rparr>"

text \<open>Rows with equal \<open>created_at\<close> come in the order of the table.\<close>

definition Outbox_FetchPending :: "ob_db \<Rightarrow> int \<Rightarrow> ob_db \<times> (goerr + Entry list)" where
  "Outbox_FetchPending db limit = pg_run (\<lambda>t.
     if limit < 0 then Inl ''ERROR: LIMIT must not be negative''
     else Inr (t, map row_entry (take (nat limit)
       (sort_key or_created_at (filter (\<lambda>r. or_status r = ''pending'') (ob_rows t)))))) db"

definition ob_update :: "int \<Rightarrow> (ob_row \<Rightarrow> ob_row) \<Rightarrow> ob_table \<Rightarrow> ob_table \<times> nat" where
  "ob_update i f t = (let (rows, n) = sql_update (\<lambda>r. or_id r = i) f (ob_rows t) in (t\<lparr>ob_rows := rows\<rparr>, n))"

text \<open>\<open>now\<close> is what \<open>time.Now()\<close> returns.\<close>

definition Outbox_MarkPublished :: "time \<Rightarrow> ob_db \<Rightarrow> int \<Rightarrow> ob_db \<times> goerr option" where
  "Outbox_MarkPublished now db i = exec_err (pg_run (\<lambda>t. Inr (ob_update i
     (\<lambda>r. r\<lparr>or_status := ''published'', or_published_at := Some (pg_time now)\<rparr>) t)) db)"

definition Outbox_MarkFailed :: "ob_db \<Rightarrow> int \<Rightarrow> ob_db \<times> goerr option" where
  "Outbox_MarkFailed db i = exec_err (pg_run (\<lambda>t. Inr (ob_update i (\<lambda>r. r\<lparr>or_status := ''failed''\<rparr>) t)) db)"

text \<open>\<open>INT\<close> has 32 bits.\<close>

definition Outbox_IncrementRetry :: "ob_db \<Rightarrow> int \<Rightarrow> ob_db \<times> goerr option" where
  "Outbox_IncrementRetry db i = exec_err (pg_run (\<lambda>t.
     if \<exists>r \<in> set (ob_rows t). or_id r = i \<and> 2147483647 \<le> or_retry_count r then Inl ''ERROR: integer out of range''
     else Inr (ob_update i (\<lambda>r. r\<lparr>or_retry_count := or_retry_count r + 1\<rparr>) t)) db)"

definition Outbox_GetByMessageID :: "ob_db \<Rightarrow> slice \<Rightarrow> ob_db \<times> (goerr + Entry)" where
  "Outbox_GetByMessageID db mid =
     (case pg_query (\<lambda>t. List.find (\<lambda>r. sql_eq (or_message_id r) mid) (ob_rows t)) db of
        (db', Inl e) \<Rightarrow> (db', Inl (''outbox entry not found: '' @ e))
      | (db', Inr None) \<Rightarrow> (db', Inl (''outbox entry not found: '' @ ErrNoRows))
      | (db', Inr (Some r)) \<Rightarrow> (db', Inr (row_entry r)))"

section \<open>relay.go\<close>

definition DefaultBatchSize :: int where "DefaultBatchSize = 100"
definition MaxRetries :: int where "MaxRetries = 5"

text \<open>The relay's store and producer.\<close>

record 'k Relay =
  rl_store :: ob_db
  rl_producer :: 'k
  rl_batch :: int

definition NewRelay :: "ob_db \<Rightarrow> 'k \<Rightarrow> 'k Relay" where
  "NewRelay db k = \<lparr>rl_store = db, rl_producer = k, rl_batch = DefaultBatchSize\<rparr>"

definition Relay_publish :: "'k kafka_ops \<Rightarrow> time \<Rightarrow> 'k Relay \<Rightarrow> Entry \<Rightarrow> 'k Relay \<times> goerr option" where
  "Relay_publish K now r e =
     (case Producer_Send K (rl_producer r) (en_Topic e) (en_PartitionKey e) (en_Payload e) of
        (k', Inl err) \<Rightarrow> (r\<lparr>rl_producer := k'\<rparr>, Some err)
      | (k', Inr _) \<Rightarrow>
          (let (db', err) = Outbox_MarkPublished now (rl_store r) (en_ID e)
           in (r\<lparr>rl_producer := k', rl_store := db'\<rparr>, err)))"

definition Relay_sendToDeadLetter :: "'k kafka_ops \<Rightarrow> 'k Relay \<Rightarrow> Entry \<Rightarrow> 'k Relay" where
  "Relay_sendToDeadLetter K r e =
     (case Producer_Send K (rl_producer r) TopicDeadLetter (Some (string_to_bytes (en_Topic e))) (en_Payload e) of
        (k', Inl _) \<Rightarrow> r\<lparr>rl_producer := k'\<rparr>
      | (k', Inr _) \<Rightarrow> r\<lparr>rl_producer := k', rl_store := fst (Outbox_MarkFailed (rl_store r) (en_ID e))\<rparr>)"

definition relay_entry :: "'k kafka_ops \<Rightarrow> time \<Rightarrow> Entry \<Rightarrow> 'k Relay \<Rightarrow> 'k Relay" where
  "relay_entry K now e r =
     (case Relay_publish K now r e of
        (r1, None) \<Rightarrow> r1
      | (r1, Some _) \<Rightarrow>
          (let r2 = r1\<lparr>rl_store := fst (Outbox_IncrementRetry (rl_store r1) (en_ID e))\<rparr>
           in if MaxRetries \<le> en_RetryCount e + 1 then Relay_sendToDeadLetter K r2 e else r2))"

definition Relay_poll :: "'k kafka_ops \<Rightarrow> time \<Rightarrow> 'k Relay \<Rightarrow> 'k Relay" where
  "Relay_poll K now r =
     (case Outbox_FetchPending (rl_store r) (rl_batch r) of
        (db', Inl _) \<Rightarrow> r\<lparr>rl_store := db'\<rparr>
      | (db', Inr entries) \<Rightarrow> fold (relay_entry K now) entries (r\<lparr>rl_store := db'\<rparr>))"

definition Relay_PublishOne :: "'k kafka_ops \<Rightarrow> time \<Rightarrow> 'k Relay \<Rightarrow> Entry \<Rightarrow> 'k Relay \<times> goerr option" where
  "Relay_PublishOne K now r e = Relay_publish K now r e"

text \<open>\<open>Run\<close>: one poll per tick of the ticker until the context is done.\<close>

fun Relay_Run :: "'k kafka_ops \<Rightarrow> time list \<Rightarrow> 'k Relay \<Rightarrow> 'k Relay" where
  "Relay_Run K [] r = r"
| "Relay_Run K (now # ticks) r = Relay_Run K ticks (Relay_poll K now r)"

section \<open>What never changes, and the invariant\<close>

text \<open>The immutable part of a row, and the two messages the relay may send for it.\<close>

definition ob_core :: "ob_row \<Rightarrow> int \<times> bytes \<times> string \<times> bytes \<times> bytes" where
  "ob_core r = (or_id r, or_message_id r, or_topic r, or_partition_key r, or_payload r)"

definition ob_msg :: "ob_row \<Rightarrow> ProducerMessage" where
  "ob_msg r = \<lparr>pm_Topic = or_topic r, pm_Key = Some (or_partition_key r), pm_Value = Some (or_payload r),
     pm_Headers = []\<rparr>"

definition ob_dead_letter :: "ob_row \<Rightarrow> ProducerMessage" where
  "ob_dead_letter r = \<lparr>pm_Topic = TopicDeadLetter, pm_Key = Some (string_to_bytes (or_topic r)),
     pm_Value = Some (or_payload r), pm_Headers = []\<rparr>"

text \<open>A row's status is covered by the log: a published message was sent, a failed one is a dead letter.\<close>

definition row_covered :: "ProducerMessage list \<Rightarrow> ob_row \<Rightarrow> bool" where
  "row_covered log r \<longleftrightarrow> or_status r \<in> {''pending'', ''published'', ''failed''} \<and>
     (or_status r = ''published'' \<longrightarrow> ob_msg r \<in> set log) \<and>
     (or_status r = ''failed'' \<longrightarrow> ob_dead_letter r \<in> set log)"

definition ob_inv :: "ProducerMessage list \<Rightarrow> ob_table \<Rightarrow> bool" where
  "ob_inv log t \<longleftrightarrow> distinct (map or_id (ob_rows t)) \<and> distinct (map or_message_id (ob_rows t)) \<and>
     (\<forall>r \<in> set (ob_rows t). or_id r < ob_next t \<and> row_covered log r)"

text \<open>The rows of a database, none before the table exists.\<close>

definition rows_of :: "ob_db \<Rightarrow> ob_row list" where
  "rows_of db = (case pg_tab db of None \<Rightarrow> [] | Some t \<Rightarrow> ob_rows t)"

definition db_inv :: "ProducerMessage list \<Rightarrow> ob_db \<Rightarrow> bool" where
  "db_inv log db \<longleftrightarrow> (case pg_tab db of None \<Rightarrow> True | Some t \<Rightarrow> ob_inv log t)"

lemma ob_core_messages: "ob_core r = ob_core r' \<Longrightarrow> ob_msg r = ob_msg r' \<and> ob_dead_letter r = ob_dead_letter r'"
  by (auto simp: ob_core_def ob_msg_def ob_dead_letter_def)

lemma row_covered_mono: "row_covered log r \<Longrightarrow> set log \<subseteq> set log' \<Longrightarrow> row_covered log' r"
  by (auto simp: row_covered_def)

lemma db_inv_mono: "db_inv log db \<Longrightarrow> set log \<subseteq> set log' \<Longrightarrow> db_inv log' db"
  by (auto simp: db_inv_def ob_inv_def intro: row_covered_mono split: option.splits)

text \<open>
  An update statement on one identifier that keeps the immutable part: the database either keeps
  its rows or has them updated.
\<close>

definition ob_changes :: "int \<Rightarrow> (ob_row \<Rightarrow> ob_row) \<Rightarrow> ob_db \<Rightarrow> ob_db \<Rightarrow> bool" where
  "ob_changes i f db db' \<longleftrightarrow>
     pg_tab db' = pg_tab db \<or>
     (\<exists>t. pg_tab db = Some t \<and> pg_tab db' = Some (fst (ob_update i f t)))"

lemma ob_changes_run:
  assumes "exec_err (pg_run (\<lambda>t. if bad t then Inl e else Inr (ob_update i f t)) db) = (db', err)"
  shows "ob_changes i f db db' \<and> (err = None \<longrightarrow> (\<exists>t. pg_tab db = Some t \<and> pg_tab db' = Some (fst (ob_update i f t))))"
proof (cases err)
  case None
  with assms show ?thesis
    by (auto simp: pg_run_Inr ob_changes_def split: if_splits)
next
  case (Some e')
  with assms pg_run_Inl_tab show ?thesis by (fastforce simp: ob_changes_def)
qed

lemma rows_ob_update:
  "ob_rows (fst (ob_update i f t)) = map (\<lambda>r. if or_id r = i then f r else r) (ob_rows t)"
  "ob_next (fst (ob_update i f t)) = ob_next t"
  by (simp_all add: ob_update_def sql_update_def)

lemma ob_update_inv:
  assumes "ob_inv log t" "\<And>r. ob_core (f r) = ob_core r"
    and "\<And>r. r \<in> set (ob_rows t) \<Longrightarrow> or_id r = i \<Longrightarrow> row_covered log r \<Longrightarrow> row_covered log (f r)"
  shows "ob_inv log (fst (ob_update i f t))"
proof -
  have same: "or_id (f r) = or_id r" "or_message_id (f r) = or_message_id r" for r
    using assms(2) [of r] by (auto simp: ob_core_def)
  then have keys: "map or_id (ob_rows (fst (ob_update i f t))) = map or_id (ob_rows t)"
    "map or_message_id (ob_rows (fst (ob_update i f t))) = map or_message_id (ob_rows t)"
    by (auto simp: rows_ob_update)
  have "\<forall>r \<in> set (ob_rows (fst (ob_update i f t))). or_id r < ob_next t \<and> row_covered log r"
    using assms same by (auto simp: ob_inv_def rows_ob_update)
  with assms(1) show ?thesis unfolding ob_inv_def keys rows_ob_update(2) by blast
qed

lemma ob_changes_inv:
  assumes "ob_changes i f db db'" "db_inv log db" "\<And>r. ob_core (f r) = ob_core r"
    and "\<And>r. r \<in> set (rows_of db) \<Longrightarrow> or_id r = i \<Longrightarrow> row_covered log r \<Longrightarrow> row_covered log (f r)"
  shows "db_inv log db'"
  using assms ob_update_inv [of log _ f i]
  by (auto simp: ob_changes_def db_inv_def rows_of_def split: option.splits)

lemma ob_changes_core:
  assumes "ob_changes i f db db'" "\<And>r. ob_core (f r) = ob_core r"
  shows "map ob_core (rows_of db') = map ob_core (rows_of db)"
  using assms by (auto simp: ob_changes_def rows_of_def rows_ob_update)

lemma ob_changes_others:
  assumes "ob_changes i f db db'" "r \<in> set (rows_of db)" "or_id r \<noteq> i"
  shows "r \<in> set (rows_of db')"
  using assms by (force simp: ob_changes_def rows_of_def rows_ob_update)

section \<open>The relay keeps the invariant\<close>

text \<open>The rows with an entry's identifier are the ones the entry was read from.\<close>

definition known :: "ob_db \<Rightarrow> Entry \<Rightarrow> bool" where
  "known db e \<longleftrightarrow> (\<forall>r \<in> set (rows_of db). or_id r = en_ID e \<longrightarrow>
     en_Topic e = or_topic r \<and> en_PartitionKey e = Some (or_partition_key r) \<and> en_Payload e = Some (or_payload r))"

lemma known_core:
  assumes "map ob_core (rows_of db') = map ob_core (rows_of db)" "known db e"
  shows "known db' e"
proof -
  have "\<exists>r' \<in> set (rows_of db). ob_core r = ob_core r'" if "r \<in> set (rows_of db')" for r
    using assms(1) that by (metis in_set_conv_nth length_map nth_map nth_mem)
  with assms(2) show ?thesis by (fastforce simp: known_def ob_core_def)
qed

text \<open>
  Progress of a relay that touches only the rows with identifiers in \<open>I\<close>: the invariant, the log and
  the immutable parts are kept, and so are the other rows.
\<close>

definition relay_adv :: "('k \<Rightarrow> ProducerMessage list) \<Rightarrow> int set \<Rightarrow> 'k Relay \<Rightarrow> 'k Relay \<Rightarrow> bool" where
  "relay_adv sent I r r' \<longleftrightarrow>
     (db_inv (sent (rl_producer r)) (rl_store r) \<longrightarrow> db_inv (sent (rl_producer r')) (rl_store r')) \<and>
     set (sent (rl_producer r)) \<subseteq> set (sent (rl_producer r')) \<and>
     map ob_core (rows_of (rl_store r')) = map ob_core (rows_of (rl_store r)) \<and>
     (\<forall>x \<in> set (rows_of (rl_store r)). or_id x \<notin> I \<longrightarrow> x \<in> set (rows_of (rl_store r'))) \<and>
     rl_batch r' = rl_batch r"

lemma relay_adv_refl: "relay_adv sent I r r"
  by (simp add: relay_adv_def)

lemma relay_adv_trans: "relay_adv sent I r r' \<Longrightarrow> relay_adv sent I r' r'' \<Longrightarrow> relay_adv sent I r r''"
  unfolding relay_adv_def by (metis order_trans)

lemma relay_adv_mono: "relay_adv sent I r r' \<Longrightarrow> I \<subseteq> J \<Longrightarrow> relay_adv sent J r r'"
  unfolding relay_adv_def by blast

lemma relay_adv_known: "relay_adv sent I r r' \<Longrightarrow> known (rl_store r) e \<Longrightarrow> known (rl_store r') e"
  by (auto simp: relay_adv_def intro: known_core)

lemma relay_adv_producer:
  "set (sent (rl_producer r)) \<subseteq> set (sent k') \<Longrightarrow> relay_adv sent I r (r\<lparr>rl_producer := k'\<rparr>)"
  by (auto simp: relay_adv_def intro: db_inv_mono)

lemma relay_adv_store:
  assumes "ob_changes i f (rl_store r) db'" "\<And>x. ob_core (f x) = ob_core x"
    and "\<And>x. x \<in> set (rows_of (rl_store r)) \<Longrightarrow> or_id x = i \<Longrightarrow> row_covered (sent (rl_producer r)) x \<Longrightarrow>
      row_covered (sent (rl_producer r)) (f x)"
  shows "relay_adv sent {i} r (r\<lparr>rl_store := db'\<rparr>)"
  using assms(3) ob_changes_inv [OF assms(1) _ assms(2)] ob_changes_core [OF assms(1,2)]
    ob_changes_others [OF assms(1)]
  by (auto simp: relay_adv_def)

lemma mark_published_changes:
  assumes "Outbox_MarkPublished now db i = (db', err)"
  shows "ob_changes i (\<lambda>r. r\<lparr>or_status := ''published'', or_published_at := Some (pg_time now)\<rparr>) db db'"
  using ob_changes_run [of "\<lambda>t. False" "[]"] assms by (simp add: Outbox_MarkPublished_def)

lemma mark_failed_changes:
  "ob_changes i (\<lambda>r. r\<lparr>or_status := ''failed''\<rparr>) db (fst (Outbox_MarkFailed db i))"
  using ob_changes_run [of "\<lambda>t. False" "[]" i "\<lambda>r. r\<lparr>or_status := ''failed''\<rparr>" db "fst (Outbox_MarkFailed db i)"
      "snd (Outbox_MarkFailed db i)"] by (simp add: Outbox_MarkFailed_def)

lemma increment_retry_changes:
  "ob_changes i (\<lambda>r. r\<lparr>or_retry_count := or_retry_count r + 1\<rparr>) db (fst (Outbox_IncrementRetry db i))"
  using ob_changes_run [where db = db and i = i and db' = "fst (Outbox_IncrementRetry db i)"
      and err = "snd (Outbox_IncrementRetry db i)"] by (simp add: Outbox_IncrementRetry_def)

lemma ob_core_updates [simp]:
  "ob_core (r\<lparr>or_status := s, or_published_at := p\<rparr>) = ob_core r"
  "ob_core (r\<lparr>or_status := s\<rparr>) = ob_core r" "ob_core (r\<lparr>or_retry_count := n\<rparr>) = ob_core r"
  by (simp_all add: ob_core_def)

lemma ob_msg_updates [simp]:
  "ob_msg (r\<lparr>or_status := s, or_published_at := p\<rparr>) = ob_msg r"
  "ob_dead_letter (r\<lparr>or_status := s\<rparr>) = ob_dead_letter r"
  "ob_msg (r\<lparr>or_retry_count := n\<rparr>) = ob_msg r" "ob_dead_letter (r\<lparr>or_retry_count := n\<rparr>) = ob_dead_letter r"
  by (simp_all add: ob_msg_def ob_dead_letter_def)

lemma known_messages:
  assumes "known db e" "x \<in> set (rows_of db)" "or_id x = en_ID e"
  shows "\<lparr>pm_Topic = en_Topic e, pm_Key = en_PartitionKey e, pm_Value = en_Payload e, pm_Headers = []\<rparr> = ob_msg x"
    and "\<lparr>pm_Topic = TopicDeadLetter, pm_Key = Some (string_to_bytes (en_Topic e)), pm_Value = en_Payload e,
      pm_Headers = []\<rparr> = ob_dead_letter x"
  using assms by (auto simp: known_def ob_msg_def ob_dead_letter_def)

context kafka_broker
begin

lemma publish_adv:
  assumes "known (rl_store r) e" "Relay_publish K now r e = (r', err)"
  shows "relay_adv sent {en_ID e} r r'"
proof (cases "Producer_Send K (rl_producer r) (en_Topic e) (en_PartitionKey e) (en_Payload e)")
  case (Pair k' res)
  let ?msg = "\<lparr>pm_Topic = en_Topic e, pm_Key = en_PartitionKey e, pm_Value = en_Payload e, pm_Headers = []\<rparr>"
  have send: "ko_SendMessage K (rl_producer r) ?msg = (k', res)"
    using Pair by (simp add: Producer_Send_def Producer_SendWithContext_def)
  have first: "relay_adv sent {en_ID e} r (r\<lparr>rl_producer := k'\<rparr>)"
    by (rule relay_adv_producer) (rule send_keeps [OF send])
  show ?thesis
  proof (cases res)
    case (Inl x)
    with Pair assms(2) first show ?thesis by (simp add: Relay_publish_def)
  next
    case (Inr po)
    obtain db' err' where m: "Outbox_MarkPublished now (rl_store r) (en_ID e) = (db', err')"
      by (cases "Outbox_MarkPublished now (rl_store r) (en_ID e)")
    have log: "?msg \<in> set (sent k')" using send_ok send Inr by simp
    have "relay_adv sent {en_ID e} (r\<lparr>rl_producer := k'\<rparr>) (r\<lparr>rl_producer := k', rl_store := db'\<rparr>)"
    proof (rule relay_adv_store)
      show "ob_changes (en_ID e) (\<lambda>r. r\<lparr>or_status := ''published'', or_published_at := Some (pg_time now)\<rparr>)
          (rl_store (r\<lparr>rl_producer := k'\<rparr>)) db'"
        using mark_published_changes [OF m] by simp
    next
      fix x assume "x \<in> set (rows_of (rl_store (r\<lparr>rl_producer := k'\<rparr>)))" "or_id x = en_ID e"
      then have "ob_msg x \<in> set (sent k')" using known_messages(1) [OF assms(1), of x] log by simp
      then show "row_covered (sent (rl_producer (r\<lparr>rl_producer := k'\<rparr>)))
          (x\<lparr>or_status := ''published'', or_published_at := Some (pg_time now)\<rparr>)"
        by (simp add: row_covered_def)
    qed simp
    with first have "relay_adv sent {en_ID e} r (r\<lparr>rl_producer := k', rl_store := db'\<rparr>)"
      by (rule relay_adv_trans)
    with Pair Inr m assms(2) show ?thesis by (simp add: Relay_publish_def)
  qed
qed

lemma dead_letter_adv:
  assumes "known (rl_store r) e"
  shows "relay_adv sent {en_ID e} r (Relay_sendToDeadLetter K r e)"
proof (cases "Producer_Send K (rl_producer r) TopicDeadLetter (Some (string_to_bytes (en_Topic e))) (en_Payload e)")
  case (Pair k' res)
  let ?msg = "\<lparr>pm_Topic = TopicDeadLetter, pm_Key = Some (string_to_bytes (en_Topic e)), pm_Value = en_Payload e,
      pm_Headers = []\<rparr>"
  have send: "ko_SendMessage K (rl_producer r) ?msg = (k', res)"
    using Pair by (simp add: Producer_Send_def Producer_SendWithContext_def)
  have first: "relay_adv sent {en_ID e} r (r\<lparr>rl_producer := k'\<rparr>)"
    by (rule relay_adv_producer) (rule send_keeps [OF send])
  show ?thesis
  proof (cases res)
    case (Inl x)
    with Pair first show ?thesis by (simp add: Relay_sendToDeadLetter_def)
  next
    case (Inr po)
    have log: "?msg \<in> set (sent k')" using send_ok send Inr by simp
    have "relay_adv sent {en_ID e} (r\<lparr>rl_producer := k'\<rparr>)
        (r\<lparr>rl_producer := k', rl_store := fst (Outbox_MarkFailed (rl_store r) (en_ID e))\<rparr>)"
    proof (rule relay_adv_store)
      show "ob_changes (en_ID e) (\<lambda>r. r\<lparr>or_status := ''failed''\<rparr>) (rl_store (r\<lparr>rl_producer := k'\<rparr>))
          (fst (Outbox_MarkFailed (rl_store r) (en_ID e)))"
        using mark_failed_changes by simp
    next
      fix x assume "x \<in> set (rows_of (rl_store (r\<lparr>rl_producer := k'\<rparr>)))" "or_id x = en_ID e"
      then have "ob_dead_letter x \<in> set (sent k')" using known_messages(2) [OF assms, of x] log by simp
      then show "row_covered (sent (rl_producer (r\<lparr>rl_producer := k'\<rparr>))) (x\<lparr>or_status := ''failed''\<rparr>)"
        by (simp add: row_covered_def)
    qed simp
    with first Pair Inr show ?thesis
      by (auto simp: Relay_sendToDeadLetter_def intro: relay_adv_trans)
  qed
qed

lemma entry_adv:
  assumes "known (rl_store r) e"
  shows "relay_adv sent {en_ID e} r (relay_entry K now e r)"
proof (cases "Relay_publish K now r e")
  case (Pair r1 err)
  note pub = publish_adv [OF assms Pair]
  let ?r2 = "r1\<lparr>rl_store := fst (Outbox_IncrementRetry (rl_store r1) (en_ID e))\<rparr>"
  have "relay_adv sent {en_ID e} r1 ?r2"
    by (rule relay_adv_store [OF increment_retry_changes]) (auto simp: row_covered_def)
  with pub have r2: "relay_adv sent {en_ID e} r ?r2" by (rule relay_adv_trans)
  have "relay_adv sent {en_ID e} r (Relay_sendToDeadLetter K ?r2 e)"
    by (rule relay_adv_trans [OF r2 dead_letter_adv [OF relay_adv_known [OF r2 assms]]])
  with pub r2 Pair show ?thesis by (auto simp: relay_entry_def Let_def split: option.splits)
qed

lemma entries_adv:
  "(\<forall>e \<in> set es. known (rl_store r) e) \<Longrightarrow> relay_adv sent (en_ID ` set es) r (fold (relay_entry K now) es r)"
proof (induction es arbitrary: r)
  case (Cons e es)
  then have step: "relay_adv sent {en_ID e} r (relay_entry K now e r)" by (simp add: entry_adv)
  moreover have "\<forall>x \<in> set es. known (rl_store (relay_entry K now e r)) x"
    using Cons.prems relay_adv_known [OF step] by simp
  ultimately show ?case
    using Cons.IH [of "relay_entry K now e r"]
    by (auto intro: relay_adv_trans [of sent _ r "relay_entry K now e r"] relay_adv_mono)
qed (simp add: relay_adv_refl)

end

lemma distinct_map_inj: "distinct (map f xs) \<Longrightarrow> x \<in> set xs \<Longrightarrow> y \<in> set xs \<Longrightarrow> f x = f y \<Longrightarrow> x = y"
  by (auto simp: distinct_map dest: inj_onD)

lemma fetch_pending:
  assumes "Outbox_FetchPending db lim = (db', Inr es)"
  shows "pg_tab db' = pg_tab db"
    and "\<forall>e \<in> set es. \<exists>r \<in> set (rows_of db). e = row_entry r \<and> or_status r = ''pending''"
proof -
  obtain t where t: "pg_tab db = Some t" "0 \<le> lim" "pg_tab db' = Some t"
    and es: "es = map row_entry (take (nat lim) (sort_key or_created_at (filter (\<lambda>r. or_status r = ''pending'') (ob_rows t))))"
    using assms by (auto simp: Outbox_FetchPending_def pg_run_Inr split: if_splits)
  show "pg_tab db' = pg_tab db" using t by simp
  show "\<forall>e \<in> set es. \<exists>r \<in> set (rows_of db). e = row_entry r \<and> or_status r = ''pending''"
    using t(1) es by (fastforce simp: rows_of_def dest: in_set_takeD)
qed

datatype relay_op = RInsert Entry | RPoll time

fun relay_step :: "'k kafka_ops \<Rightarrow> relay_op \<Rightarrow> 'k Relay \<Rightarrow> 'k Relay" where
  "relay_step K (RInsert e) r = r\<lparr>rl_store := fst (Outbox_Insert (rl_store r) e)\<rparr>"
| "relay_step K (RPoll now) r = Relay_poll K now r"

text \<open>What a step keeps: the invariant, the log, the rows in order and every settled row as it is.\<close>

definition relay_keeps :: "('k \<Rightarrow> ProducerMessage list) \<Rightarrow> 'k Relay \<Rightarrow> 'k Relay \<Rightarrow> bool" where
  "relay_keeps sent r r' \<longleftrightarrow>
     db_inv (sent (rl_producer r')) (rl_store r') \<and> set (sent (rl_producer r)) \<subseteq> set (sent (rl_producer r')) \<and>
     (\<exists>new. map ob_core (rows_of (rl_store r')) = map ob_core (rows_of (rl_store r)) @ new) \<and>
     (\<forall>x \<in> set (rows_of (rl_store r)). or_status x \<noteq> ''pending'' \<longrightarrow> x \<in> set (rows_of (rl_store r')))"

lemma relay_keeps_trans: "relay_keeps sent r r' \<Longrightarrow> relay_keeps sent r' r'' \<Longrightarrow> relay_keeps sent r r''"
  by (force simp: relay_keeps_def)

lemma insert_outbox_inv:
  assumes "ob_inv log t" "sql_insert_outbox now mid topic key payload StatusPending t = Inr (t', n)"
  shows "ob_inv log t' \<and> (\<exists>x. ob_rows t' = ob_rows t @ [x])"
  using assms by (force simp: sql_insert_outbox_def ob_inv_def row_covered_def StatusPending_def
      split: option.splits if_splits intro: order_less_imp_le)

lemma insert_keeps:
  assumes "db_inv (sent (rl_producer r)) (rl_store r)"
  shows "relay_keeps sent r (r\<lparr>rl_store := fst (Outbox_Insert (rl_store r) e)\<rparr>)"
proof (cases "Outbox_Insert (rl_store r) e")
  case (Pair db' err)
  show ?thesis
  proof (cases err)
    case None
    with Pair obtain t t' n where t: "pg_tab (rl_store r) = Some t" "pg_tab db' = Some t'"
        "sql_insert_outbox (pg_now (rl_store r)) (en_MessageID e) (en_Topic e) (en_PartitionKey e) (en_Payload e)
           StatusPending t = Inr (t', n)"
      by (auto simp: Outbox_Insert_def pg_run_Inr)
    then have "ob_inv (sent (rl_producer r)) t" using assms by (simp add: db_inv_def)
    from insert_outbox_inv [OF this t(3)] t(1,2) Pair show ?thesis
      by (auto simp: relay_keeps_def db_inv_def rows_of_def)
  next
    case (Some x)
    with Pair have "pg_tab db' = pg_tab (rl_store r)"
      using pg_run_Inl_tab by (fastforce simp: Outbox_Insert_def)
    with assms Pair show ?thesis by (simp add: relay_keeps_def db_inv_def rows_of_def)
  qed
qed

context kafka_broker
begin

lemma poll_keeps:
  assumes "db_inv (sent (rl_producer r)) (rl_store r)"
  shows "relay_keeps sent r (Relay_poll K now r)"
proof (cases "Outbox_FetchPending (rl_store r) (rl_batch r)")
  case (Pair db' res)
  show ?thesis
  proof (cases res)
    case (Inl e)
    with Pair have "pg_tab db' = pg_tab (rl_store r)"
      using pg_run_Inl_tab by (fastforce simp: Outbox_FetchPending_def)
    with assms Pair Inl show ?thesis by (simp add: Relay_poll_def relay_keeps_def db_inv_def rows_of_def)
  next
    case (Inr es)
    let ?r = "r\<lparr>rl_store := db'\<rparr>"
    note fetch = fetch_pending [OF Pair [unfolded Inr]]
    have rows: "rows_of db' = rows_of (rl_store r)" using fetch(1) by (simp add: rows_of_def)
    have inv: "db_inv (sent (rl_producer ?r)) (rl_store ?r)" using assms fetch(1) by (simp add: db_inv_def)
    have ids: "distinct (map or_id (rows_of (rl_store r)))"
      using assms by (cases "pg_tab (rl_store r)") (simp_all add: db_inv_def rows_of_def ob_inv_def)
    have "known db' e" if "e \<in> set es" for e
    proof -
      from bspec [OF fetch(2) that] obtain y where y: "y \<in> set (rows_of (rl_store r))" "e = row_entry y"
        by (elim bexE conjE)
      have "or_topic x = en_Topic e \<and> Some (or_partition_key x) = en_PartitionKey e \<and> Some (or_payload x) = en_Payload e"
        if x: "x \<in> set (rows_of (rl_store r))" "or_id x = en_ID e" for x
      proof -
        have "or_id x = or_id y" using x(2) y(2) by (simp add: row_entry_def)
        from distinct_map_inj [OF ids x(1) y(1) this] show ?thesis by (simp add: y(2) row_entry_def)
      qed
      then show ?thesis unfolding known_def rows by metis
    qed
    then have adv: "relay_adv sent (en_ID ` set es) ?r (fold (relay_entry K now) es ?r)"
      by (intro entries_adv) simp
    have "or_id x \<notin> en_ID ` set es" if "x \<in> set (rows_of (rl_store r))" "or_status x \<noteq> ''pending''" for x
    proof
      assume "or_id x \<in> en_ID ` set es"
      then obtain e where e: "e \<in> set es" "or_id x = en_ID e" by blast
      from bspec [OF fetch(2) e(1)] obtain y
        where y: "y \<in> set (rows_of (rl_store r))" "e = row_entry y" "or_status y = ''pending''"
        by (elim bexE conjE)
      have "or_id x = or_id y" using e(2) y(2) by (simp add: row_entry_def)
      from distinct_map_inj [OF ids that(1) y(1) this] that(2) y(3) show False by simp
    qed
    with adv inv rows Pair Inr show ?thesis
      by (auto simp: Relay_poll_def relay_keeps_def relay_adv_def)
  qed
qed

lemma step_keeps:
  "db_inv (sent (rl_producer r)) (rl_store r) \<Longrightarrow> relay_keeps sent r (relay_step K op r)"
  by (cases op) (simp_all add: poll_keeps insert_keeps)

lemma run_keeps:
  "db_inv (sent (rl_producer r)) (rl_store r) \<Longrightarrow> relay_keeps sent r (fold (relay_step K) ops r)"
proof (induction ops arbitrary: r)
  case Nil
  then show ?case by (auto simp: relay_keeps_def)
next
  case (Cons op ops)
  note step = step_keeps [OF Cons.prems, of op]
  then have "db_inv (sent (rl_producer (relay_step K op r))) (rl_store (relay_step K op r))"
    by (simp add: relay_keeps_def)
  from relay_keeps_trans [OF step Cons.IH [OF this]] show ?case by simp
qed

end

section \<open>Progress when nothing fails\<close>

definition pub_row :: "time \<Rightarrow> ob_row \<Rightarrow> ob_row" where
  "pub_row now r = r\<lparr>or_status := ''published'', or_published_at := Some (pg_time now)\<rparr>"

definition pub_rows :: "time \<Rightarrow> int set \<Rightarrow> ob_row list \<Rightarrow> ob_row list" where
  "pub_rows now I rows = map (\<lambda>r. if or_id r \<in> I then pub_row now r else r) rows"

definition pending_rows :: "ob_row list \<Rightarrow> ob_row list" where
  "pending_rows rows = filter (\<lambda>r. or_status r = ''pending'') rows"

text \<open>In the states \<open>up\<close> the broker takes every message, and stays there.\<close>

definition always_sends :: "'k kafka_ops \<Rightarrow> ('k \<Rightarrow> bool) \<Rightarrow> bool" where
  "always_sends K up \<longleftrightarrow> (\<forall>k msg. up k \<longrightarrow> (\<exists>k' po. ko_SendMessage K k msg = (k', Inr po) \<and> up k'))"

text \<open>A relay whose database answers every statement and whose broker is up.\<close>

definition healthy :: "('k \<Rightarrow> bool) \<Rightarrow> 'k Relay \<Rightarrow> bool" where
  "healthy up r \<longleftrightarrow> pg_faults (rl_store r) = [] \<and> pg_tab (rl_store r) \<noteq> None \<and> up (rl_producer r)"

lemma pub_row_id [simp]: "or_id (pub_row now r) = or_id r"
  by (simp add: pub_row_def)

lemma pub_rows_insert: "pub_rows now J (pub_rows now I rows) = pub_rows now (I \<union> J) rows"
proof -
  have "pub_row now (pub_row now r) = pub_row now r" for r by (simp add: pub_row_def)
  then show ?thesis by (auto simp: pub_rows_def)
qed

lemma pub_rows_empty [simp]: "pub_rows now {} rows = rows"
  by (simp add: pub_rows_def)

lemma mark_published_healthy:
  assumes "healthy up r"
  shows "\<exists>db'. Outbox_MarkPublished now (rl_store r) i = (db', None) \<and> pg_faults db' = [] \<and> pg_tab db' \<noteq> None \<and>
    rows_of db' = pub_rows now {i} (rows_of (rl_store r))"
  using assms by (auto simp: healthy_def Outbox_MarkPublished_def pg_run_def Let_def rows_of_def ob_update_def
      sql_update_def pub_rows_def pub_row_def)

lemma relay_entry_healthy:
  assumes "healthy up r" "always_sends K up"
  shows "healthy up (relay_entry K now e r) \<and> rl_batch (relay_entry K now e r) = rl_batch r \<and>
    rows_of (rl_store (relay_entry K now e r)) = pub_rows now {en_ID e} (rows_of (rl_store r))"
proof -
  obtain k' po where "Producer_Send K (rl_producer r) (en_Topic e) (en_PartitionKey e) (en_Payload e) = (k', Inr po)"
      "up k'"
    using assms by (auto simp: healthy_def always_sends_def Producer_Send_def Producer_SendWithContext_def) blast
  with mark_published_healthy [OF assms(1), of now "en_ID e"] show ?thesis
    by (auto simp: relay_entry_def Relay_publish_def healthy_def)
qed

lemma relay_entries_healthy:
  "healthy up r \<Longrightarrow> always_sends K up \<Longrightarrow>
     healthy up (fold (relay_entry K now) es r) \<and> rl_batch (fold (relay_entry K now) es r) = rl_batch r \<and>
     rows_of (rl_store (fold (relay_entry K now) es r)) = pub_rows now (en_ID ` set es) (rows_of (rl_store r))"
proof (induction es arbitrary: r)
  case (Cons e es)
  from relay_entry_healthy [OF Cons.prems, of now e] Cons.IH [of "relay_entry K now e r"] Cons.prems(2)
  show ?case by (simp add: pub_rows_insert)
qed simp

lemma poll_healthy:
  assumes "healthy up r" "always_sends K up" "0 \<le> rl_batch r"
  defines "F \<equiv> take (nat (rl_batch r)) (sort_key or_created_at (pending_rows (rows_of (rl_store r))))"
  shows "healthy up (Relay_poll K now r) \<and> rl_batch (Relay_poll K now r) = rl_batch r \<and>
    rows_of (rl_store (Relay_poll K now r)) = pub_rows now (or_id ` set F) (rows_of (rl_store r))"
proof -
  obtain t where t: "pg_tab (rl_store r) = Some t" and f: "pg_faults (rl_store r) = []"
    using assms(1) by (auto simp: healthy_def)
  have fetch: "Outbox_FetchPending (rl_store r) (rl_batch r) = (rl_store r, Inr (map row_entry F))"
    using t f assms(3) by (simp add: Outbox_FetchPending_def pg_run_def F_def pending_rows_def rows_of_def Let_def)
  have "en_ID ` set (map row_entry F) = or_id ` set F" by (force simp: row_entry_def)
  with relay_entries_healthy [OF assms(1,2), of now "map row_entry F"] fetch show ?thesis
    by (simp add: Relay_poll_def)
qed

lemma length_filter_split: "length (filter P xs) = length (filter (\<lambda>x. P x \<and> Q x) xs) + length (filter (\<lambda>x. P x \<and> \<not> Q x) xs)"
  by (induction xs) auto

lemma pending_after:
  fixes n :: nat and rows :: "ob_row list"
  assumes "distinct (map or_id rows)"
  defines "F \<equiv> take n (sort_key or_created_at (pending_rows rows))"
  shows "length (pending_rows (pub_rows now (or_id ` set F) rows)) = length (pending_rows rows) - n"
proof -
  let ?I = "or_id ` set F"
  have sub: "set F \<subseteq> set (pending_rows rows)"
    by (auto simp: F_def dest: in_set_takeD)
  have dr: "distinct rows" using assms(1) by (simp add: distinct_map)
  have dF: "distinct F" using dr by (simp add: F_def pending_rows_def)
  have "set (filter (\<lambda>r. or_status r = ''pending'' \<and> or_id r \<in> ?I) rows) = set F"
  proof
    show "set F \<subseteq> set (filter (\<lambda>r. or_status r = ''pending'' \<and> or_id r \<in> ?I) rows)"
      using sub by (auto simp: pending_rows_def)
    show "set (filter (\<lambda>r. or_status r = ''pending'' \<and> or_id r \<in> ?I) rows) \<subseteq> set F"
    proof
      fix x assume "x \<in> set (filter (\<lambda>r. or_status r = ''pending'' \<and> or_id r \<in> ?I) rows)"
      then obtain y where "x \<in> set rows" "y \<in> set F" "or_id x = or_id y" by auto
      moreover have "y \<in> set rows" using \<open>y \<in> set F\<close> sub by (auto simp: pending_rows_def)
      ultimately show "x \<in> set F" using distinct_map_inj [OF assms(1)] by metis
    qed
  qed
  then have "length (filter (\<lambda>r. or_status r = ''pending'' \<and> or_id r \<in> ?I) rows) = length F"
    using distinct_card [of "filter (\<lambda>r. or_status r = ''pending'' \<and> or_id r \<in> ?I) rows"] distinct_card [OF dF] dr
    by simp
  moreover have "length F = min n (length (pending_rows rows))" by (simp add: F_def min.commute)
  moreover have "length (pending_rows (pub_rows now ?I rows))
      = length (filter (\<lambda>r. or_status r = ''pending'' \<and> or_id r \<notin> ?I) rows)"
    unfolding pending_rows_def pub_rows_def by (induction rows) (auto simp: pub_row_def)
  ultimately show ?thesis
    using length_filter_split [of "\<lambda>r. or_status r = ''pending''" rows "\<lambda>r. or_id r \<in> ?I"]
    by (simp add: pending_rows_def)
qed

lemma ids_pub_rows [simp]: "map or_id (pub_rows now I rows) = map or_id rows"
  by (simp add: pub_rows_def)

text \<open>Rows that only moved from pending to published.\<close>

definition published_more :: "ob_row list \<Rightarrow> ob_row list \<Rightarrow> bool" where
  "published_more rows rows' \<longleftrightarrow>
     list_all2 (\<lambda>r r'. r' = r \<or> ob_core r' = ob_core r \<and> or_status r = ''pending'' \<and> or_status r' = ''published'') rows rows'"

lemma published_more_refl: "published_more rows rows"
  by (simp add: published_more_def list.rel_refl)

lemma published_more_trans: "published_more a b \<Longrightarrow> published_more b c \<Longrightarrow> published_more a c"
  unfolding published_more_def by (erule (1) list_all2_trans [rotated]) auto

lemma pub_rows_more:
  assumes "distinct (map or_id rows)" "set F \<subseteq> set (pending_rows rows)"
  shows "published_more rows (pub_rows now (or_id ` set F) rows)"
proof -
  have "or_status r = ''pending''" if r: "r \<in> set rows" and i: "or_id r \<in> or_id ` set F" for r
  proof -
    obtain y where "y \<in> set F" "or_id r = or_id y" using i by blast
    with assms(2) distinct_map_inj [OF assms(1) r, of y] show ?thesis by (auto simp: pending_rows_def)
  qed
  then show ?thesis
    by (auto simp: published_more_def pub_rows_def list_all2_map2 pub_row_def intro!: list.rel_refl_strong)
qed

lemma Run_healthy:
  "healthy up r \<Longrightarrow> always_sends K up \<Longrightarrow> 0 \<le> rl_batch r \<Longrightarrow> distinct (map or_id (rows_of (rl_store r))) \<Longrightarrow>
     length (pending_rows (rows_of (rl_store (Relay_Run K ticks r))))
       = length (pending_rows (rows_of (rl_store r))) - length ticks * nat (rl_batch r) \<and>
     published_more (rows_of (rl_store r)) (rows_of (rl_store (Relay_Run K ticks r)))"
proof (induction ticks arbitrary: r)
  case (Cons now ticks)
  let ?F = "take (nat (rl_batch r)) (sort_key or_created_at (pending_rows (rows_of (rl_store r))))"
  note poll = poll_healthy [OF Cons.prems(1-3), of now]
  have sub: "set ?F \<subseteq> set (pending_rows (rows_of (rl_store r)))" by (auto dest: in_set_takeD)
  have "distinct (map or_id (rows_of (rl_store (Relay_poll K now r))))" using poll Cons.prems(4) by simp
  note IH = Cons.IH [OF conjunct1 [OF poll] Cons.prems(2) _ this]
  have more: "published_more (rows_of (rl_store r)) (rows_of (rl_store (Relay_poll K now r)))"
    using pub_rows_more [OF Cons.prems(4) sub, of now] poll by simp
  have "length (pending_rows (rows_of (rl_store (Relay_poll K now r))))
      = length (pending_rows (rows_of (rl_store r))) - nat (rl_batch r)"
    using pending_after [OF Cons.prems(4)] poll by simp
  with IH poll Cons.prems(3) more show ?case
    by (auto simp: algebra_simps intro: published_more_trans)
qed (simp add: published_more_refl)

lemma Relay_Run_fold: "Relay_Run K ticks r = fold (relay_step K) (map RPoll ticks) r"
  by (induction ticks arbitrary: r) simp_all

lemma drained_sent:
  assumes "published_more rows (rows_of db)" "db_inv log db" "pending_rows (rows_of db) = []"
    and "x \<in> set (pending_rows rows)"
  shows "ob_msg x \<in> set log"
proof -
  obtain i where i: "i < length rows" "rows ! i = x" and p: "or_status x = ''pending''"
    using assms(4) by (auto simp: pending_rows_def in_set_conv_nth)
  let ?y = "rows_of db ! i"
  have len: "i < length (rows_of db)" using assms(1) i(1) by (auto simp: published_more_def dest: list_all2_lengthD)
  then have y: "?y \<in> set (rows_of db)" by simp
  then have "or_status ?y \<noteq> ''pending''" using assms(3) by (auto simp: pending_rows_def filter_empty_conv)
  then have "ob_core ?y = ob_core x \<and> or_status ?y = ''published''"
    using assms(1) i p by (auto simp: published_more_def dest!: list_all2_nthD)
  moreover have "row_covered log ?y"
    using assms(2) y by (auto simp: db_inv_def ob_inv_def rows_of_def split: option.splits)
  ultimately show ?thesis using ob_core_messages [of ?y x] by (auto simp: row_covered_def)
qed

lemma Relay_Run_drains:
  fixes ticks :: "time list"
  assumes "kafka_broker K sent" "always_sends K up" "up k"
    and "pg_faults db = []" "pg_tab db = Some t" "db_inv (sent k) db"
  defines "r \<equiv> Relay_Run K ticks (NewRelay db k)"
  shows "length (pending_rows (rows_of (rl_store r))) = length (pending_rows (ob_rows t)) - 100 * length ticks \<and>
    published_more (ob_rows t) (rows_of (rl_store r)) \<and> db_inv (sent (rl_producer r)) (rl_store r)"
proof -
  let ?r0 = "NewRelay db k"
  have h: "healthy up ?r0" "0 \<le> rl_batch ?r0" "distinct (map or_id (rows_of (rl_store ?r0)))"
    and rows: "rows_of (rl_store ?r0) = ob_rows t"
    using assms(3-6) by (auto simp: healthy_def NewRelay_def DefaultBatchSize_def rows_of_def db_inv_def ob_inv_def)
  note run = Run_healthy [OF h(1) assms(2) h(2,3), of ticks, folded r_def, unfolded rows]
  have "r = fold (relay_step K) (map RPoll ticks) ?r0"
    by (simp add: r_def Relay_Run_fold)
  then have inv: "db_inv (sent (rl_producer r)) (rl_store r)"
    using kafka_broker.run_keeps [OF assms(1), of ?r0 "map RPoll ticks"] assms(6)
    by (simp add: NewRelay_def relay_keeps_def)
  have "length (pending_rows (rows_of (rl_store r))) = length (pending_rows (ob_rows t)) - 100 * length ticks"
    using run by (simp add: NewRelay_def DefaultBatchSize_def mult.commute)
  with run inv show ?thesis by blast
qed

section \<open>Properties\<close>

lemma insert_ok_row:
  assumes "Outbox_Insert db e = (db', None)"
  shows "\<exists>x. rows_of db' = rows_of db @ [x] \<and> en_MessageID e = Some (or_message_id x) \<and> en_Topic e = or_topic x \<and>
    en_PartitionKey e = Some (or_partition_key x) \<and> en_Payload e = Some (or_payload x)"
proof -
  obtain t t' n where t: "pg_tab db = Some t" "pg_tab db' = Some t'"
      "sql_insert_outbox (pg_now db) (en_MessageID e) (en_Topic e) (en_PartitionKey e) (en_Payload e)
         StatusPending t = Inr (t', n)"
    using assms by (auto simp: Outbox_Insert_def pg_run_Inr)
  from t(3) show ?thesis
    by (auto simp: sql_insert_outbox_def rows_of_def t(1,2) split: option.splits if_splits)
qed

definition entry_msg :: "Entry \<Rightarrow> ProducerMessage" where
  "entry_msg e = \<lparr>pm_Topic = en_Topic e, pm_Key = en_PartitionKey e, pm_Value = en_Payload e, pm_Headers = []\<rparr>"

definition entry_dead_letter :: "Entry \<Rightarrow> ProducerMessage" where
  "entry_dead_letter e = \<lparr>pm_Topic = TopicDeadLetter, pm_Key = Some (string_to_bytes (en_Topic e)),
     pm_Value = en_Payload e, pm_Headers = []\<rparr>"

text \<open>
  C2. The outbox loses nothing.  Once \<open>Insert\<close> has returned without an error, whatever inserts and polls of the
  relay follow, under any failures of the database and any failures of the broker (a send that reports an error may
  or may not have been appended), the entry is still a row of the table, and that row is pending, or published with
  its message in the log of the broker, or failed with its dead letter in the log.
\<close>

theorem outbox_at_least_once:
  fixes ops :: "relay_op list"
  assumes "kafka_broker K sent" "db_inv (sent k) db" "Outbox_Insert db e = (db', None)"
  defines "r \<equiv> fold (relay_step K) ops (NewRelay db' k)"
  shows "\<exists>x \<in> set (rows_of (rl_store r)). Some (or_message_id x) = en_MessageID e \<and>
    (or_status x = ''pending'' \<or>
     or_status x = ''published'' \<and> entry_msg e \<in> set (sent (rl_producer r)) \<or>
     or_status x = ''failed'' \<and> entry_dead_letter e \<in> set (sent (rl_producer r)))"
proof -
  let ?r0 = "NewRelay db' k"
  have "db_inv (sent k) db'"
    using insert_keeps [of sent "NewRelay db k" e] assms(2,3) by (simp add: relay_keeps_def NewRelay_def)
  then have keeps: "relay_keeps sent ?r0 r"
    using kafka_broker.run_keeps [OF assms(1), of ?r0 ops] by (simp add: r_def NewRelay_def)
  obtain x where x: "rows_of db' = rows_of db @ [x]" "en_MessageID e = Some (or_message_id x)"
    "en_Topic e = or_topic x" "en_PartitionKey e = Some (or_partition_key x)" "en_Payload e = Some (or_payload x)"
    using insert_ok_row [OF assms(3)] by blast
  from keeps x(1) obtain new where "map ob_core (rows_of (rl_store r)) = map ob_core (rows_of db) @ ob_core x # new"
    by (auto simp: relay_keeps_def NewRelay_def)
  then have "ob_core x \<in> set (map ob_core (rows_of (rl_store r)))" by simp
  then obtain y where y: "y \<in> set (rows_of (rl_store r))" "ob_core y = ob_core x" by auto
  have cov: "row_covered (sent (rl_producer r)) y"
    using keeps y(1) by (auto simp: relay_keeps_def db_inv_def ob_inv_def rows_of_def split: option.splits)
  have "ob_msg y = entry_msg e \<and> ob_dead_letter y = entry_dead_letter e \<and> or_message_id y = or_message_id x"
    using y(2) x by (auto simp: ob_core_def ob_msg_def ob_dead_letter_def entry_msg_def entry_dead_letter_def)
  with cov x(2) y(1) show ?thesis by (auto simp: row_covered_def)
qed

definition sample_entry :: Entry where
  "sample_entry = \<lparr>en_ID = 0, en_MessageID = Some [1], en_Topic = ''user-1'', en_PartitionKey = Some [2],
     en_Payload = Some [3], en_Status = [], en_RetryCount = 0, en_CreatedAt = 0, en_PublishedAt = None\<rparr>"

definition sample_ob_db :: ob_db where
  "sample_ob_db = \<lparr>pg_faults = [], pg_now = 0, pg_tab = Some ob_empty\<rparr>"

lemma sample_ob_db_inv: "db_inv log sample_ob_db"
  by (simp add: sample_ob_db_def db_inv_def ob_inv_def ob_empty_def)

lemma sample_insert_ok: "snd (Outbox_Insert sample_ob_db sample_entry) = None"
  by (simp add: Outbox_Insert_def pg_run_def sample_ob_db_def sample_entry_def sql_insert_outbox_def ob_empty_def
      StatusPending_def)

theorem outbox_at_least_once_witness:
  "Outbox_Insert sample_ob_db sample_entry = (fst (Outbox_Insert sample_ob_db sample_entry), None) \<and> (\<exists>x \<in> set (rows_of (rl_store (fold (relay_step mem_kafka) [RPoll 1, RPoll 2]
       (NewRelay (fst (Outbox_Insert sample_ob_db sample_entry)) \<lparr>mb_log = [], mb_faults = [LostAck ''timeout'']\<rparr>)))).
     Some (or_message_id x) = en_MessageID sample_entry)"
proof -
  have ok: "Outbox_Insert sample_ob_db sample_entry = (fst (Outbox_Insert sample_ob_db sample_entry), None)"
    using sample_insert_ok by (simp add: prod_eq_iff)
  from outbox_at_least_once [where ops = "[RPoll 1, RPoll 2]", OF memk.kafka_broker_axioms sample_ob_db_inv ok] ok
  show ?thesis by blast
qed

text \<open>
  C8. The relay drains the outbox.  With a database that answers and a broker that takes every message, \<open>n\<close> ticks of
  \<open>Run\<close> leave at most the pending rows beyond the first \<open>n * DefaultBatchSize\<close>; once there are ticks enough every row
  that was pending is published with its message in the log, and no other row has changed.
\<close>

theorem relay_drains_outbox:
  fixes ticks :: "time list"
  assumes "kafka_broker K sent" "always_sends K up" "up k"
    and "pg_faults db = []" "pg_tab db = Some t" "db_inv (sent k) db"
  defines "r \<equiv> Relay_Run K ticks (NewRelay db k)"
  shows "length (pending_rows (rows_of (rl_store r))) = length (pending_rows (ob_rows t)) - 100 * length ticks \<and>
    published_more (ob_rows t) (rows_of (rl_store r)) \<and>
    (length (pending_rows (ob_rows t)) \<le> 100 * length ticks \<longrightarrow>
       (\<forall>x \<in> set (pending_rows (ob_rows t)). ob_msg x \<in> set (sent (rl_producer r))))"
proof -
  note run = Relay_Run_drains [OF assms(1-6), of ticks, folded r_def]
  have "ob_msg x \<in> set (sent (rl_producer r))"
    if "length (pending_rows (ob_rows t)) \<le> 100 * length ticks" "x \<in> set (pending_rows (ob_rows t))" for x
    using drained_sent [where rows = "ob_rows t" and db = "rl_store r", OF _ _ _ that(2)] run that(1) by simp
  with run show ?thesis by blast
qed

theorem relay_drains_outbox_witness:
  "length (pending_rows (rows_of (rl_store (Relay_Run mem_kafka [1]
     (NewRelay (fst (Outbox_Insert sample_ob_db sample_entry)) \<lparr>mb_log = [], mb_faults = []\<rparr>))))) = 0"
proof -
  let ?db = "fst (Outbox_Insert sample_ob_db sample_entry)" and ?k = "\<lparr>mb_log = [], mb_faults = []\<rparr>"
  have up: "always_sends mem_kafka (\<lambda>b. mb_faults b = [])"
    by (auto simp: always_sends_def mem_kafka_def mem_send_def Let_def)
  have "pg_faults ?db = []" "pg_tab ?db = Some (the (pg_tab ?db))" "length (ob_rows (the (pg_tab ?db))) = 1"
    by (simp_all add: Outbox_Insert_def pg_run_def sample_ob_db_def sample_entry_def sql_insert_outbox_def
        ob_empty_def StatusPending_def)
  moreover have "db_inv (mb_log ?k) ?db"
    using insert_keeps [of mb_log "NewRelay sample_ob_db ?k" sample_entry] sample_ob_db_inv
    by (simp add: relay_keeps_def NewRelay_def)
  ultimately show ?thesis
    using relay_drains_outbox [OF memk.kafka_broker_axioms up, of ?k ?db "the (pg_tab ?db)" "[1]"]
      length_filter_le [of "\<lambda>r. or_status r = ''pending''" "ob_rows (the (pg_tab ?db))"]
    by (simp add: pending_rows_def)
qed

end
