(* ===== verification/Session_Machine.thy ===== *)
theory Session_Machine
  imports FProto_Prelude
begin

text \<open>
  \<open>proto-core/session/machine.go\<close> and \<open>model.go\<close>: the session's data and the state machine of
  its life cycle. A Go \<open>Status\<close> is a string type, so a status is a string; the transition table
  is the nested map of the source as association lists.
\<close>

section \<open>model.go\<close>

type_synonym Status = string

definition StatusConnecting :: Status where "StatusConnecting = ''connecting''"
definition StatusActive :: Status where "StatusActive = ''active''"
definition StatusSleeping :: Status where "StatusSleeping = ''sleeping''"
definition StatusExpired :: Status where "StatusExpired = ''expired''"

lemmas status_defs = StatusConnecting_def StatusActive_def StatusSleeping_def StatusExpired_def

type_synonym TransportType = string

definition TransportWebSocket :: TransportType where "TransportWebSocket = ''websocket''"
definition TransportQUIC :: TransportType where "TransportQUIC = ''quic''"
definition TransportGRPC :: TransportType where "TransportGRPC = ''grpc''"

lemmas transport_type_defs = TransportWebSocket_def TransportQUIC_def TransportGRPC_def

record Connection =
  ConnectionID :: string
  Transport :: TransportType
  GatewayID :: string
  RemoteAddr :: string
  ConnectedAt :: time
  LastPacketSeq :: uint64

record Session =
  SessionID :: slice
  UserID :: slice
  DeviceID :: slice
  SStatus :: Status
  CryptoState :: slice
  CreatedAt :: time
  LastActive :: time
  ExpiresAt :: time
  Connections :: "Connection list"

record Config =
  IdleTimeout :: duration
  ExpiryTimeout :: duration
  HandshakeTimeout :: duration
  MaxConnections :: int

definition DefaultConfig :: Config where
  "DefaultConfig = \<lparr>IdleTimeout = 5 * Minute, ExpiryTimeout = 24 * Hour,
     HandshakeTimeout = 30 * Second, MaxConnections = 5\<rparr>"

section \<open>machine.go\<close>

text \<open>The named events are the values 0 to 5 of the integer type; \<open>OtherEvent\<close> is any other.\<close>

datatype Event =
    EventHandshakeOK
  | EventHandshakeFail
  | EventPacketReceived
  | EventIdleTimeout
  | EventExpiryTimeout
  | EventExplicitLogout
  | OtherEvent int

fun Event_String :: "Event \<Rightarrow> string" where
  "Event_String EventHandshakeOK = ''HandshakeOK''"
| "Event_String EventHandshakeFail = ''HandshakeFail''"
| "Event_String EventPacketReceived = ''PacketReceived''"
| "Event_String EventIdleTimeout = ''IdleTimeout''"
| "Event_String EventExpiryTimeout = ''ExpiryTimeout''"
| "Event_String EventExplicitLogout = ''ExplicitLogout''"
| "Event_String (OtherEvent n) = ''Event('' @ show_int n @ '')''"

record transitionResult =
  next_status :: Status
  destroyed :: bool

definition to_status :: "Status \<Rightarrow> transitionResult" where
  "to_status s = \<lparr>next_status = s, destroyed = False\<rparr>"

definition to_destroyed :: transitionResult where
  "to_destroyed = \<lparr>next_status = [], destroyed = True\<rparr>"

definition transitions :: "(Status \<times> (Event \<times> transitionResult) list) list" where
  "transitions =
    [(StatusConnecting,
       [(EventHandshakeOK, to_status StatusActive),
        (EventHandshakeFail, to_destroyed)]),
     (StatusActive,
       [(EventPacketReceived, to_status StatusActive),
        (EventIdleTimeout, to_status StatusSleeping),
        (EventExplicitLogout, to_status StatusExpired)]),
     (StatusSleeping,
       [(EventPacketReceived, to_status StatusActive),
        (EventExpiryTimeout, to_status StatusExpired)])]"

text \<open>Both errors wrap \<open>ErrInvalidTransition\<close>.\<close>

datatype transition_error = NoTransitionsFrom Status | EventNotValid Event Status

definition Transition :: "Status \<Rightarrow> Event \<Rightarrow> transition_error + Status \<times> bool" where
  "Transition current event =
     (case map_of transitions current of None \<Rightarrow> Inl (NoTransitionsFrom current)
      | Some events \<Rightarrow>
          (case map_of events event of None \<Rightarrow> Inl (EventNotValid event current)
           | Some result \<Rightarrow> Inr (next_status result, destroyed result)))"

section \<open>The abstract life cycle\<close>

text \<open>
  What the component promises: a session is connecting, active, sleeping, expired or gone.
  The relation lists the steps; \<open>status_of\<close> gives the status string of a phase.
\<close>

datatype phase = Connecting | Active | Sleeping | Expired | Destroyed

inductive life_step :: "phase \<Rightarrow> Event \<Rightarrow> phase \<Rightarrow> bool" where
  handshake_ok: "life_step Connecting EventHandshakeOK Active"
| handshake_fail: "life_step Connecting EventHandshakeFail Destroyed"
| packet: "life_step Active EventPacketReceived Active"
| idle: "life_step Active EventIdleTimeout Sleeping"
| logout: "life_step Active EventExplicitLogout Expired"
| wake: "life_step Sleeping EventPacketReceived Active"
| expire: "life_step Sleeping EventExpiryTimeout Expired"

inductive_simps life_step_simps [simp]:
  "life_step Connecting e q" "life_step Active e q" "life_step Sleeping e q"
  "life_step Expired e q" "life_step Destroyed e q"

fun status_of :: "phase \<Rightarrow> Status" where
  "status_of Connecting = StatusConnecting"
| "status_of Active = StatusActive"
| "status_of Sleeping = StatusSleeping"
| "status_of Expired = StatusExpired"
| "status_of Destroyed = []"

text \<open>Runs of the machine: \<open>run s es\<close> is where the events lead, if all are accepted.\<close>

fun run_events :: "Status \<Rightarrow> Event list \<Rightarrow> (Status \<times> bool) option" where
  "run_events s [] = Some (s, False)"
| "run_events s (e # es) =
     (case Transition s e of Inl _ \<Rightarrow> None
      | Inr (s', True) \<Rightarrow> (if es = [] then Some (s', True) else None)
      | Inr (s', False) \<Rightarrow> run_events s' es)"

inductive life_run :: "phase \<Rightarrow> Event list \<Rightarrow> phase \<Rightarrow> bool" where
  run_nil: "life_run p [] p"
| run_cons: "life_step p e q \<Longrightarrow> life_run q es r \<Longrightarrow> life_run p (e # es) r"

inductive_cases life_run_ConsE: "life_run p (e # es) r"
inductive_cases life_run_NilE: "life_run p [] r"

section \<open>Lemmas\<close>

lemma status_distinct [simp]:
  "StatusConnecting \<noteq> StatusActive" "StatusConnecting \<noteq> StatusSleeping" "StatusConnecting \<noteq> StatusExpired"
  "StatusActive \<noteq> StatusConnecting" "StatusActive \<noteq> StatusSleeping" "StatusActive \<noteq> StatusExpired"
  "StatusSleeping \<noteq> StatusConnecting" "StatusSleeping \<noteq> StatusActive" "StatusSleeping \<noteq> StatusExpired"
  "StatusExpired \<noteq> StatusConnecting" "StatusExpired \<noteq> StatusActive" "StatusExpired \<noteq> StatusSleeping"
  "StatusConnecting \<noteq> []" "StatusActive \<noteq> []" "StatusSleeping \<noteq> []" "StatusExpired \<noteq> []"
  by (simp_all add: status_defs)

lemma status_of_inject [simp]: "status_of p = status_of q \<longleftrightarrow> p = q"
  by (cases p; cases q; simp add: eq_commute [of "[]"])

lemma Transition_status_of:
  "Transition (status_of p) e =
     (case (p, e) of
        (Connecting, EventHandshakeOK) \<Rightarrow> Inr (StatusActive, False)
      | (Connecting, EventHandshakeFail) \<Rightarrow> Inr ([], True)
      | (Active, EventPacketReceived) \<Rightarrow> Inr (StatusActive, False)
      | (Active, EventIdleTimeout) \<Rightarrow> Inr (StatusSleeping, False)
      | (Active, EventExplicitLogout) \<Rightarrow> Inr (StatusExpired, False)
      | (Sleeping, EventPacketReceived) \<Rightarrow> Inr (StatusActive, False)
      | (Sleeping, EventExpiryTimeout) \<Rightarrow> Inr (StatusExpired, False)
      | (Expired, _) \<Rightarrow> Inl (NoTransitionsFrom StatusExpired)
      | (Destroyed, _) \<Rightarrow> Inl (NoTransitionsFrom [])
      | _ \<Rightarrow> Inl (EventNotValid e (status_of p)))"
  by (cases p; cases e; simp add: Transition_def transitions_def to_status_def to_destroyed_def
      eq_commute [of "[]"])

lemma Transition_Inr_status:
  assumes "Transition s e = Inr (t, d)"
  shows "\<exists>p q. s = status_of p \<and> life_step p e q \<and> t = status_of q \<and> (d \<longleftrightarrow> q = Destroyed)"
proof -
  have "s \<in> {StatusConnecting, StatusActive, StatusSleeping}"
    using assms by (auto simp: Transition_def transitions_def split: if_splits)
  then obtain p where p: "s = status_of p" "p \<in> {Connecting, Active, Sleeping}"
    using status_of.simps by (metis insert_iff singletonD)
  with assms show ?thesis
    by (cases p; cases e) (fastforce simp: Transition_status_of [of Connecting, simplified]
        Transition_status_of [of Active, simplified] Transition_status_of [of Sleeping, simplified])+
qed

lemma life_step_Transition:
  "life_step p e q \<Longrightarrow> Transition (status_of p) e = Inr (status_of q, q = Destroyed)"
  by (induction rule: life_step.induct)
    (simp_all add: Transition_status_of [of Connecting, simplified]
      Transition_status_of [of Active, simplified] Transition_status_of [of Sleeping, simplified])

lemma life_step_deterministic: "life_step p e q \<Longrightarrow> life_step p e r \<Longrightarrow> q = r"
  by (cases p) auto

lemma life_run_Destroyed [simp]: "life_run Destroyed es r \<longleftrightarrow> es = [] \<and> r = Destroyed"
  by (auto intro: run_nil elim: life_run.cases)

lemma life_run_Expired [simp]: "life_run Expired es r \<longleftrightarrow> es = [] \<and> r = Expired"
  by (auto intro: run_nil elim: life_run.cases)

lemma Transition_Destroyed [simp]: "Transition [] e = Inl (NoTransitionsFrom [])"
  using Transition_status_of [of Destroyed e] by simp

lemma run_events_sound:
  "run_events (status_of p) es = Some (s, d) \<Longrightarrow>
     \<exists>q. life_run p es q \<and> s = status_of q \<and> (d \<longleftrightarrow> es \<noteq> [] \<and> q = Destroyed)"
proof (induction es arbitrary: p)
  case Nil
  then show ?case by (auto intro: run_nil)
next
  case (Cons e es)
  then obtain t b where t: "Transition (status_of p) e = Inr (t, b)"
    by (auto split: sum.splits)
  then obtain q where q: "life_step p e q" "t = status_of q" "b \<longleftrightarrow> q = Destroyed"
    using Transition_Inr_status by fastforce
  show ?case
  proof (cases b)
    case True
    with Cons.prems t q show ?thesis
      by (auto split: if_splits intro!: exI [of _ q] intro: run_cons run_nil)
  next
    case False
    with Cons.prems t q have "run_events (status_of q) es = Some (s, d)" by simp
    with Cons.IH obtain r where "life_run q es r" "s = status_of r" "d \<longleftrightarrow> es \<noteq> [] \<and> r = Destroyed"
      by blast
    with q False show ?thesis
      by (intro exI [of _ r]) (auto intro: run_cons elim: life_run.cases)
  qed
qed

lemma run_events_complete:
  "life_run p es q \<Longrightarrow> run_events (status_of p) es = Some (status_of q, es \<noteq> [] \<and> q = Destroyed)"
proof (induction rule: life_run.induct)
  case (run_cons p e q es r)
  note t = life_step_Transition [OF run_cons.hyps(1)]
  show ?case
    using run_cons t by (cases "q = Destroyed"; cases es) (auto elim: life_run.cases)
qed simp

definition running_event :: "Event \<Rightarrow> bool" where
  "running_event e \<longleftrightarrow> e = EventPacketReceived \<or> e = EventIdleTimeout"

definition final_event :: "Event \<Rightarrow> bool" where
  "final_event e \<longleftrightarrow> e = EventExpiryTimeout \<or> e = EventExplicitLogout"

lemma life_run_after_handshake:
  "life_run p es q \<Longrightarrow> p \<in> {Active, Sleeping} \<Longrightarrow>
     q \<in> {Active, Sleeping} \<and> list_all running_event es \<or>
     q = Expired \<and> (\<exists>es' e. es = es' @ [e] \<and> list_all running_event es' \<and> final_event e)"
proof (induction rule: life_run.induct)
  case (run_cons p e q es r)
  then consider "q \<in> {Active, Sleeping}" "running_event e" | "q = Expired" "final_event e"
    by (auto simp: running_event_def final_event_def)
  then show ?case
  proof cases
    case 1
    with run_cons.IH show ?thesis by (metis append_Cons list.pred_inject(2))
  next
    case 2
    with run_cons.hyps show ?thesis by auto
  qed
qed simp

section \<open>Properties\<close>


text \<open>
  Every sequence of events a new session accepts has one of four shapes: nothing has
  happened yet; the handshake failed, the session is destroyed and no event follows; the
  handshake succeeded and was followed by packets and idle timeouts only, and the session is
  active or sleeping; or such a run was closed by one expiry or logout, the session is expired
  and no event follows.
\<close>

lemma session_run_shape:
  assumes "run_events StatusConnecting es = Some (s, d)"
  shows "es = [] \<and> s = StatusConnecting \<and> \<not> d \<or>
    es = [EventHandshakeFail] \<and> s = [] \<and> d \<or>
    (\<exists>es'. es = EventHandshakeOK # es' \<and> list_all running_event es' \<and>
       s \<in> {StatusActive, StatusSleeping} \<and> \<not> d) \<or>
    (\<exists>es' e. es = EventHandshakeOK # es' @ [e] \<and> list_all running_event es' \<and> final_event e \<and>
       s = StatusExpired \<and> \<not> d)"
proof -
  obtain q where q: "life_run Connecting es q" "s = status_of q" "d \<longleftrightarrow> es \<noteq> [] \<and> q = Destroyed"
    using run_events_sound [of Connecting es s d] assms by auto
  show ?thesis
  proof (cases es)
    case Nil
    with q show ?thesis by (auto elim: life_run_NilE)
  next
    case (Cons e es')
    with q(1) obtain p where p: "life_step Connecting e p" "life_run p es' q"
      by (auto elim: life_run_ConsE)
    then consider "e = EventHandshakeOK" "p = Active" | "e = EventHandshakeFail" "p = Destroyed"
      by auto
    then show ?thesis
    proof cases
      case 1
      with p(2) have "q \<in> {Active, Sleeping} \<and> list_all running_event es' \<or>
          q = Expired \<and> (\<exists>us u. es' = us @ [u] \<and> list_all running_event us \<and> final_event u)"
        using life_run_after_handshake by simp
      with 1 q Cons show ?thesis by (elim disjE conjE exE) auto
    next
      case 2
      with p q Cons show ?thesis by simp
    qed
  qed
qed

lemma session_run_shape_instance:
  "\<exists>es' e. [EventHandshakeOK, EventIdleTimeout, EventExpiryTimeout] = EventHandshakeOK # es' @ [e] \<and>
     list_all running_event es' \<and> final_event e"
proof -
  have "run_events StatusConnecting [EventHandshakeOK, EventIdleTimeout, EventExpiryTimeout]
          = Some (StatusExpired, False)"
    by (simp add: Transition_def transitions_def to_status_def to_destroyed_def)
  from session_run_shape [OF this] show ?thesis by simp
qed

end
