(* ===== verification/Session_Store.thy ===== *)
theory Session_Store
  imports Session_Machine
begin

text \<open>
  \<open>proto-core/session/store.go\<close>: the interface \<open>Store\<close> as a record of operations, and the contract
  its implementations share as the locale \<open>session_store\<close>: behind every store there is a map from
  session identifiers to the session's data, and each operation that succeeds acts on that map as
  its name says. The clients' lemma is the refinement of whole sequences of operations.
\<close>

section \<open>store.go\<close>

text \<open>\<open>st_UpdateLastActive\<close> takes the instant \<open>time.Now()\<close> returns in it.\<close>

record 'st Store =
  st_Create :: "'st \<Rightarrow> Session \<Rightarrow> 'st \<times> goerr option"
  st_Get :: "'st \<Rightarrow> slice \<Rightarrow> 'st \<times> (goerr + Session)"
  st_UpdateStatus :: "'st \<Rightarrow> slice \<Rightarrow> Status \<Rightarrow> 'st \<times> goerr option"
  st_UpdateCryptoState :: "'st \<Rightarrow> slice \<Rightarrow> slice \<Rightarrow> 'st \<times> goerr option"
  st_UpdateLastActive :: "time \<Rightarrow> 'st \<Rightarrow> slice \<Rightarrow> 'st \<times> goerr option"
  st_Delete :: "'st \<Rightarrow> slice \<Rightarrow> 'st \<times> goerr option"
  st_AddConnection :: "'st \<Rightarrow> slice \<Rightarrow> Connection \<Rightarrow> 'st \<times> goerr option"
  st_RemoveConnection :: "'st \<Rightarrow> slice \<Rightarrow> string \<Rightarrow> 'st \<times> goerr option"
  st_GetConnections :: "'st \<Rightarrow> slice \<Rightarrow> 'st \<times> (goerr + Connection list)"
  st_GetUserSessions :: "'st \<Rightarrow> slice \<Rightarrow> 'st \<times> (goerr + slice list)"

section \<open>The abstract store\<close>

record stored =
  sd_user :: bytes
  sd_device :: bytes
  sd_status :: Status
  sd_crypto :: bytes

definition stored_of :: "Session \<Rightarrow> stored" where
  "stored_of s = \<lparr>sd_user = slice_bytes (UserID s), sd_device = slice_bytes (DeviceID s),
     sd_status = SStatus s, sd_crypto = slice_bytes (CryptoState s)\<rparr>"

datatype store_op =
    OpCreate Session
  | OpUpdateStatus bytes Status
  | OpUpdateCryptoState bytes slice
  | OpUpdateLastActive bytes time
  | OpDelete bytes
  | OpAddConnection bytes Connection
  | OpRemoveConnection bytes string

fun store_step :: "'st Store \<Rightarrow> 'st \<Rightarrow> store_op \<Rightarrow> 'st \<times> goerr option" where
  "store_step S st (OpCreate s) = st_Create S st s"
| "store_step S st (OpUpdateStatus i t) = st_UpdateStatus S st (Some i) t"
| "store_step S st (OpUpdateCryptoState i c) = st_UpdateCryptoState S st (Some i) c"
| "store_step S st (OpUpdateLastActive i t) = st_UpdateLastActive S t st (Some i)"
| "store_step S st (OpDelete i) = st_Delete S st (Some i)"
| "store_step S st (OpAddConnection i c) = st_AddConnection S st (Some i) c"
| "store_step S st (OpRemoveConnection i c) = st_RemoveConnection S st (Some i) c"

text \<open>\<open>None\<close> when an operation returned an error.\<close>

fun store_run :: "'st Store \<Rightarrow> 'st \<Rightarrow> store_op list \<Rightarrow> 'st option" where
  "store_run S st [] = Some st"
| "store_run S st (p # ps) =
     (case store_step S st p of (st', None) \<Rightarrow> store_run S st' ps | (_, Some _) \<Rightarrow> None)"

text \<open>The specification is undefined on an update of a session that does not exist.\<close>

fun spec_step :: "(bytes \<rightharpoonup> stored) \<Rightarrow> store_op \<Rightarrow> (bytes \<rightharpoonup> stored) option" where
  "spec_step m (OpCreate s) = Some (m(slice_bytes (SessionID s) \<mapsto> stored_of s))"
| "spec_step m (OpUpdateStatus i t) = map_option (\<lambda>x. m(i \<mapsto> x\<lparr>sd_status := t\<rparr>)) (m i)"
| "spec_step m (OpUpdateCryptoState i c) = map_option (\<lambda>x. m(i \<mapsto> x\<lparr>sd_crypto := slice_bytes c\<rparr>)) (m i)"
| "spec_step m (OpUpdateLastActive i t) = map_option (\<lambda>x. m) (m i)"
| "spec_step m (OpDelete i) = Some (m(i := None))"
| "spec_step m (OpAddConnection i c) = Some m"
| "spec_step m (OpRemoveConnection i c) = Some m"

fun spec_run :: "(bytes \<rightharpoonup> stored) \<Rightarrow> store_op list \<Rightarrow> (bytes \<rightharpoonup> stored) option" where
  "spec_run m [] = Some m"
| "spec_run m (p # ps) = (case spec_step m p of None \<Rightarrow> None | Some m' \<Rightarrow> spec_run m' ps)"

section \<open>The contract\<close>

locale session_store =
  fixes S :: "'st Store"
    and inv :: "'st \<Rightarrow> bool"
    and sessions :: "'st \<Rightarrow> bytes \<rightharpoonup> stored"
  assumes step: "inv st \<Longrightarrow> store_step S st p = (st', None) \<Longrightarrow> spec_step (sessions st) p = Some m \<Longrightarrow>
      inv st' \<and> sessions st' = m"
    and get_found: "inv st \<Longrightarrow> st_Get S st (Some i) = (st', Inr s) \<Longrightarrow>
      inv st' \<and> sessions st' = sessions st \<and> sessions st i = Some (stored_of s)"
    and user_sessions: "inv st \<Longrightarrow> st_GetUserSessions S st (Some u) = (st', Inr is) \<Longrightarrow>
      sessions st i = Some x \<Longrightarrow> sd_user x = u \<Longrightarrow> sd_status x \<noteq> StatusExpired \<Longrightarrow> Some i \<in> set is"
begin

lemma run:
  "inv st \<Longrightarrow> store_run S st ps = Some st' \<Longrightarrow> spec_run (sessions st) ps = Some m \<Longrightarrow>
     inv st' \<and> sessions st' = m"
proof (induction ps arbitrary: st)
  case (Cons p ps)
  then obtain st1 where st1: "store_step S st p = (st1, None)" "store_run S st1 ps = Some st'"
    by (auto split: prod.splits option.splits)
  from Cons.prems(3) obtain m1 where m1: "spec_step (sessions st) p = Some m1" "spec_run m1 ps = Some m"
    by (auto split: option.splits)
  from step [OF Cons.prems(1) st1(1) m1(1)] have "inv st1" "sessions st1 = m1" by auto
  with Cons.IH st1(2) m1(2) show ?case by simp
qed simp

lemma get_after_run:
  assumes "inv st" "store_run S st ps = Some st'" "spec_run (sessions st) ps = Some m"
    and "st_Get S st' (Some i) = (st'', Inr s)"
  shows "m i = Some (stored_of s)"
  using run [OF assms(1-3)] get_found [OF _ assms(4)] by auto

lemma get_missing:
  assumes "inv st" "sessions st i = None"
  shows "\<exists>e. snd (st_Get S st (Some i)) = Inl e"
proof (cases "snd (st_Get S st (Some i))")
  case (Inr s)
  then have "st_Get S st (Some i) = (fst (st_Get S st (Some i)), Inr s)"
    by (simp add: prod_eq_iff)
  with get_found [OF assms(1)] assms(2) show ?thesis by fastforce
qed simp

end

end
