(* ===== verification/Redis_Service.thy ===== *)
theory Redis_Service
  imports FProto_Prelude
begin

text \<open>
  The Redis server behind \<open>proto-core/session/redis_store.go\<close>, \<open>server/internal/sync/dedup.go\<close>
  and \<open>server/internal/senderkeys/store.go\<close>. It is not code of the repository: the stores take
  its operations as a parameter, the record \<open>redis_ops\<close>, and rely on the documented effect of
  each command, which the locale \<open>redis_service\<close> states over an abstract view of the key space.
  The second half interprets the locale on an in-memory server with lazy key expiry, type
  checks and an availability switch.
\<close>

section \<open>Commands and their documented effect\<close>

datatype redis_cmd =
    HSet string "(string \<times> string) list"
  | HDel string string
  | Del string
  | SAdd string string
  | SRem string string
  | Expire string duration

record 'r redis_ops =
  rd_Exec :: "'r \<Rightarrow> redis_cmd list \<Rightarrow> 'r \<times> goerr option"
  rd_HGetAll :: "'r \<Rightarrow> string \<Rightarrow> goerr + (string \<times> string) list"
  rd_HGet :: "'r \<Rightarrow> string \<Rightarrow> string \<Rightarrow> goerr + string option"
  rd_SMembers :: "'r \<Rightarrow> string \<Rightarrow> goerr + string list"
  rd_SetNX :: "'r \<Rightarrow> string \<Rightarrow> string \<Rightarrow> duration \<Rightarrow> 'r \<times> (goerr + bool)"

text \<open>
  What a client can observe: per key a hash, a set or a string, all empty when the key does not
  exist, and the instant at which the key expires.
\<close>

record redis_view =
  v_now :: time
  v_hash :: "string \<Rightarrow> string \<rightharpoonup> string"
  v_set :: "string \<Rightarrow> string set"
  v_str :: "string \<rightharpoonup> string"
  v_deadline :: "string \<rightharpoonup> time"

definition key_exists :: "redis_view \<Rightarrow> string \<Rightarrow> bool" where
  "key_exists v k \<longleftrightarrow> v_hash v k \<noteq> Map.empty \<or> v_set v k \<noteq> {} \<or> v_str v k \<noteq> None"

definition hash_key :: "redis_view \<Rightarrow> string \<Rightarrow> bool" where
  "hash_key v k \<longleftrightarrow> v_set v k = {} \<and> v_str v k = None"

definition set_key :: "redis_view \<Rightarrow> string \<Rightarrow> bool" where
  "set_key v k \<longleftrightarrow> v_hash v k = Map.empty \<and> v_str v k = None"

text \<open>
  \<open>EXPIRE\<close> takes whole seconds: the client rounds a shorter positive duration up to one second
  and truncates any other.
\<close>

definition expire_seconds :: "duration \<Rightarrow> int" where
  "expire_seconds d = (if 0 < d \<and> d < Second then 1 else d div Second)"

definition view_del :: "string \<Rightarrow> redis_view \<Rightarrow> redis_view" where
  "view_del k v = v\<lparr>v_hash := (v_hash v)(k := Map.empty), v_set := (v_set v)(k := {}),
     v_str := (v_str v)(k := None), v_deadline := (v_deadline v)(k := None)\<rparr>"

definition set_hash :: "string \<Rightarrow> (string \<rightharpoonup> string) \<Rightarrow> redis_view \<Rightarrow> redis_view" where
  "set_hash k h v = v\<lparr>v_hash := (v_hash v)(k := h),
     v_deadline := (v_deadline v)(k := (if h = Map.empty then None else v_deadline v k))\<rparr>"

definition set_members :: "string \<Rightarrow> string set \<Rightarrow> redis_view \<Rightarrow> redis_view" where
  "set_members k ms v = v\<lparr>v_set := (v_set v)(k := ms),
     v_deadline := (v_deadline v)(k := (if ms = {} then None else v_deadline v k))\<rparr>"

fun cmd_effect :: "redis_cmd \<Rightarrow> redis_view \<Rightarrow> redis_view" where
  "cmd_effect (HSet k fs) v = set_hash k (fold (\<lambda>(f, x) h. h(f \<mapsto> x)) fs (v_hash v k)) v"
| "cmd_effect (HDel k f) v = set_hash k ((v_hash v k)(f := None)) v"
| "cmd_effect (Del k) v = view_del k v"
| "cmd_effect (SAdd k m) v = set_members k (insert m (v_set v k)) v"
| "cmd_effect (SRem k m) v = set_members k (v_set v k - {m}) v"
| "cmd_effect (Expire k d) v =
     (if \<not> key_exists v k then v
      else if expire_seconds d \<le> 0 then view_del k v
      else v\<lparr>v_deadline := (v_deadline v)(k \<mapsto> v_now v + expire_seconds d * Second)\<rparr>)"

fun cmd_typed :: "redis_cmd \<Rightarrow> redis_view \<Rightarrow> bool" where
  "cmd_typed (HSet k fs) v = (hash_key v k \<and> fs \<noteq> [])"
| "cmd_typed (HDel k f) v = hash_key v k"
| "cmd_typed (Del k) v = True"
| "cmd_typed (SAdd k m) v = set_key v k"
| "cmd_typed (SRem k m) v = set_key v k"
| "cmd_typed (Expire k d) v = True"

fun cmds_typed :: "redis_cmd list \<Rightarrow> redis_view \<Rightarrow> bool" where
  "cmds_typed [] v = True"
| "cmds_typed (c # cs) v = (cmd_typed c v \<and> cmds_typed cs (cmd_effect c v))"

text \<open>The passage of time removes the keys whose deadline it reaches.\<close>

definition view_advance :: "duration \<Rightarrow> redis_view \<Rightarrow> redis_view" where
  "view_advance d v =
     (let dead = (\<lambda>k. \<exists>t. v_deadline v k = Some t \<and> t \<le> v_now v + d) in
      \<lparr>v_now = v_now v + d,
       v_hash = (\<lambda>k. if dead k then Map.empty else v_hash v k),
       v_set = (\<lambda>k. if dead k then {} else v_set v k),
       v_str = (\<lambda>k. if dead k then None else v_str v k),
       v_deadline = (\<lambda>k. if dead k then None else v_deadline v k)\<rparr>)"

definition setnx_effect :: "string \<Rightarrow> string \<Rightarrow> duration \<Rightarrow> redis_view \<Rightarrow> redis_view" where
  "setnx_effect k x d v =
     (if key_exists v k then v
      else v\<lparr>v_str := (v_str v)(k \<mapsto> x), v_deadline := (v_deadline v)(k \<mapsto> v_now v + d)\<rparr>)"

lemma view_del_sel [simp]:
  "v_now (view_del k v) = v_now v" "v_hash (view_del k v) = (v_hash v)(k := Map.empty)"
  "v_set (view_del k v) = (v_set v)(k := {})" "v_str (view_del k v) = (v_str v)(k := None)"
  "v_deadline (view_del k v) = (v_deadline v)(k := None)"
  by (simp_all add: view_del_def)

lemma set_hash_sel [simp]:
  "v_now (set_hash k h v) = v_now v" "v_hash (set_hash k h v) = (v_hash v)(k := h)"
  "v_set (set_hash k h v) = v_set v" "v_str (set_hash k h v) = v_str v"
  "v_deadline (set_hash k h v) =
     (v_deadline v)(k := (if h = Map.empty then None else v_deadline v k))"
  by (simp_all add: set_hash_def)

lemma set_members_sel [simp]:
  "v_now (set_members k ms v) = v_now v" "v_hash (set_members k ms v) = v_hash v"
  "v_set (set_members k ms v) = (v_set v)(k := ms)" "v_str (set_members k ms v) = v_str v"
  "v_deadline (set_members k ms v) =
     (v_deadline v)(k := (if ms = {} then None else v_deadline v k))"
  by (simp_all add: set_members_def)

section \<open>The service the stores rely on\<close>

text \<open>
  \<open>avail r\<close> says the server answers; nothing is assumed about a command that returns an error
  (a pipeline that fails may have run in part). Hash fields come back in any order.
\<close>

locale redis_service =
  fixes R :: "'r redis_ops"
    and view :: "'r \<Rightarrow> redis_view"
    and avail :: "'r \<Rightarrow> bool"
    and advance :: "duration \<Rightarrow> 'r \<Rightarrow> 'r"
  assumes exec_effect: "rd_Exec R r cs = (r', None) \<Longrightarrow> view r' = fold cmd_effect cs (view r)"
    and exec_avail: "avail r \<Longrightarrow> cmds_typed cs (view r) \<Longrightarrow>
      \<exists>r'. rd_Exec R r cs = (r', None) \<and> avail r'"
    and hgetall: "rd_HGetAll R r k = Inr vs \<Longrightarrow> distinct (map fst vs) \<and> map_of vs = v_hash (view r) k"
    and hgetall_avail: "avail r \<Longrightarrow> hash_key (view r) k \<Longrightarrow> \<exists>vs. rd_HGetAll R r k = Inr vs"
    and hget: "rd_HGet R r k f = Inr y \<Longrightarrow> y = v_hash (view r) k f"
    and hget_avail: "avail r \<Longrightarrow> hash_key (view r) k \<Longrightarrow> \<exists>y. rd_HGet R r k f = Inr y"
    and smembers: "rd_SMembers R r k = Inr ms \<Longrightarrow> distinct ms \<and> set ms = v_set (view r) k"
    and smembers_avail: "avail r \<Longrightarrow> set_key (view r) k \<Longrightarrow> \<exists>ms. rd_SMembers R r k = Inr ms"
    and setnx: "0 < d \<Longrightarrow> d mod Second = 0 \<Longrightarrow> rd_SetNX R r k x d = (r', Inr b) \<Longrightarrow>
      b = (\<not> key_exists (view r) k) \<and> view r' = setnx_effect k x d (view r)"
    and setnx_avail: "avail r \<Longrightarrow> \<exists>r' b. rd_SetNX R r k x d = (r', Inr b) \<and> avail r'"
    and advance: "0 \<le> d \<Longrightarrow> view (advance d r) = view_advance d (view r)"
begin

lemma exec_view:
  assumes "avail r" "cmds_typed cs (view r)"
  obtains r' where "rd_Exec R r cs = (r', None)" "avail r'" "view r' = fold cmd_effect cs (view r)"
  using exec_avail [OF assms] exec_effect by blast

lemma hgetall_view:
  assumes "avail r" "hash_key (view r) k"
  obtains vs where "rd_HGetAll R r k = Inr vs" "distinct (map fst vs)" "map_of vs = v_hash (view r) k"
  using hgetall_avail [OF assms] hgetall by blast

lemma smembers_view:
  assumes "avail r" "set_key (view r) k"
  obtains ms where "rd_SMembers R r k = Inr ms" "distinct ms" "set ms = v_set (view r) k"
  using smembers_avail [OF assms] smembers by blast

end

section \<open>An in-memory server\<close>

datatype mem_val = MHash "(string \<times> string) list" | MSet "string list" | MStr string

record mem_redis =
  mem_up :: bool
  mem_now :: time
  mem_keys :: "(string \<times> mem_val \<times> time option) list"

fun mem_void :: "mem_val \<Rightarrow> bool" where
  "mem_void (MHash fs) = (fs = [])"
| "mem_void (MSet ms) = (ms = [])"
| "mem_void (MStr s) = False"

text \<open>A key with an empty value or a deadline in the past does not exist.\<close>

definition mem_get :: "mem_redis \<Rightarrow> string \<Rightarrow> (mem_val \<times> time option) option" where
  "mem_get r k =
     (case map_of (mem_keys r) k of None \<Rightarrow> None
      | Some (x, dl) \<Rightarrow>
          if mem_void x \<or> (case dl of None \<Rightarrow> False | Some t \<Rightarrow> t \<le> mem_now r) then None
          else Some (x, dl))"

definition mem_put :: "string \<Rightarrow> mem_val \<Rightarrow> time option \<Rightarrow> mem_redis \<Rightarrow> mem_redis" where
  "mem_put k x dl r = r\<lparr>mem_keys := AList.update k (x, dl) (mem_keys r)\<rparr>"

definition mem_del :: "string \<Rightarrow> mem_redis \<Rightarrow> mem_redis" where
  "mem_del k r = r\<lparr>mem_keys := AList.delete k (mem_keys r)\<rparr>"

definition wrongtype :: goerr where
  "wrongtype = ''WRONGTYPE Operation against a key holding the wrong kind of value''"

definition mem_hash :: "mem_redis \<Rightarrow> string \<Rightarrow> goerr + (string \<times> string) list \<times> time option" where
  "mem_hash r k = (case mem_get r k of None \<Rightarrow> Inr ([], None)
     | Some (MHash fs, dl) \<Rightarrow> Inr (AList.clearjunk fs, dl) | Some _ \<Rightarrow> Inl wrongtype)"

definition mem_set :: "mem_redis \<Rightarrow> string \<Rightarrow> goerr + string list \<times> time option" where
  "mem_set r k = (case mem_get r k of None \<Rightarrow> Inr ([], None)
     | Some (MSet ms, dl) \<Rightarrow> Inr (remdups ms, dl) | Some _ \<Rightarrow> Inl wrongtype)"

fun mem_cmd :: "redis_cmd \<Rightarrow> mem_redis \<Rightarrow> mem_redis \<times> goerr option" where
  "mem_cmd (HSet k fs) r =
     (if fs = [] then (r, Some ''ERR wrong number of arguments'')
      else case mem_hash r k of Inl e \<Rightarrow> (r, Some e)
      | Inr (h, dl) \<Rightarrow> (mem_put k (MHash (fold (\<lambda>(f, x) h. AList.update f x h) fs h)) dl r, None))"
| "mem_cmd (HDel k f) r =
     (case mem_hash r k of Inl e \<Rightarrow> (r, Some e)
      | Inr (h, dl) \<Rightarrow> (mem_put k (MHash (AList.delete f h)) dl r, None))"
| "mem_cmd (Del k) r = (mem_del k r, None)"
| "mem_cmd (SAdd k m) r =
     (case mem_set r k of Inl e \<Rightarrow> (r, Some e)
      | Inr (ms, dl) \<Rightarrow> (mem_put k (MSet (List.insert m ms)) dl r, None))"
| "mem_cmd (SRem k m) r =
     (case mem_set r k of Inl e \<Rightarrow> (r, Some e)
      | Inr (ms, dl) \<Rightarrow> (mem_put k (MSet (removeAll m ms)) dl r, None))"
| "mem_cmd (Expire k d) r =
     (case mem_get r k of None \<Rightarrow> (r, None)
      | Some (x, _) \<Rightarrow>
          if expire_seconds d \<le> 0 then (mem_del k r, None)
          else (mem_put k x (Some (mem_now r + expire_seconds d * Second)) r, None))"

fun mem_cmds :: "redis_cmd list \<Rightarrow> mem_redis \<Rightarrow> mem_redis \<times> goerr option" where
  "mem_cmds [] r = (r, None)"
| "mem_cmds (c # cs) r =
     (let (r1, e1) = mem_cmd c r; (r2, e2) = mem_cmds cs r1
      in (r2, if e1 = None then e2 else e1))"

definition refused :: goerr where "refused = ''dial tcp: connection refused''"

definition mem_ops :: "mem_redis redis_ops" where
  "mem_ops = \<lparr>
     rd_Exec = (\<lambda>r cs. if mem_up r then mem_cmds cs r else (r, Some refused)),
     rd_HGetAll = (\<lambda>r k. if \<not> mem_up r then Inl refused
       else case mem_hash r k of Inl e \<Rightarrow> Inl e | Inr (h, _) \<Rightarrow> Inr h),
     rd_HGet = (\<lambda>r k f. if \<not> mem_up r then Inl refused
       else case mem_hash r k of Inl e \<Rightarrow> Inl e | Inr (h, _) \<Rightarrow> Inr (map_of h f)),
     rd_SMembers = (\<lambda>r k. if \<not> mem_up r then Inl refused
       else case mem_set r k of Inl e \<Rightarrow> Inl e | Inr (ms, _) \<Rightarrow> Inr ms),
     rd_SetNX = (\<lambda>r k x d. if \<not> mem_up r then (r, Inl refused)
       else if mem_get r k = None then (mem_put k (MStr x) (Some (mem_now r + d)) r, Inr True)
       else (r, Inr False))\<rparr>"

definition mem_advance :: "duration \<Rightarrow> mem_redis \<Rightarrow> mem_redis" where
  "mem_advance d r = r\<lparr>mem_now := mem_now r + d\<rparr>"

definition mem_view :: "mem_redis \<Rightarrow> redis_view" where
  "mem_view r = \<lparr>v_now = mem_now r,
     v_hash = (\<lambda>k. case mem_get r k of Some (MHash fs, _) \<Rightarrow> map_of fs | _ \<Rightarrow> Map.empty),
     v_set = (\<lambda>k. case mem_get r k of Some (MSet ms, _) \<Rightarrow> set ms | _ \<Rightarrow> {}),
     v_str = (\<lambda>k. case mem_get r k of Some (MStr s, _) \<Rightarrow> Some s | _ \<Rightarrow> None),
     v_deadline = (\<lambda>k. case mem_get r k of Some (_, dl) \<Rightarrow> dl | None \<Rightarrow> None)\<rparr>"

definition mem_start :: mem_redis where
  "mem_start = \<lparr>mem_up = True, mem_now = 0, mem_keys = []\<rparr>"

lemma mem_get_put:
  "mem_get (mem_put k x dl r) k' =
     (if k' = k then
        (if mem_void x \<or> (case dl of None \<Rightarrow> False | Some t \<Rightarrow> t \<le> mem_now r) then None
         else Some (x, dl))
      else mem_get r k')"
  by (auto simp: mem_get_def mem_put_def update_conv' split: option.splits)

lemma mem_get_del: "mem_get (mem_del k r) k' = (if k' = k then None else mem_get r k')"
  by (auto simp: mem_get_def mem_del_def delete_conv' split: option.splits)

lemma mem_now_simps [simp]:
  "mem_now (mem_put k x dl r) = mem_now r" "mem_now (mem_del k r) = mem_now r"
  "mem_up (mem_put k x dl r) = mem_up r" "mem_up (mem_del k r) = mem_up r"
  by (simp_all add: mem_put_def mem_del_def)

lemma mem_get_live:
  "mem_get r k = Some (x, dl) \<Longrightarrow> \<not> mem_void x \<and> (\<forall>t. dl = Some t \<longrightarrow> mem_now r < t)"
  by (auto simp: mem_get_def split: option.splits if_splits)

lemma map_of_fold_update:
  "map_of (fold (\<lambda>(f, x) h. AList.update f x h) fs h) = fold (\<lambda>(f, x) m. m(f \<mapsto> x)) fs (map_of h)"
  by (induction fs arbitrary: h) (auto simp: update_conv')

lemma fold_update_Nil [simp]:
  "fold (\<lambda>(f, x) h. AList.update f x h) fs h = [] \<longleftrightarrow> fs = [] \<and> h = []"
proof (induction fs arbitrary: h)
  case (Cons p fs)
  have "AList.update f x h \<noteq> []" for f x by (cases h) auto
  with Cons show ?case by (auto split: prod.splits)
qed simp

lemma map_of_empty_iff [simp]: "map_of xs = Map.empty \<longleftrightarrow> xs = []"
  by (cases xs) (auto dest: fun_cong)

lemma mem_cmd_now: "mem_now (fst (mem_cmd c r)) = mem_now r \<and> mem_up (fst (mem_cmd c r)) = mem_up r"
  by (cases c) (auto split: sum.splits option.splits)

lemma mem_view_eqI:
  assumes "v_now w = mem_now r"
    and "\<And>k. v_hash w k = (case mem_get r k of Some (MHash fs, _) \<Rightarrow> map_of fs | _ \<Rightarrow> Map.empty)"
    and "\<And>k. v_set w k = (case mem_get r k of Some (MSet ms, _) \<Rightarrow> set ms | _ \<Rightarrow> {})"
    and "\<And>k. v_str w k = (case mem_get r k of Some (MStr s, _) \<Rightarrow> Some s | _ \<Rightarrow> None)"
    and "\<And>k. v_deadline w k = (case mem_get r k of Some (_, dl) \<Rightarrow> dl | None \<Rightarrow> None)"
  shows "mem_view r = w"
  using assms by (intro redis_view.equality) (auto simp: mem_view_def)

lemma mem_view_sel:
  "v_now (mem_view r) = mem_now r"
  "v_hash (mem_view r) k = (case mem_get r k of Some (MHash fs, _) \<Rightarrow> map_of fs | _ \<Rightarrow> Map.empty)"
  "v_set (mem_view r) k = (case mem_get r k of Some (MSet ms, _) \<Rightarrow> set ms | _ \<Rightarrow> {})"
  "v_str (mem_view r) k = (case mem_get r k of Some (MStr s, _) \<Rightarrow> Some s | _ \<Rightarrow> None)"
  "v_deadline (mem_view r) k = (case mem_get r k of Some (_, dl) \<Rightarrow> dl | None \<Rightarrow> None)"
  by (simp_all add: mem_view_def)

lemma mem_hash_Inr:
  "mem_hash r k = Inr (h, dl) \<Longrightarrow>
     v_hash (mem_view r) k = map_of h \<and> v_set (mem_view r) k = {} \<and> v_str (mem_view r) k = None \<and>
     v_deadline (mem_view r) k = dl \<and> distinct (map fst h) \<and> (\<forall>t. dl = Some t \<longrightarrow> mem_now r < t)"
  by (auto simp: mem_hash_def mem_view_sel map_of_clearjunk distinct_clearjunk
      split: option.splits mem_val.splits dest: mem_get_live)

lemma mem_set_Inr:
  "mem_set r k = Inr (ms, dl) \<Longrightarrow>
     v_set (mem_view r) k = set ms \<and> v_hash (mem_view r) k = Map.empty \<and> v_str (mem_view r) k = None \<and>
     v_deadline (mem_view r) k = dl \<and> distinct ms \<and> (\<forall>t. dl = Some t \<longrightarrow> mem_now r < t)"
  by (auto simp: mem_set_def mem_view_sel split: option.splits mem_val.splits dest: mem_get_live)

lemma mem_hash_view: "mem_hash r k = Inr (h, dl) \<Longrightarrow> v_hash (mem_view r) k = map_of h"
  using mem_hash_Inr by blast

lemma mem_set_view: "mem_set r k = Inr (ms, dl) \<Longrightarrow> v_set (mem_view r) k = set ms"
  using mem_set_Inr by blast

lemma key_exists_mem_view: "key_exists (mem_view r) k \<longleftrightarrow> mem_get r k \<noteq> None"
proof (cases "mem_get r k")
  case (Some p)
  then obtain x dl where "mem_get r k = Some (x, dl)" by (cases p) auto
  moreover from mem_get_live [OF this] have "\<not> mem_void x" by simp
  ultimately show ?thesis by (cases x) (auto simp: key_exists_def mem_view_sel)
qed (simp add: key_exists_def mem_view_sel)

lemma mem_hash_ok: "hash_key (mem_view r) k \<Longrightarrow> \<exists>h dl. mem_hash r k = Inr (h, dl)"
  using mem_get_live [of r k]
  by (auto simp: hash_key_def mem_hash_def mem_view_sel split: option.splits mem_val.splits)

lemma mem_set_ok: "set_key (mem_view r) k \<Longrightarrow> \<exists>ms dl. mem_set r k = Inr (ms, dl)"
  using mem_get_live [of r k]
  by (auto simp: set_key_def mem_set_def mem_view_sel split: option.splits mem_val.splits)

text \<open>Storing a hash or a set under a key of that type, or no key, is the abstract update.\<close>

lemma mem_view_put_hash:
  assumes "mem_hash r k = Inr (h, dl)"
  shows "mem_view (mem_put k (MHash h') dl r) = set_hash k (map_of h') (mem_view r)"
  using mem_hash_Inr [OF assms]
  by (intro mem_view_eqI) (auto simp: mem_get_put mem_view_sel split: option.splits)

lemma mem_view_put_set:
  assumes "mem_set r k = Inr (ms, dl)"
  shows "mem_view (mem_put k (MSet ms') dl r) = set_members k (set ms') (mem_view r)"
  using mem_set_Inr [OF assms]
  by (intro mem_view_eqI) (auto simp: mem_get_put mem_view_sel split: option.splits)

lemma mem_view_del: "mem_view (mem_del k r) = view_del k (mem_view r)"
  by (intro mem_view_eqI) (auto simp: mem_get_del mem_view_sel)

lemma mem_view_put_deadline:
  assumes "mem_get r k = Some (x, dl)" "mem_now r < t"
  shows "mem_view (mem_put k x (Some t) r)
    = (mem_view r)\<lparr>v_deadline := (v_deadline (mem_view r))(k \<mapsto> t)\<rparr>"
  using mem_get_live [OF assms(1)] assms
  by (intro mem_view_eqI) (auto simp: mem_get_put mem_view_sel)

lemma mem_cmd_effect:
  assumes "mem_cmd c r = (r', None)"
  shows "mem_view r' = cmd_effect c (mem_view r)"
proof (cases c)
  case (Expire k d)
  with assms show ?thesis
    by (auto simp: key_exists_mem_view mem_view_del mem_view_sel(1) Second_def
        split: option.splits if_splits intro!: mem_view_put_deadline)
qed (use assms in \<open>auto simp: mem_view_put_hash mem_view_put_set mem_view_del map_of_fold_update
      delete_conv' mem_hash_view mem_set_view split: sum.splits if_splits\<close>)

lemma mem_cmd_typed:
  assumes "cmd_typed c (mem_view r)"
  shows "\<exists>r'. mem_cmd c r = (r', None)"
  using assms by (cases c) (auto dest!: mem_hash_ok mem_set_ok split: option.splits)

lemma mem_cmds_effect: "mem_cmds cs r = (r', None) \<Longrightarrow> mem_view r' = fold cmd_effect cs (mem_view r)"
  by (induction cs arbitrary: r) (auto split: prod.splits if_splits dest!: mem_cmd_effect)

lemma mem_cmds_typed: "cmds_typed cs (mem_view r) \<Longrightarrow> mem_up r \<Longrightarrow>
    \<exists>r'. mem_cmds cs r = (r', None) \<and> mem_up r'"
proof (induction cs arbitrary: r)
  case (Cons c cs)
  then obtain r1 where r1: "mem_cmd c r = (r1, None)" using mem_cmd_typed by fastforce
  moreover have "mem_up r1" using mem_cmd_now [of c r] r1 Cons.prems by simp
  moreover have "cmds_typed cs (mem_view r1)" using mem_cmd_effect [OF r1] Cons.prems by simp
  ultimately show ?case using Cons.IH by fastforce
qed simp

lemma mem_view_advance: "0 \<le> d \<Longrightarrow> mem_view (mem_advance d r) = view_advance d (mem_view r)"
  by (intro mem_view_eqI)
    (auto simp: mem_advance_def mem_view_sel view_advance_def mem_get_def split: option.splits)

interpretation mem: redis_service mem_ops mem_view mem_up mem_advance
proof
  fix r r' :: mem_redis and cs k f vs ms d x y b
  show "rd_Exec mem_ops r cs = (r', None) \<Longrightarrow> mem_view r' = fold cmd_effect cs (mem_view r)"
    by (simp add: mem_ops_def mem_cmds_effect split: if_splits)
  show "mem_up r \<Longrightarrow> cmds_typed cs (mem_view r) \<Longrightarrow> \<exists>r'. rd_Exec mem_ops r cs = (r', None) \<and> mem_up r'"
    by (simp add: mem_ops_def mem_cmds_typed)
  show "rd_HGetAll mem_ops r k = Inr vs \<Longrightarrow> distinct (map fst vs) \<and> map_of vs = v_hash (mem_view r) k"
    by (auto simp: mem_ops_def split: if_splits sum.splits dest: mem_hash_Inr)
  show "mem_up r \<Longrightarrow> hash_key (mem_view r) k \<Longrightarrow> \<exists>vs. rd_HGetAll mem_ops r k = Inr vs"
    by (auto simp: mem_ops_def dest!: mem_hash_ok)
  show "rd_HGet mem_ops r k f = Inr y \<Longrightarrow> y = v_hash (mem_view r) k f"
    by (auto simp: mem_ops_def split: if_splits sum.splits dest: mem_hash_Inr)
  show "mem_up r \<Longrightarrow> hash_key (mem_view r) k \<Longrightarrow> \<exists>y. rd_HGet mem_ops r k f = Inr y"
    by (auto simp: mem_ops_def dest!: mem_hash_ok)
  show "rd_SMembers mem_ops r k = Inr ms \<Longrightarrow> distinct ms \<and> set ms = v_set (mem_view r) k"
    by (auto simp: mem_ops_def split: if_splits sum.splits dest: mem_set_Inr)
  show "mem_up r \<Longrightarrow> set_key (mem_view r) k \<Longrightarrow> \<exists>ms. rd_SMembers mem_ops r k = Inr ms"
    by (auto simp: mem_ops_def dest!: mem_set_ok)
  show "rd_SetNX mem_ops r k x d = (r', Inr b) \<Longrightarrow>
      b = (\<not> key_exists (mem_view r) k) \<and> mem_view r' = setnx_effect k x d (mem_view r)"
    if "0 < d" "d mod Second = 0"
    using that by (auto simp: mem_ops_def key_exists_mem_view setnx_effect_def mem_get_put mem_view_sel
        split: if_splits intro!: mem_view_eqI)
  show "mem_up r \<Longrightarrow> \<exists>r' b. rd_SetNX mem_ops r k x d = (r', Inr b) \<and> mem_up r'"
    by (auto simp: mem_ops_def)
  show "0 \<le> d \<Longrightarrow> mem_view (mem_advance d r) = view_advance d (mem_view r)"
    by (rule mem_view_advance)
qed

end
