(* ===== verification/Go_Json.thy ===== *)
theory Go_Json
  imports FProto_Prelude
begin

text \<open>
  \<open>encoding/json\<close> as far as the sources use it: documents as trees, \<open>json.Marshal\<close>'s compact
  rendering with Go's string escapes, the parser behind \<open>json.Unmarshal\<close>, and the rules by
  which an object fills a struct (unknown keys skipped, \<open>null\<close> ignored, a mismatch reported but
  not stopping the other fields). \<open>[]byte\<close> members are base64 strings. The decoder's nesting
  limit of 10000 is not modelled. The main result is the round trip of printing and parsing.
\<close>

datatype json =
    JNull
  | JBool bool
  | JNum string
  | JStr string
  | JArr "json list"
  | JObj "(string \<times> json) list"

section \<open>UTF-8\<close>

definition code :: "char \<Rightarrow> nat" where "code c = of_char c"

definition is_cont :: "char \<Rightarrow> bool" where "is_cont c \<longleftrightarrow> 128 \<le> code c \<and> code c < 192"

text \<open>The length of the valid encoded rune at the head of a string, 0 if there is none.\<close>

definition rune_len :: "string \<Rightarrow> nat" where
  "rune_len s = (case s of [] \<Rightarrow> 0 | c # t \<Rightarrow> (let b = code c in
     if b < 128 then 1
     else if 194 \<le> b \<and> b < 224 then (if t \<noteq> [] \<and> is_cont (hd t) then 2 else 0)
     else if 224 \<le> b \<and> b < 240 then
       (case t of x # y # _ \<Rightarrow>
          if is_cont x \<and> is_cont y \<and> (b = 224 \<longrightarrow> 160 \<le> code x) \<and> (b = 237 \<longrightarrow> code x < 160) then 3 else 0
        | _ \<Rightarrow> 0)
     else if 240 \<le> b \<and> b < 245 then
       (case t of x # y # z # _ \<Rightarrow>
          if is_cont x \<and> is_cont y \<and> is_cont z \<and> (b = 240 \<longrightarrow> 144 \<le> code x) \<and> (b = 244 \<longrightarrow> code x < 144)
          then 4 else 0
        | _ \<Rightarrow> 0)
     else 0))"

definition replacement :: string where
  "replacement = [char_of (239 :: nat), char_of (191 :: nat), char_of (189 :: nat)]"

definition encode_rune :: "nat \<Rightarrow> string" where
  "encode_rune r =
     (if r < 128 then [char_of r]
      else if r < 2048 then [char_of (192 + r div 64), char_of (128 + r mod 64)]
      else if 55296 \<le> r \<and> r < 57344 then replacement
      else if r < 65536 then [char_of (224 + r div 4096), char_of (128 + r div 64 mod 64), char_of (128 + r mod 64)]
      else if r < 1114112 then [char_of (240 + r div 262144), char_of (128 + r div 4096 mod 64),
        char_of (128 + r div 64 mod 64), char_of (128 + r mod 64)]
      else replacement)"

function sanitize :: "string \<Rightarrow> string" where
  "sanitize s = (if s = [] then []
     else let n = rune_len s in
       if n = 0 then replacement @ sanitize (tl s)
       else take n s @ sanitize (drop n s))"
  by pat_completeness auto
termination
  by (relation "measure length") auto

declare sanitize.simps [simp del]

section \<open>Printing\<close>

definition esc_char :: "char \<Rightarrow> string" where
  "esc_char c = (let n = code c in
     if n = 34 \<or> n = 92 then [CHR 0x5C, c]
     else if n = 8 then [CHR 0x5C, CHR ''b''] else if n = 12 then [CHR 0x5C, CHR ''f'']
     else if n = 10 then [CHR 0x5C, CHR ''n''] else if n = 13 then [CHR 0x5C, CHR ''r'']
     else if n = 9 then [CHR 0x5C, CHR ''t'']
     else if n < 32 \<or> n = 60 \<or> n = 62 \<or> n = 38
       then [CHR 0x5C, CHR ''u'', CHR ''0'', CHR ''0'', hex_char (n div 16), hex_char (n mod 16)]
     else [c])"

function quote_body :: "string \<Rightarrow> string" where
  "quote_body s = (if s = [] then []
     else if code (hd s) < 128 then esc_char (hd s) @ quote_body (tl s)
     else let n = rune_len s in
       if n = 0 then CHR 0x5C # ''ufffd'' @ quote_body (tl s)
       else if take n s = encode_rune 8232 then CHR 0x5C # ''u2028'' @ quote_body (drop n s)
       else if take n s = encode_rune 8233 then CHR 0x5C # ''u2029'' @ quote_body (drop n s)
       else take n s @ quote_body (drop n s))"
  by pat_completeness auto
termination
  by (relation "measure length") auto

declare quote_body.simps [simp del]

definition json_quote :: "string \<Rightarrow> string" where
  "json_quote s = CHR 0x22 # quote_body s @ [CHR 0x22]"

fun intercalate :: "char \<Rightarrow> string list \<Rightarrow> string" where
  "intercalate c [] = []"
| "intercalate c [x] = x"
| "intercalate c (x # y # xs) = x @ c # intercalate c (y # xs)"

fun json_print :: "json \<Rightarrow> string" where
  "json_print JNull = ''null''"
| "json_print (JBool b) = (if b then ''true'' else ''false'')"
| "json_print (JNum n) = n"
| "json_print (JStr s) = json_quote s"
| "json_print (JArr js) = CHR ''['' # intercalate CHR '','' (map json_print js) @ [CHR '']'']"
| "json_print (JObj ms) =
     CHR ''{'' # intercalate CHR '','' (map (\<lambda>m. json_quote (fst m) @ CHR '':'' # json_print (snd m)) ms) @ [CHR ''}'']"

section \<open>Parsing\<close>

definition is_ws :: "char \<Rightarrow> bool" where
  "is_ws c \<longleftrightarrow> code c \<in> {32, 9, 10, 13}"

definition skip_ws :: "string \<Rightarrow> string" where
  "skip_ws s = dropWhile is_ws s"

definition expect :: "char \<Rightarrow> string \<Rightarrow> string option" where
  "expect c s = (case skip_ws s of [] \<Rightarrow> None | x # xs \<Rightarrow> if x = c then Some xs else None)"

definition hex4 :: "string \<Rightarrow> nat option" where
  "hex4 s = (case s of a # b # c # d # _ \<Rightarrow>
       (case (unhex a, unhex b, unhex c, unhex d) of
          (Some w, Some x, Some y, Some z) \<Rightarrow> Some (4096 * w + 256 * x + 16 * y + z)
        | _ \<Rightarrow> None)
     | _ \<Rightarrow> None)"

definition simple_escape :: "char \<Rightarrow> char option" where
  "simple_escape c = (if code c = 34 \<or> code c = 92 \<or> code c = 47 then Some c
     else if c = CHR ''b'' then Some CHR 0x08 else if c = CHR ''f'' then Some CHR 0x0C
     else if c = CHR ''n'' then Some CHR 0x0A else if c = CHR ''r'' then Some CHR 0x0D
     else if c = CHR ''t'' then Some CHR 0x09 else None)"

text \<open>
  The text after an opening quote, up to the closing one: the unescaped contents and what
  follows. A high surrogate takes the low surrogate of the next escape with it; a lone one is
  the replacement rune.
\<close>

function parse_str :: "string \<Rightarrow> (string \<times> string) option" where
  "parse_str s = (if s = [] then None
     else if code (hd s) = 34 then Some ([], tl s)
     else if code (hd s) < 32 then None
     else if code (hd s) \<noteq> 92 then map_option (\<lambda>(r, t). (hd s # r, t)) (parse_str (tl s))
     else if length s < 2 then None
     else if s ! 1 \<noteq> CHR ''u'' then
       (case simple_escape (s ! 1) of None \<Rightarrow> None
        | Some e \<Rightarrow> map_option (\<lambda>(r, t). (e # r, t)) (parse_str (drop 2 s)))
     else (case hex4 (drop 2 s) of None \<Rightarrow> None
       | Some u \<Rightarrow>
           (if 55296 \<le> u \<and> u < 56320 \<and> take 2 (drop 6 s) = [CHR 0x5C, CHR ''u''] \<and>
               (\<exists>v \<in> set_option (hex4 (drop 8 s)). 56320 \<le> v \<and> v < 57344)
            then map_option (\<lambda>(r, t). (encode_rune (65536 + (u - 55296) * 1024 + (the (hex4 (drop 8 s)) - 56320)) @ r, t))
                   (parse_str (drop 12 s))
            else map_option (\<lambda>(r, t). (encode_rune u @ r, t)) (parse_str (drop 6 s)))))"
  by pat_completeness auto
termination
  by (relation "measure length") auto

declare parse_str.simps [simp del]

definition is_digit :: "char \<Rightarrow> bool" where "is_digit c \<longleftrightarrow> digit_val c \<noteq> None"

definition num_sign :: "string \<Rightarrow> string \<times> string" where
  "num_sign s = (if s \<noteq> [] \<and> hd s = CHR ''-'' then ([CHR ''-''], tl s) else ([], s))"

definition num_int :: "string \<Rightarrow> (string \<times> string) option" where
  "num_int s = (if s = [] \<or> \<not> is_digit (hd s) then None
     else if hd s = CHR ''0'' then Some ([CHR ''0''], tl s)
     else Some (takeWhile is_digit s, dropWhile is_digit s))"

definition num_frac :: "string \<Rightarrow> (string \<times> string) option" where
  "num_frac s = (if s \<noteq> [] \<and> hd s = CHR ''.'' then
       (let ds = takeWhile is_digit (tl s) in
        if ds = [] then None else Some (CHR ''.'' # ds, dropWhile is_digit (tl s)))
     else Some ([], s))"

definition num_exp :: "string \<Rightarrow> (string \<times> string) option" where
  "num_exp s = (if s \<noteq> [] \<and> (hd s = CHR ''e'' \<or> hd s = CHR ''E'') then
       (let t = tl s;
            (sg, u) = (if t \<noteq> [] \<and> (hd t = CHR ''+'' \<or> hd t = CHR ''-'') then ([hd t], tl t) else ([], t));
            ds = takeWhile is_digit u in
        if ds = [] then None else Some (hd s # sg @ ds, dropWhile is_digit u))
     else Some ([], s))"

definition parse_number :: "string \<Rightarrow> (string \<times> string) option" where
  "parse_number s = (let (sg, s1) = num_sign s in
     case num_int s1 of None \<Rightarrow> None
     | Some (i, s2) \<Rightarrow> (case num_frac s2 of None \<Rightarrow> None
         | Some (f, s3) \<Rightarrow> (case num_exp s3 of None \<Rightarrow> None
             | Some (e, s4) \<Rightarrow> Some (sg @ i @ f @ e, s4))))"

definition strip :: "string \<Rightarrow> string \<Rightarrow> string option" where
  "strip w s = (if take (length w) s = w then Some (drop (length w) s) else None)"

fun parse_value :: "nat \<Rightarrow> string \<Rightarrow> (json \<times> string) option"
and parse_elems :: "nat \<Rightarrow> string \<Rightarrow> (json list \<times> string) option"
and parse_members :: "nat \<Rightarrow> string \<Rightarrow> ((string \<times> json) list \<times> string) option" where
  "parse_value 0 s = None"
| "parse_value (Suc fuel) s = (case skip_ws s of [] \<Rightarrow> None
     | c # cs \<Rightarrow>
       if c = CHR ''{'' then
         (case expect CHR ''}'' cs of Some r \<Rightarrow> Some (JObj [], r)
          | None \<Rightarrow> map_option (\<lambda>(ms, r). (JObj ms, r)) (parse_members fuel cs))
       else if c = CHR ''['' then
         (case expect CHR '']'' cs of Some r \<Rightarrow> Some (JArr [], r)
          | None \<Rightarrow> map_option (\<lambda>(js, r). (JArr js, r)) (parse_elems fuel cs))
       else if c = CHR 0x22 then map_option (\<lambda>(t, r). (JStr (sanitize t), r)) (parse_str cs)
       else if c = CHR ''n'' then map_option (\<lambda>r. (JNull, r)) (strip ''ull'' cs)
       else if c = CHR ''t'' then map_option (\<lambda>r. (JBool True, r)) (strip ''rue'' cs)
       else if c = CHR ''f'' then map_option (\<lambda>r. (JBool False, r)) (strip ''alse'' cs)
       else map_option (\<lambda>(n, r). (JNum n, r)) (parse_number (c # cs)))"
| "parse_elems 0 s = None"
| "parse_elems (Suc fuel) s =
     (case parse_value fuel s of None \<Rightarrow> None
      | Some (v, r) \<Rightarrow>
          (case expect CHR '','' r of
             Some r' \<Rightarrow> map_option (\<lambda>(vs, r''). (v # vs, r'')) (parse_elems fuel r')
           | None \<Rightarrow> map_option (\<lambda>r'. ([v], r')) (expect CHR '']'' r)))"
| "parse_members 0 s = None"
| "parse_members (Suc fuel) s =
     (case expect CHR 0x22 s of None \<Rightarrow> None
      | Some t \<Rightarrow> (case parse_str t of None \<Rightarrow> None
      | Some (k, t) \<Rightarrow> (case expect CHR '':'' t of None \<Rightarrow> None
      | Some t \<Rightarrow> (case parse_value fuel t of None \<Rightarrow> None
      | Some (v, r) \<Rightarrow>
          (case expect CHR '','' r of
             Some r' \<Rightarrow> map_option (\<lambda>(ms, r''). ((sanitize k, v) # ms, r'')) (parse_members fuel r')
           | None \<Rightarrow> map_option (\<lambda>r'. ([(sanitize k, v)], r')) (expect CHR ''}'' r))))))"

definition json_parse :: "string \<Rightarrow> json option" where
  "json_parse s = (case parse_value (2 * length s + 2) s of None \<Rightarrow> None
     | Some (j, r) \<Rightarrow> if skip_ws r = [] then Some j else None)"

section \<open>The round trip of printing and parsing\<close>

definition ascii :: "string \<Rightarrow> bool" where "ascii s \<longleftrightarrow> (\<forall>c \<in> set s. code c < 128)"

definition num_lit :: "string \<Rightarrow> bool" where "num_lit s \<longleftrightarrow> parse_number s = Some (s, [])"

fun json_ok :: "json \<Rightarrow> bool" where
  "json_ok JNull = True"
| "json_ok (JBool b) = True"
| "json_ok (JNum n) = num_lit n"
| "json_ok (JStr s) = ascii s"
| "json_ok (JArr js) = (\<forall>j \<in> set js. json_ok j)"
| "json_ok (JObj ms) = (\<forall>m \<in> set ms. ascii (fst m) \<and> json_ok (snd m))"

lemma ascii_simps [simp]:
  "ascii []" "ascii (c # s) \<longleftrightarrow> code c < 128 \<and> ascii s" "ascii (s @ t) \<longleftrightarrow> ascii s \<and> ascii t"
  by (auto simp: ascii_def)

lemma code_char_of [simp]: "n < 256 \<Longrightarrow> code (char_of n) = n"
  by (simp add: code_def)

lemma char_of_code [simp]: "char_of (code c) = c"
  by (simp add: code_def)

lemma code_less [simp]: "code c < 256"
  by (metis code_def of_char_mod_256 mod_less_divisor zero_less_numeral)

lemma code_eq_iff: "n < 256 \<Longrightarrow> code c = n \<longleftrightarrow> c = char_of n"
  by (metis char_of_code code_char_of)

lemma sanitize_ascii [simp]: "ascii s \<Longrightarrow> sanitize s = s"
  by (induction s) (simp_all add: sanitize.simps rune_len_def Let_def)

lemma quote_body_ascii: "ascii s \<Longrightarrow> quote_body s = concat (map esc_char s)"
  by (induction s) (simp_all add: quote_body.simps)

lemma hex4_escape:
  "n < 256 \<Longrightarrow> hex4 (CHR ''0'' # CHR ''0'' # hex_char (n div 16) # hex_char (n mod 16) # t) = Some n"
  by (simp add: hex4_def unhex_def [of "CHR ''0''"] less_mult_imp_div_less)

lemma code_literals [simp]: "code (CHR 0x5C) = 92" "code (CHR 0x22) = 34"
  by (simp_all add: code_def)

lemma parse_str_plain:
  "code c \<noteq> 34 \<Longrightarrow> code c \<noteq> 92 \<Longrightarrow> 32 \<le> code c \<Longrightarrow>
    parse_str (c # t) = map_option (\<lambda>(r, u). (c # r, u)) (parse_str t)"
  by (subst parse_str.simps) simp

lemma parse_str_simple:
  "simple_escape x = Some e \<Longrightarrow> x \<noteq> CHR ''u'' \<Longrightarrow>
    parse_str (CHR 0x5C # x # t) = map_option (\<lambda>(r, u). (e # r, u)) (parse_str t)"
  by (subst parse_str.simps) simp

lemma parse_str_escape:
  "simple_escape x \<noteq> None \<Longrightarrow> x \<noteq> CHR ''u'' \<Longrightarrow>
    parse_str (CHR 0x5C # x # t) = map_option (\<lambda>(r, u). (the (simple_escape x) # r, u)) (parse_str t)"
  by (auto simp: parse_str_simple)

lemma parse_str_unicode:
  assumes "hex4 (a # b # c # d # t) = Some n" "n < 128"
  shows "parse_str (CHR 0x5C # CHR ''u'' # a # b # c # d # t) =
    map_option (\<lambda>(r, u). (char_of n # r, u)) (parse_str t)"
proof -
  have "\<not> 55296 \<le> n" using assms(2) by simp
  with assms show ?thesis by (subst parse_str.simps) (simp add: encode_rune_def)
qed

lemma parse_str_esc_char:
  assumes "code c < 128"
  shows "parse_str (esc_char c @ t) = map_option (\<lambda>(r, u). (c # r, u)) (parse_str t)"
proof -
  consider "code c = 34 \<or> code c = 92" | "code c \<in> {8, 12, 10, 13, 9}"
    | "code c \<notin> {34, 92, 8, 12, 10, 13, 9}" "code c < 32 \<or> code c = 60 \<or> code c = 62 \<or> code c = 38"
    | "code c \<notin> {34, 92, 60, 62, 38}" "32 \<le> code c"
    by fastforce
  then show ?thesis
  proof cases
    case 1
    then have "c \<noteq> CHR ''u''" "simple_escape c = Some c" "esc_char c = [CHR 0x5C, c]"
      by (auto simp: code_def simple_escape_def esc_char_def Let_def)
    then show ?thesis by (simp add: parse_str_simple)
  next
    case 2
    then have "c \<in> {CHR 0x08, CHR 0x0C, CHR 0x0A, CHR 0x0D, CHR 0x09}"
      by (auto simp: code_eq_iff char_of_eq_iff)
    then show ?thesis
      by (elim insertE emptyE)
        (simp_all add: esc_char_def code_def Let_def parse_str_escape simple_escape_def)
  next
    case 3
    then have "esc_char c = [CHR 0x5C, CHR ''u'', CHR ''0'', CHR ''0'', hex_char (code c div 16), hex_char (code c mod 16)]"
      by (simp add: esc_char_def Let_def)
    then show ?thesis using assms by (simp add: parse_str_unicode [OF hex4_escape])
  next
    case 4
    then have "esc_char c = [c]" by (simp add: esc_char_def Let_def)
    with 4 show ?thesis by (simp add: parse_str_plain)
  qed
qed

lemma parse_str_quoted:
  "ascii s \<Longrightarrow> parse_str (quote_body s @ CHR 0x22 # rest) = Some (s, rest)"
proof (induction s)
  case Nil
  show ?case by (subst parse_str.simps) (simp add: quote_body_ascii code_def)
next
  case (Cons c s)
  then show ?case by (simp add: quote_body_ascii parse_str_esc_char)
qed

text \<open>A number token ends before a character that cannot continue it.\<close>

definition num_stop :: "string \<Rightarrow> bool" where
  "num_stop r \<longleftrightarrow> r = [] \<or> \<not> is_digit (hd r) \<and> hd r \<notin> {CHR ''.'', CHR ''e'', CHR ''E''}"

lemma digits_stop:
  "num_stop r \<Longrightarrow> takeWhile is_digit (s @ r) = takeWhile is_digit s"
  "num_stop r \<Longrightarrow> dropWhile is_digit (s @ r) = dropWhile is_digit s @ r"
  by (induction s; cases r; simp add: num_stop_def)+

lemma num_int_append:
  "num_int s = Some (a, b) \<Longrightarrow> num_stop r \<Longrightarrow> s \<noteq> [] \<and> num_int (s @ r) = Some (a, b @ r)"
  by (auto simp: num_int_def digits_stop split: if_splits)

lemma num_frac_append:
  "num_frac s = Some (a, b) \<Longrightarrow> num_stop r \<Longrightarrow> num_frac (s @ r) = Some (a, b @ r)"
  by (cases s; cases r) (auto simp: num_frac_def digits_stop Let_def num_stop_def split: if_splits)

lemma num_exp_append:
  "num_exp s = Some (a, b) \<Longrightarrow> num_stop r \<Longrightarrow> num_exp (s @ r) = Some (a, b @ r)"
proof (cases s)
  case Nil
  assume "num_exp s = Some (a, b)" "num_stop r"
  with Nil show ?thesis by (auto simp: num_exp_def num_stop_def)
next
  case (Cons c t)
  assume *: "num_exp s = Some (a, b)" "num_stop r"
  show ?thesis
  proof (cases t)
    case Nil
    with * Cons show ?thesis by (auto simp: num_exp_def Let_def split: if_splits)
  next
    case (Cons d u)
    with * \<open>s = c # t\<close> show ?thesis by (auto simp: num_exp_def Let_def digits_stop split: if_splits)
  qed
qed

lemma parse_number_append:
  assumes "parse_number s = Some (n, [])" "num_stop r"
  shows "parse_number (s @ r) = Some (n, r)"
proof -
  obtain sg s1 i s2 f s3 e where "num_sign s = (sg, s1)" "num_int s1 = Some (i, s2)"
    "num_frac s2 = Some (f, s3)" "num_exp s3 = Some (e, [])" "n = sg @ i @ f @ e"
    using assms(1) by (auto simp: parse_number_def split: option.splits prod.splits)
  moreover from this have "num_sign (s @ r) = (sg, s1 @ r)"
    using num_int_append assms(2) by (fastforce simp: num_sign_def split: if_splits)
  ultimately show ?thesis
    using num_int_append num_frac_append num_exp_append assms(2) by (fastforce simp: parse_number_def)
qed

lemma num_lit_hd: "num_lit s \<Longrightarrow> s \<noteq> [] \<and> (is_digit (hd s) \<or> hd s = CHR ''-'')"
  by (auto simp: num_lit_def parse_number_def num_int_def num_sign_def split: option.splits if_splits prod.splits)

lemma all_digits_show_nat: "\<forall>c \<in> set (show_nat n). is_digit c"
  by (induction n rule: show_nat.induct) (subst show_nat.simps, auto simp: is_digit_def)

lemma char_zero: "char_of (48 :: nat) = CHR ''0''"
  by (simp add: char_of_eq_iff)

lemma hd_show_nat_zero: "hd (show_nat n) = CHR ''0'' \<Longrightarrow> n = 0"
proof (induction n rule: show_nat.induct)
  case (1 n)
  show ?case
  proof (cases "n < 10")
    case True
    have "CHR ''0'' = digit_char 0" by (simp add: digit_char_def char_zero)
    with True 1 show ?thesis
      by (metis digit_val_digit_char list.sel(1) option.inject show_nat.simps zero_less_numeral)
  next
    case False
    with 1 have "n div 10 = 0" by (metis hd_append2 show_nat.simps show_nat_not_Nil)
    with False show ?thesis by simp
  qed
qed

lemma num_lit_show_nat [simp]: "num_lit (show_nat n)"
proof -
  have tw: "takeWhile is_digit (show_nat n) = show_nat n" "dropWhile is_digit (show_nat n) = []"
    using all_digits_show_nat by (simp_all add: takeWhile_eq_all_conv)
  have "num_int (show_nat n) = Some (show_nat n, [])"
  proof (cases "hd (show_nat n) = CHR ''0''")
    case True
    then have "n = 0" by (rule hd_show_nat_zero)
    then show ?thesis
      by (simp add: num_int_def is_digit_def show_nat.simps digit_char_def char_zero digit_val_def)
  next
    case False
    then show ?thesis using hd_show_nat_digit [of n] by (simp add: num_int_def is_digit_def tw)
  qed
  then show ?thesis
    by (simp add: num_lit_def parse_number_def num_sign_def num_frac_def num_exp_def)
qed

lemma num_lit_show_int [simp]: "num_lit (show_int i)"
proof (cases "i < 0")
  case True
  then show ?thesis using num_lit_show_nat [of "nat (- i)"]
    by (auto simp: show_int_def num_lit_def parse_number_def num_sign_def split: option.splits)
qed (simp add: show_int_def)

text \<open>The fuel a document needs is at most the length of its text.\<close>

fun json_need :: "json \<Rightarrow> nat" where
  "json_need (JArr js) = Suc (foldr (\<lambda>j n. Suc (max (json_need j) n)) js 0)"
| "json_need (JObj ms) = Suc (foldr (\<lambda>m n. Suc (max (json_need (snd m)) n)) ms 0)"
| "json_need _ = 1"

definition delim :: "string \<Rightarrow> bool" where
  "delim r \<longleftrightarrow> r = [] \<or> hd r \<in> {CHR '','', CHR '']'', CHR ''}''}"

lemma delim_num_stop: "delim r \<Longrightarrow> num_stop r"
  by (auto simp: delim_def num_stop_def is_digit_def digit_val_def)

lemma skip_ws_Cons [simp]: "\<not> is_ws c \<Longrightarrow> skip_ws (c # s) = c # s"
  by (simp add: skip_ws_def)

lemma expect_Cons [simp]: "\<not> is_ws x \<Longrightarrow> expect c (x # s) = (if x = c then Some s else None)"
  by (simp add: expect_def)

lemma not_ws [simp]:
  "\<not> is_ws CHR ''{''" "\<not> is_ws CHR ''}''" "\<not> is_ws CHR ''[''" "\<not> is_ws CHR '']''" "\<not> is_ws CHR '',''"
  "\<not> is_ws CHR '':''" "\<not> is_ws CHR 0x22" "\<not> is_ws CHR ''n''" "\<not> is_ws CHR ''t''" "\<not> is_ws CHR ''f''"
  by (simp_all add: is_ws_def code_def)

lemma json_print_hd:
  assumes "json_ok j"
  shows "json_print j \<noteq> [] \<and> \<not> is_ws (hd (json_print j)) \<and> hd (json_print j) \<noteq> CHR '']''"
proof (cases j)
  case (JNum n)
  with assms num_lit_hd [of n] show ?thesis
    by (auto simp: is_ws_def code_def is_digit_def digit_val_def)
qed (auto simp: json_quote_def is_ws_def code_def)

lemma expect_append_None:
  "s \<noteq> [] \<Longrightarrow> \<not> is_ws (hd s) \<Longrightarrow> hd s \<noteq> c \<Longrightarrow> expect c (s @ r) = None"
  by (cases s) simp_all

lemma parse_elems_print:
  assumes "js \<noteq> []" "\<forall>j \<in> set js. json_ok j"
    "\<And>j f r. j \<in> set js \<Longrightarrow> json_need j \<le> f \<Longrightarrow> delim r \<Longrightarrow> parse_value f (json_print j @ r) = Some (j, r)"
    "foldr (\<lambda>j n. Suc (max (json_need j) n)) js 0 \<le> f"
  shows "parse_elems f (intercalate CHR '','' (map json_print js) @ CHR '']'' # rest) = Some (js, rest)"
  using assms
proof (induction js arbitrary: f)
  case (Cons j js)
  obtain g where f: "f = Suc g" using Cons.prems(4) by (cases f) auto
  have j: "delim r \<Longrightarrow> parse_value g (json_print j @ r) = Some (j, r)" for r
    using Cons.prems(3) [of j] Cons.prems(4) f by simp
  show ?case
  proof (cases js)
    case Nil
    then show ?thesis using j by (simp add: f delim_def)
  next
    case (Cons k ks)
    then have "parse_elems g (intercalate CHR '','' (map json_print js) @ CHR '']'' # rest) = Some (js, rest)"
      using Cons.prems f by (intro Cons.IH) auto
    with Cons show ?thesis using j by (simp add: f delim_def)
  qed
qed simp

lemma parse_members_print:
  assumes "ms \<noteq> []" "\<forall>m \<in> set ms. ascii (fst m) \<and> json_ok (snd m)"
    "\<And>m f r. m \<in> set ms \<Longrightarrow> json_need (snd m) \<le> f \<Longrightarrow> delim r \<Longrightarrow>
      parse_value f (json_print (snd m) @ r) = Some (snd m, r)"
    "foldr (\<lambda>m n. Suc (max (json_need (snd m)) n)) ms 0 \<le> f"
  shows "parse_members f (intercalate CHR '','' (map (\<lambda>m. json_quote (fst m) @ CHR '':'' # json_print (snd m)) ms)
      @ CHR ''}'' # rest) = Some (ms, rest)"
  using assms
proof (induction ms arbitrary: f)
  case (Cons m ms)
  obtain k v where m: "m = (k, v)" by (cases m)
  obtain g where f: "f = Suc g" using Cons.prems(4) by (cases f) auto
  have v: "delim r \<Longrightarrow> parse_value g (json_print v @ r) = Some (v, r)" for r
    using Cons.prems(3) [of m] Cons.prems(4) f m by simp
  have k: "ascii k" using Cons.prems(2) m by simp
  show ?case
  proof (cases ms)
    case Nil
    then show ?thesis using v k m by (simp add: f delim_def json_quote_def parse_str_quoted)
  next
    case (Cons k2 ks)
    then have "parse_members g (intercalate CHR '','' (map (\<lambda>m. json_quote (fst m) @ CHR '':'' # json_print (snd m)) ms)
      @ CHR ''}'' # rest) = Some (ms, rest)"
      using Cons.prems f by (intro Cons.IH) auto
    with Cons show ?thesis using v k m by (simp add: f delim_def json_quote_def parse_str_quoted)
  qed
qed simp

lemma parse_value_print:
  "json_ok j \<Longrightarrow> json_need j \<le> f \<Longrightarrow> delim r \<Longrightarrow> parse_value f (json_print j @ r) = Some (j, r)"
proof (induction j arbitrary: f r)
  case (JNum n)
  then obtain g where f: "f = Suc g" by (cases f) auto
  obtain c cs where n: "n = c # cs" using JNum num_lit_hd by (cases n) auto
  then have "\<not> is_ws c" and c: "c \<notin> {CHR ''{'', CHR ''['', CHR 0x22, CHR ''n'', CHR ''t'', CHR ''f''}"
    using JNum num_lit_hd [of n] by (auto simp: is_ws_def code_def is_digit_def digit_val_def)
  with JNum parse_number_append [of n n r] delim_num_stop show ?case
    by (simp add: f n num_lit_def)
next
  case (JArr js)
  then obtain g where f: "f = Suc g" by (cases f) auto
  show ?case
  proof (cases js)
    case (Cons k ks)
    have "parse_elems g (intercalate CHR '','' (map json_print js) @ CHR '']'' # r) = Some (js, r)"
      using JArr Cons f by (intro parse_elems_print) auto
    moreover have "expect CHR '']'' (intercalate CHR '','' (map json_print js) @ CHR '']'' # r) = None"
      using Cons JArr.prems(1) json_print_hd [of k] by (cases ks) (simp_all add: expect_append_None)
    ultimately show ?thesis by (simp add: f)
  qed (simp add: f)
next
  case (JObj ms)
  then obtain g where f: "f = Suc g" by (cases f) auto
  let ?p = "\<lambda>m. json_quote (fst m) @ CHR '':'' # json_print (snd m)"
  show ?case
  proof (cases ms)
    case (Cons k ks)
    have "parse_members g (intercalate CHR '','' (map ?p ms) @ CHR ''}'' # r) = Some (ms, r)"
    proof (rule parse_members_print)
      show "parse_value f (json_print (snd m) @ r) = Some (snd m, r)"
        if "m \<in> set ms" "json_need (snd m) \<le> f" "delim r" for m f r
        using JObj.IH [of m "snd m"] JObj.prems(1) that by (cases m) auto
    qed (use JObj.prems Cons f in auto)
    moreover have "expect CHR ''}'' (intercalate CHR '','' (map ?p ms) @ CHR ''}'' # r) = None"
      using Cons by (cases ks) (simp_all add: json_quote_def)
    ultimately show ?thesis by (simp add: f)
  qed (simp add: f)
next
  case (JStr s)
  then show ?case by (cases f) (simp_all add: json_quote_def parse_str_quoted)
next
  case (JBool b)
  then show ?case by (cases f) (simp_all add: strip_def)
next
  case JNull
  then show ?case by (cases f) (simp_all add: strip_def)
qed

lemma length_intercalate:
  "length (intercalate c xs) = sum_list (map length xs) + (length xs - 1)"
  by (induction c xs rule: intercalate.induct) simp_all

lemma foldr_need_le:
  "(\<And>x. x \<in> set xs \<Longrightarrow> g x \<le> h x) \<Longrightarrow> foldr (\<lambda>x n. Suc (max (g x) n)) xs 0 \<le> sum_list (map h xs) + length xs"
  for g h :: "'a \<Rightarrow> nat"
proof (induction xs)
  case (Cons x xs)
  then have "g x \<le> h x" "foldr (\<lambda>x n. Suc (max (g x) n)) xs 0 \<le> sum_list (map h xs) + length xs" by auto
  then show ?case by simp
qed simp

lemma json_need_le: "json_ok j \<Longrightarrow> json_need j \<le> length (json_print j)"
proof (induction j)
  case (JNum n)
  then show ?case using num_lit_hd [of n] by (cases n) auto
next
  case (JArr js)
  then have "foldr (\<lambda>j n. Suc (max (json_need j) n)) js 0 \<le> sum_list (map (\<lambda>j. length (json_print j)) js) + length js"
    by (intro foldr_need_le) auto
  then show ?case by (simp add: length_intercalate comp_def)
next
  case (JObj ms)
  let ?p = "\<lambda>m. json_quote (fst m) @ CHR '':'' # json_print (snd m)"
  have "foldr (\<lambda>m n. Suc (max (json_need (snd m)) n)) ms 0 \<le> sum_list (map (\<lambda>m. length (?p m)) ms) + length ms"
  proof (rule foldr_need_le)
    fix m assume m: "m \<in> set ms"
    moreover have "snd m \<in> Basic_BNFs.snds m" by (metis prod_set_simps(2) prod.collapse singletonI)
    ultimately have "json_need (snd m) \<le> length (json_print (snd m))"
      using JObj.IH [of m "snd m"] JObj.prems by auto
    then show "json_need (snd m) \<le> length (?p m)" by simp
  qed
  then show ?case by (simp add: length_intercalate comp_def)
qed (auto simp: json_quote_def)

lemma json_parse_print: "json_ok j \<Longrightarrow> json_parse (json_print j) = Some j"
  using parse_value_print [of j "2 * length (json_print j) + 2" "[]"] json_need_le [of j]
  by (simp add: json_parse_def delim_def skip_ws_def)

section \<open>Base64, the rendering of byte slices\<close>

definition b64_char :: "nat \<Rightarrow> char" where
  "b64_char n = (if n < 26 then char_of (65 + n) else if n < 52 then char_of (71 + n)
     else if n < 62 then char_of (n - 4) else if n = 62 then CHR ''+'' else CHR ''/'')"

definition b64_val :: "char \<Rightarrow> nat option" where
  "b64_val c = (let n = code c in
     if 65 \<le> n \<and> n \<le> 90 then Some (n - 65) else if 97 \<le> n \<and> n \<le> 122 then Some (n - 71)
     else if 48 \<le> n \<and> n \<le> 57 then Some (n + 4) else if n = 43 then Some 62
     else if n = 47 then Some 63 else None)"

fun b64_encode :: "bytes \<Rightarrow> string" where
  "b64_encode [] = []"
| "b64_encode [a] = [b64_char (unat a div 4), b64_char (unat a mod 4 * 16), CHR ''='', CHR ''='']"
| "b64_encode [a, b] = [b64_char (unat a div 4), b64_char (unat a mod 4 * 16 + unat b div 16),
     b64_char (unat b mod 16 * 4), CHR ''='']"
| "b64_encode (a # b # c # r) =
     b64_char (unat a div 4) # b64_char (unat a mod 4 * 16 + unat b div 16)
     # b64_char (unat b mod 16 * 4 + unat c div 64) # b64_char (unat c mod 64) # b64_encode r"

fun b64_quads :: "string \<Rightarrow> bytes option" where
  "b64_quads [] = Some []"
| "b64_quads (p # q # x # y # r) =
     (case (b64_val p, b64_val q) of
        (Some a, Some b) \<Rightarrow>
          (if r = [] \<and> x = CHR ''='' \<and> y = CHR ''='' then Some [of_nat (4 * a + b div 16)]
           else (case b64_val x of None \<Rightarrow> None
             | Some c \<Rightarrow>
                 (if r = [] \<and> y = CHR ''='' then Some [of_nat (4 * a + b div 16), of_nat (16 * b + c div 4)]
                  else (case b64_val y of None \<Rightarrow> None
                    | Some d \<Rightarrow> map_option (\<lambda>bs. of_nat (4 * a + b div 16) # of_nat (16 * b + c div 4)
                        # of_nat (64 * c + d) # bs) (b64_quads r)))))
      | _ \<Rightarrow> None)"
| "b64_quads _ = None"

definition b64_decode :: "string \<Rightarrow> bytes option" where
  "b64_decode s = b64_quads (filter (\<lambda>c. code c \<noteq> 10 \<and> code c \<noteq> 13) s)"

lemma b64_val_char [simp]:
  assumes "n < 64"
  shows "b64_val (b64_char n) = Some n"
proof -
  consider "n < 26" | "26 \<le> n" "n < 52" | "52 \<le> n" "n < 62" | "n = 62" | "n = 63"
    using assms by fastforce
  then show ?thesis
  proof cases
    case 3
    then have "b64_char n = char_of (n - 4)" by (simp add: b64_char_def)
    moreover have "code (char_of (n - 4)) = n - 4" using 3 by (intro code_char_of) simp
    ultimately show ?thesis using 3 by (simp add: b64_val_def Let_def) arith
  next
    case 4
    then show ?thesis by (simp add: b64_val_def b64_char_def code_def)
  next
    case 5
    then show ?thesis by (simp add: b64_val_def b64_char_def code_def)
  qed (simp_all add: b64_val_def b64_char_def)
qed

lemma b64_char_code: "n < 64 \<Longrightarrow> 43 \<le> code (b64_char n) \<and> code (b64_char n) < 128"
  by (auto simp: b64_char_def) (simp_all add: code_def)

lemma b64_char_neq_pad [simp]: "n < 64 \<Longrightarrow> b64_char n \<noteq> CHR ''=''"
proof
  assume "n < 64" "b64_char n = CHR ''=''"
  then have "b64_val CHR ''='' = Some n" by (metis b64_val_char)
  then show False by (simp add: b64_val_def code_def)
qed

lemma byte_parts:
  fixes a b c :: byte
  shows "unat a div 4 < 64" "unat a mod 4 * 16 < 64" "unat a mod 4 * 16 + unat b div 16 < 64"
    "unat b mod 16 * 4 < 64" "unat b mod 16 * 4 + unat c div 64 < 64" "unat c mod 64 < 64"
  using unat_byte_less [of a] unat_byte_less [of b] unat_byte_less [of c] by linarith+

lemma byte_of_natI: "m mod 256 = unat x \<Longrightarrow> (of_nat m :: byte) = x"
  by (simp add: word_unat_eq_iff unat_of_nat)

lemma byte_glue:
  fixes a b c :: byte
  shows "(of_nat (unat b + 256 * k) :: byte) = b"
    "(of_nat (unat b + (256 * k + unat c div 64 div 4)) :: byte) = b"
proof -
  have c: "unat c div 64 div 4 = 0" using unat_byte_less [of c] by (simp add: div_mult2_eq [symmetric])
  show "(of_nat (unat b + 256 * k) :: byte) = b" by (rule byte_of_natI) simp
  then show "(of_nat (unat b + (256 * k + unat c div 64 div 4)) :: byte) = b" by (simp only: c) simp
qed

lemma b64_quads_encode: "b64_quads (b64_encode bs) = Some bs"
  by (induction bs rule: b64_encode.induct)
    (simp_all add: byte_parts byte_glue del: of_nat_add of_nat_mult)

lemma b64_encode_chars: "\<forall>c \<in> set (b64_encode bs). 43 \<le> code c \<and> code c < 128"
proof -
  have "code CHR ''='' = 61" by (simp add: code_def)
  then show ?thesis
    by (induction bs rule: b64_encode.induct) (simp_all add: byte_parts b64_char_code)
qed

lemma b64_decode_encode [simp]: "b64_decode (b64_encode bs) = Some bs"
proof -
  have "\<forall>c \<in> set (b64_encode bs). code c \<noteq> 10 \<and> code c \<noteq> 13"
    using b64_encode_chars [of bs] by auto
  then have "filter (\<lambda>c. code c \<noteq> 10 \<and> code c \<noteq> 13) (b64_encode bs) = b64_encode bs"
    by (rule filter_True)
  then show ?thesis by (simp add: b64_decode_def b64_quads_encode)
qed

lemma ascii_b64_encode [simp]: "ascii (b64_encode bs)"
  using b64_encode_chars by (auto simp: ascii_def)

section \<open>Filling a struct from an object\<close>

text \<open>
  A field takes a member's value into the struct, or reports a mismatch (\<open>None\<close>). A key names
  the field with exactly its name, else one equal up to ASCII case. A struct is returned with
  a flag: whether an \<open>UnmarshalTypeError\<close> or syntax error is returned beside it.
\<close>

type_synonym 's field = "json \<Rightarrow> 's \<Rightarrow> 's option"

definition lower_char :: "char \<Rightarrow> char" where
  "lower_char c = (if 65 \<le> code c \<and> code c \<le> 90 then char_of (code c + 32) else c)"

definition find_field :: "(string \<times> 's field) list \<Rightarrow> string \<Rightarrow> 's field option" where
  "find_field fs k = (case map_of fs k of Some f \<Rightarrow> Some f
     | None \<Rightarrow> map_option snd (List.find (\<lambda>(n, _). map lower_char n = map lower_char k) fs))"

fun decode_members :: "(string \<times> 's field) list \<Rightarrow> (string \<times> json) list \<Rightarrow> 's \<Rightarrow> 's \<times> bool" where
  "decode_members fs [] s = (s, False)"
| "decode_members fs ((k, v) # ms) s =
     (case find_field fs k of None \<Rightarrow> decode_members fs ms s
      | Some f \<Rightarrow> (case f v s of Some s' \<Rightarrow> decode_members fs ms s'
          | None \<Rightarrow> (fst (decode_members fs ms s), True)))"

definition decode_struct :: "(string \<times> 's field) list \<Rightarrow> json \<Rightarrow> 's \<Rightarrow> 's \<times> bool" where
  "decode_struct fs j s = (case j of JObj ms \<Rightarrow> decode_members fs ms s | JNull \<Rightarrow> (s, False) | _ \<Rightarrow> (s, True))"

definition json_unmarshal :: "(string \<times> 's field) list \<Rightarrow> string \<Rightarrow> 's \<Rightarrow> 's \<times> bool" where
  "json_unmarshal fs t s = (case json_parse t of None \<Rightarrow> (s, True) | Some j \<Rightarrow> decode_struct fs j s)"

definition str_field :: "(string \<Rightarrow> 's \<Rightarrow> 's) \<Rightarrow> 's field" where
  "str_field upd j s = (case j of JNull \<Rightarrow> Some s | JStr t \<Rightarrow> Some (upd t s) | _ \<Rightarrow> None)"

definition int64_field :: "(int \<Rightarrow> 's \<Rightarrow> 's) \<Rightarrow> 's field" where
  "int64_field upd j s = (case j of JNull \<Rightarrow> Some s
     | JNum n \<Rightarrow> (let (v, bad) = ParseInt64 n in if bad then None else Some (upd v s)) | _ \<Rightarrow> None)"

definition uint_field :: "nat \<Rightarrow> (nat \<Rightarrow> 's \<Rightarrow> 's) \<Rightarrow> 's field" where
  "uint_field width upd j s = (case j of JNull \<Rightarrow> Some s
     | JNum n \<Rightarrow> (case read_nat n of None \<Rightarrow> None
         | Some k \<Rightarrow> if k < 2 ^ width then Some (upd k s) else None) | _ \<Rightarrow> None)"

definition bytes_field :: "(slice \<Rightarrow> 's \<Rightarrow> 's) \<Rightarrow> 's field" where
  "bytes_field upd j s = (case j of JNull \<Rightarrow> Some (upd None s)
     | JStr t \<Rightarrow> (case b64_decode t of None \<Rightarrow> None | Some bs \<Rightarrow> Some (upd (Some bs) s)) | _ \<Rightarrow> None)"

text \<open>Rendering a byte slice: \<open>null\<close> when nil.\<close>

definition json_bytes :: "slice \<Rightarrow> json" where
  "json_bytes s = (case s of None \<Rightarrow> JNull | Some bs \<Rightarrow> JStr (b64_encode bs))"

lemma json_ok_bytes [simp]: "json_ok (json_bytes s)"
  by (cases s) (simp_all add: json_bytes_def)

lemma field_simps_json [simp]:
  "str_field upd (JStr t) s = Some (upd t s)"
  "in_int64 i \<Longrightarrow> int64_field ui (JNum (show_int i)) s = Some (ui i s)"
  "k < 2 ^ width \<Longrightarrow> uint_field width un (JNum (show_nat k)) s = Some (un k s)"
  "bytes_field ub (json_bytes b) s = Some (ub b s)"
  by (cases b; simp add: str_field_def int64_field_def uint_field_def bytes_field_def json_bytes_def)+

lemma json_unmarshal_print:
  "json_ok (JObj ms) \<Longrightarrow> json_unmarshal fs (json_print (JObj ms)) s = decode_members fs ms s"
  by (simp only: json_unmarshal_def json_parse_print decode_struct_def option.case json.case)

lemma find_field_exact [simp]:
  "find_field ((k, f) # fs) k = Some f"
  "k \<noteq> n \<Longrightarrow> map_of fs k = Some g \<Longrightarrow> find_field ((n, f) # fs) k = Some g"
  by (simp_all add: find_field_def)

end
