(* ===== verification/Session_Redis.thy ===== *)
theory Session_Redis
  imports Session_Store Redis_Service Go_Json
begin

text \<open>
  \<open>proto-core/session/redis_store.go\<close>: the session hash, the connections hash beside it and the
  user's set of sessions, over the Redis operations of \<open>Redis_Service\<close>. The store meets the
  contract \<open>session_store\<close> over any Redis that meets its own, and a stored session and a stored
  connection read back as they were written, up to whole seconds.
\<close>

section \<open>redis_store.go\<close>

definition NewRedisStore_ttl :: "duration \<Rightarrow> duration" where
  "NewRedisStore_ttl ttl = (if ttl = 0 then 24 * Hour else ttl)"

definition sessionKey :: "slice \<Rightarrow> string" where
  "sessionKey i = ''session:'' @ hex_encode (slice_bytes i)"

definition connKey :: "slice \<Rightarrow> string" where
  "connKey i = sessionKey i @ '':connections''"

definition userSessionsKey :: "slice \<Rightarrow> string" where
  "userSessionsKey u = ''user:'' @ hex_encode (slice_bytes u) @ '':sessions''"

definition session_fields :: "Session \<Rightarrow> (string \<times> string) list" where
  "session_fields s =
    [(''user_id'', hex_encode (slice_bytes (UserID s))),
     (''device_id'', hex_encode (slice_bytes (DeviceID s))),
     (''status'', SStatus s),
     (''crypto_state'', hex_encode (slice_bytes (CryptoState s))),
     (''created_at'', show_int (to_unix (CreatedAt s))),
     (''last_active'', show_int (to_unix (LastActive s))),
     (''expires_at'', show_int (to_unix (ExpiresAt s)))]"

definition RedisStore_Create :: "'r redis_ops \<Rightarrow> duration \<Rightarrow> 'r \<Rightarrow> Session \<Rightarrow> 'r \<times> goerr option" where
  "RedisStore_Create R ttl r s =
     (let key = sessionKey (SessionID s) in
      rd_Exec R r
        [HSet key (session_fields s),
         Expire key ttl,
         SAdd (userSessionsKey (UserID s)) (hex_encode (slice_bytes (SessionID s)))])"

text \<open>Indexing a Go map of strings gives the empty string for an absent key.\<close>

definition val :: "(string \<rightharpoonup> string) \<Rightarrow> string \<Rightarrow> string" where
  "val m k = (case m k of None \<Rightarrow> [] | Some x \<Rightarrow> x)"

record connJSON =
  cj_Transport :: string
  cj_GatewayID :: string
  cj_RemoteAddr :: string
  cj_ConnectedAt :: int
  cj_LastPacketSeq :: uint64

definition connJSON_zero :: connJSON where
  "connJSON_zero = \<lparr>cj_Transport = [], cj_GatewayID = [], cj_RemoteAddr = [], cj_ConnectedAt = 0,
     cj_LastPacketSeq = 0\<rparr>"

definition connJSON_marshal :: "connJSON \<Rightarrow> string" where
  "connJSON_marshal cj = json_print (JObj
     [(''transport'', JStr (cj_Transport cj)),
      (''gateway_id'', JStr (cj_GatewayID cj)),
      (''remote_addr'', JStr (cj_RemoteAddr cj)),
      (''connected_at'', JNum (show_int (cj_ConnectedAt cj))),
      (''last_packet_seq'', JNum (show_nat (unat (cj_LastPacketSeq cj))))])"

definition connJSON_struct :: "(string \<times> connJSON field) list" where
  "connJSON_struct =
     [(''transport'', str_field (\<lambda>x c. c\<lparr>cj_Transport := x\<rparr>)),
      (''gateway_id'', str_field (\<lambda>x c. c\<lparr>cj_GatewayID := x\<rparr>)),
      (''remote_addr'', str_field (\<lambda>x c. c\<lparr>cj_RemoteAddr := x\<rparr>)),
      (''connected_at'', int64_field (\<lambda>x c. c\<lparr>cj_ConnectedAt := x\<rparr>)),
      (''last_packet_seq'', uint_field 64 (\<lambda>x c. c\<lparr>cj_LastPacketSeq := of_nat x\<rparr>))]"

definition connJSON_unmarshal :: "string \<Rightarrow> connJSON option" where
  "connJSON_unmarshal raw =
     (case json_unmarshal connJSON_struct raw connJSON_zero of (cj, err) \<Rightarrow> if err then None else Some cj)"

definition RedisStore_AddConnection ::
  "'r redis_ops \<Rightarrow> 'r \<Rightarrow> slice \<Rightarrow> Connection \<Rightarrow> 'r \<times> goerr option" where
  "RedisStore_AddConnection R r i conn =
     (let d = connJSON_marshal
        \<lparr>cj_Transport = Transport conn, cj_GatewayID = GatewayID conn, cj_RemoteAddr = RemoteAddr conn,
         cj_ConnectedAt = to_unix (ConnectedAt conn), cj_LastPacketSeq = LastPacketSeq conn\<rparr>
      in rd_Exec R r [HSet (connKey i) [(ConnectionID conn, d)]])"

definition RedisStore_RemoveConnection ::
  "'r redis_ops \<Rightarrow> 'r \<Rightarrow> slice \<Rightarrow> string \<Rightarrow> 'r \<times> goerr option" where
  "RedisStore_RemoveConnection R r i cid = rd_Exec R r [HDel (connKey i) cid]"

definition read_connection :: "string \<times> string \<Rightarrow> Connection option" where
  "read_connection p =
     (case connJSON_unmarshal (snd p) of None \<Rightarrow> None
      | Some cj \<Rightarrow> Some \<lparr>ConnectionID = fst p, Transport = cj_Transport cj, GatewayID = cj_GatewayID cj,
          RemoteAddr = cj_RemoteAddr cj, ConnectedAt = from_unix (cj_ConnectedAt cj),
          LastPacketSeq = cj_LastPacketSeq cj\<rparr>)"

definition RedisStore_GetConnections :: "'r redis_ops \<Rightarrow> 'r \<Rightarrow> slice \<Rightarrow> goerr + Connection list" where
  "RedisStore_GetConnections R r i =
     (case rd_HGetAll R r (connKey i) of Inl e \<Rightarrow> Inl e
      | Inr vals \<Rightarrow> Inr (List.map_filter read_connection vals))"

definition RedisStore_Get :: "'r redis_ops \<Rightarrow> 'r \<Rightarrow> slice \<Rightarrow> goerr + Session" where
  "RedisStore_Get R r i =
     (case rd_HGetAll R r (sessionKey i) of Inl e \<Rightarrow> Inl (''redis hgetall: '' @ e)
      | Inr vals \<Rightarrow>
          if vals = [] then Inl (''session not found: '' @ hex_encode (slice_bytes i))
          else let v = val (map_of vals);
                   conns = (case RedisStore_GetConnections R r i of Inl _ \<Rightarrow> [] | Inr cs \<Rightarrow> cs)
               in Inr \<lparr>SessionID = i,
                       UserID = Some (fst (hex_decode (v ''user_id''))),
                       DeviceID = Some (fst (hex_decode (v ''device_id''))),
                       SStatus = v ''status'',
                       CryptoState = Some (fst (hex_decode (v ''crypto_state''))),
                       CreatedAt = from_unix (fst (ParseInt64 (v ''created_at''))),
                       LastActive = from_unix (fst (ParseInt64 (v ''last_active''))),
                       ExpiresAt = from_unix (fst (ParseInt64 (v ''expires_at''))),
                       Connections = conns\<rparr>)"

definition RedisStore_UpdateStatus :: "'r redis_ops \<Rightarrow> 'r \<Rightarrow> slice \<Rightarrow> Status \<Rightarrow> 'r \<times> goerr option" where
  "RedisStore_UpdateStatus R r i status = rd_Exec R r [HSet (sessionKey i) [(''status'', status)]]"

definition RedisStore_UpdateCryptoState :: "'r redis_ops \<Rightarrow> 'r \<Rightarrow> slice \<Rightarrow> slice \<Rightarrow> 'r \<times> goerr option" where
  "RedisStore_UpdateCryptoState R r i cs =
     rd_Exec R r [HSet (sessionKey i) [(''crypto_state'', hex_encode (slice_bytes cs))]]"

definition RedisStore_UpdateLastActive ::
  "'r redis_ops \<Rightarrow> duration \<Rightarrow> time \<Rightarrow> 'r \<Rightarrow> slice \<Rightarrow> 'r \<times> goerr option" where
  "RedisStore_UpdateLastActive R ttl now r i =
     rd_Exec R r [HSet (sessionKey i) [(''last_active'', show_int (to_unix now))],
       Expire (sessionKey i) ttl]"

definition RedisStore_Delete :: "'r redis_ops \<Rightarrow> 'r \<Rightarrow> slice \<Rightarrow> 'r \<times> goerr option" where
  "RedisStore_Delete R r i =
     (case RedisStore_Get R r i of Inl e \<Rightarrow> (r, Some e)
      | Inr s \<Rightarrow> rd_Exec R r [Del (sessionKey i), Del (connKey i),
          SRem (userSessionsKey (UserID s)) (hex_encode (slice_bytes i))])"

definition RedisStore_GetUserSessions :: "'r redis_ops \<Rightarrow> 'r \<Rightarrow> slice \<Rightarrow> goerr + slice list" where
  "RedisStore_GetUserSessions R r u =
     (case rd_SMembers R r (userSessionsKey u) of Inl e \<Rightarrow> Inl e
      | Inr members \<Rightarrow> Inr (map (\<lambda>m. Some (fst (hex_decode m))) members))"

definition RedisStore :: "'r redis_ops \<Rightarrow> duration \<Rightarrow> 'r Store" where
  "RedisStore R ttl = \<lparr>
     st_Create = RedisStore_Create R ttl,
     st_Get = (\<lambda>r i. (r, RedisStore_Get R r i)),
     st_UpdateStatus = RedisStore_UpdateStatus R,
     st_UpdateCryptoState = RedisStore_UpdateCryptoState R,
     st_UpdateLastActive = RedisStore_UpdateLastActive R ttl,
     st_Delete = RedisStore_Delete R,
     st_AddConnection = RedisStore_AddConnection R,
     st_RemoveConnection = RedisStore_RemoveConnection R,
     st_GetConnections = (\<lambda>r i. (r, RedisStore_GetConnections R r i)),
     st_GetUserSessions = (\<lambda>r u. (r, RedisStore_GetUserSessions R r u))\<rparr>"

section \<open>Keys\<close>

lemma hex_char_not_colon: "n < 16 \<Longrightarrow> hex_char n \<noteq> CHR '':''"
  by (auto simp: hex_char_def char_of_eq_iff take_bit_eq_mod)

lemma colon_notin_hex [simp]: "CHR '':'' \<notin> set (hex_encode bs)"
proof (induction bs)
  case (Cons b bs)
  then show ?case
    using hex_char_not_colon [of "unat b div 16"] hex_char_not_colon [of "unat b mod 16"]
    by (auto simp: hex_encode_def hex_byte_def)
qed simp

lemma hex_append_colon_inject:
  "hex_encode a @ CHR '':'' # s = hex_encode b @ CHR '':'' # t \<longleftrightarrow> a = b \<and> s = t"
proof
  have cut: "takeWhile (\<lambda>c. c \<noteq> CHR '':'') (hex_encode x @ CHR '':'' # u) = hex_encode x" for x u
    using colon_notin_hex [of x] by (subst takeWhile_append2) auto
  assume eq: "hex_encode a @ CHR '':'' # s = hex_encode b @ CHR '':'' # t"
  then have "hex_encode a = hex_encode b" using cut by metis
  with eq show "a = b \<and> s = t" by simp
qed simp

lemma sessionKey_inject [simp]: "sessionKey i = sessionKey j \<longleftrightarrow> slice_bytes i = slice_bytes j"
  by (simp add: sessionKey_def)

lemma connKey_inject [simp]: "connKey i = connKey j \<longleftrightarrow> slice_bytes i = slice_bytes j"
  by (simp add: connKey_def)

lemma userSessionsKey_inject [simp]:
  "userSessionsKey i = userSessionsKey j \<longleftrightarrow> slice_bytes i = slice_bytes j"
  by (simp add: userSessionsKey_def)

lemma sessionKey_not_connKey [simp]: "sessionKey i \<noteq> connKey j" "connKey j \<noteq> sessionKey i"
proof -
  have "CHR '':'' \<in> set (drop 8 (connKey j))" by (simp add: connKey_def sessionKey_def)
  moreover have "CHR '':'' \<notin> set (drop 8 (sessionKey i))" by (simp add: sessionKey_def)
  ultimately show "sessionKey i \<noteq> connKey j" "connKey j \<noteq> sessionKey i" by metis+
qed

lemma userSessionsKey_not_session [simp]:
  "userSessionsKey u \<noteq> sessionKey i" "sessionKey i \<noteq> userSessionsKey u"
  "userSessionsKey u \<noteq> connKey i" "connKey i \<noteq> userSessionsKey u"
  by (simp_all add: userSessionsKey_def sessionKey_def connKey_def)

section \<open>Connections\<close>

lemma connJSON_marshal_ok:
  assumes "ascii (cj_Transport cj)" "ascii (cj_GatewayID cj)" "ascii (cj_RemoteAddr cj)"
    and "in_int64 (cj_ConnectedAt cj)"
  shows "connJSON_unmarshal (connJSON_marshal cj) = Some cj"
proof -
  have "unat (cj_LastPacketSeq cj) < 2 ^ 64"
    using unsigned_less [of "cj_LastPacketSeq cj"] by simp
  with assms show ?thesis
    by (simp add: connJSON_unmarshal_def connJSON_marshal_def json_unmarshal_print connJSON_struct_def
        connJSON_zero_def code_def del: json_print.simps)
qed

text \<open>What a stored connection reads back as: its instant in whole seconds.\<close>

definition whole_seconds :: "Connection \<Rightarrow> Connection" where
  "whole_seconds c = c\<lparr>ConnectedAt := from_unix (to_unix (ConnectedAt c))\<rparr>"

definition conn_ok :: "Connection \<Rightarrow> bool" where
  "conn_ok c \<longleftrightarrow> ascii (Transport c) \<and> ascii (GatewayID c) \<and> ascii (RemoteAddr c) \<and>
     in_int64 (to_unix (ConnectedAt c))"

definition conn_data :: "Connection \<Rightarrow> string" where
  "conn_data conn = connJSON_marshal
     \<lparr>cj_Transport = Transport conn, cj_GatewayID = GatewayID conn, cj_RemoteAddr = RemoteAddr conn,
      cj_ConnectedAt = to_unix (ConnectedAt conn), cj_LastPacketSeq = LastPacketSeq conn\<rparr>"

lemma read_connection_data:
  "conn_ok c \<Longrightarrow> read_connection (ConnectionID c, conn_data c) = Some (whole_seconds c)"
  by (simp add: read_connection_def conn_data_def connJSON_marshal_ok conn_ok_def whole_seconds_def)

section \<open>The sessions of a key space\<close>

definition sess_of_hash :: "(string \<rightharpoonup> string) \<Rightarrow> stored" where
  "sess_of_hash h = \<lparr>sd_user = fst (hex_decode (val h ''user_id'')),
     sd_device = fst (hex_decode (val h ''device_id'')), sd_status = val h ''status'',
     sd_crypto = fst (hex_decode (val h ''crypto_state''))\<rparr>"

definition redis_sessions :: "redis_view \<Rightarrow> bytes \<rightharpoonup> stored" where
  "redis_sessions v i =
     (let h = v_hash v (sessionKey (Some i)) in if h = Map.empty then None else Some (sess_of_hash h))"

definition redis_typed :: "redis_view \<Rightarrow> bool" where
  "redis_typed v \<longleftrightarrow> (\<forall>i. hash_key v (sessionKey i)) \<and> (\<forall>i. hash_key v (connKey i)) \<and>
     (\<forall>u. set_key v (userSessionsKey u))"

definition redis_wf :: "redis_view \<Rightarrow> bool" where
  "redis_wf v \<longleftrightarrow> redis_typed v \<and>
     (\<forall>i x. redis_sessions v i = Some x \<longrightarrow> hex_encode i \<in> v_set v (userSessionsKey (Some (sd_user x))))"

lemma expire_seconds_pos: "0 < d \<Longrightarrow> 0 < expire_seconds d"
  by (auto simp: expire_seconds_def Second_def pos_imp_zdiv_pos_iff)

lemma key_exists_hashI: "v_hash v k f = Some x \<Longrightarrow> key_exists v k"
  by (auto simp: key_exists_def)

lemma key_Some [simp]: "sessionKey (Some (slice_bytes i)) = sessionKey i"
  "connKey (Some (slice_bytes i)) = connKey i"
  "userSessionsKey (Some (slice_bytes i)) = userSessionsKey i"
  by (simp_all add: sessionKey_def connKey_def userSessionsKey_def)

lemma val_upd [simp]: "val (h(k \<mapsto> x)) k' = (if k' = k then x else val h k')"
  by (simp add: val_def)

text \<open>The commands of each operation, as one update of the sessions.\<close>

definition create_cmds :: "duration \<Rightarrow> Session \<Rightarrow> redis_cmd list" where
  "create_cmds ttl s = [HSet (sessionKey (SessionID s)) (session_fields s),
     Expire (sessionKey (SessionID s)) ttl,
     SAdd (userSessionsKey (UserID s)) (hex_encode (slice_bytes (SessionID s)))]"

definition session_hash :: "Session \<Rightarrow> (string \<rightharpoonup> string) \<Rightarrow> string \<rightharpoonup> string" where
  "session_hash s h = fold (\<lambda>(f, x) h. h(f \<mapsto> x)) (session_fields s) h"

lemma val_session_hash [simp]:
  "val (session_hash s h) ''user_id'' = hex_encode (slice_bytes (UserID s))"
  "val (session_hash s h) ''device_id'' = hex_encode (slice_bytes (DeviceID s))"
  "val (session_hash s h) ''status'' = SStatus s"
  "val (session_hash s h) ''crypto_state'' = hex_encode (slice_bytes (CryptoState s))"
  "val (session_hash s h) ''created_at'' = show_int (to_unix (CreatedAt s))"
  "val (session_hash s h) ''last_active'' = show_int (to_unix (LastActive s))"
  "val (session_hash s h) ''expires_at'' = show_int (to_unix (ExpiresAt s))"
  by (simp_all add: session_hash_def session_fields_def)

lemma session_hash_not_empty [simp]: "session_hash s h \<noteq> Map.empty"
  by (auto simp: session_hash_def session_fields_def dest: fun_cong [where x = "''expires_at''"])

lemma sess_of_session_hash [simp]: "sess_of_hash (session_hash s h) = stored_of s"
  by (simp add: sess_of_hash_def stored_of_def)

lemma create_effect:
  assumes "0 < ttl"
  defines "w v s \<equiv> fold cmd_effect (create_cmds ttl s) v"
  shows "v_hash (w v s) = (v_hash v)(sessionKey (SessionID s) :=
      session_hash s (v_hash v (sessionKey (SessionID s))))"
    and "v_set (w v s) = (v_set v)(userSessionsKey (UserID s) :=
      insert (hex_encode (slice_bytes (SessionID s))) (v_set v (userSessionsKey (UserID s))))"
    and "v_str (w v s) = v_str v"
    and "v_deadline (w v s) (sessionKey (SessionID s)) = Some (v_now v + expire_seconds ttl * Second)"
    and "v_now (w v s) = v_now v"
    and "v_deadline (w v s) (userSessionsKey (UserID s)) = v_deadline v (userSessionsKey (UserID s))"
  using expire_seconds_pos [OF assms(1)]
  by (simp_all add: w_def create_cmds_def session_hash_def [symmetric] key_exists_def del: fold.simps
      add: fold.simps)

lemma redis_sessions_upd:
  assumes "v_hash w = (v_hash v)(sessionKey i := h)"
  shows "redis_sessions w = (redis_sessions v)(slice_bytes i :=
    (if h = Map.empty then None else Some (sess_of_hash h)))"
  using assms by (auto simp: redis_sessions_def Let_def)

lemma redis_sessions_conn:
  assumes "v_hash w = (v_hash v)(connKey i := h)"
  shows "redis_sessions w = redis_sessions v"
  using assms by (auto simp: redis_sessions_def Let_def)

lemma redis_sessions_del:
  assumes "v_hash w = (v_hash v)(sessionKey i := Map.empty, connKey i := Map.empty)"
  shows "redis_sessions w = (redis_sessions v)(slice_bytes i := None)"
  using assms by (auto simp: redis_sessions_def Let_def)

text \<open>Typing is kept by every write to a session or connection hash and to a user's set.\<close>

lemma redis_typed_hash:
  "redis_typed v \<Longrightarrow> v_set w = v_set v \<Longrightarrow> v_str w = v_str v \<Longrightarrow>
     v_hash w = (v_hash v)(k := h) \<Longrightarrow> (\<And>u. userSessionsKey u \<noteq> k) \<Longrightarrow> redis_typed w"
  by (auto simp: redis_typed_def hash_key_def set_key_def)

lemma redis_typed_set:
  "redis_typed v \<Longrightarrow> v_hash w = v_hash v \<Longrightarrow> v_str w = v_str v \<Longrightarrow>
     v_set w = (v_set v)(userSessionsKey u := ms) \<Longrightarrow> redis_typed w"
  by (auto simp: redis_typed_def hash_key_def set_key_def)

lemma redis_wfD:
  "redis_wf v \<Longrightarrow> redis_sessions v i = Some x \<Longrightarrow> hex_encode i \<in> v_set v (userSessionsKey (Some (sd_user x)))"
  by (auto simp: redis_wf_def)

lemma redis_wf_typed: "redis_wf v \<Longrightarrow> redis_typed v"
  by (simp add: redis_wf_def)

lemma redis_typed_keys [simp]:
  assumes "redis_typed v"
  shows "hash_key v (sessionKey i)" "hash_key v (connKey i)" "set_key v (userSessionsKey u)"
  using assms by (auto simp: redis_typed_def)

lemma create_wf:
  assumes "redis_wf v" "0 < ttl"
  shows "redis_wf (fold cmd_effect (create_cmds ttl s) v)"
    and "redis_sessions (fold cmd_effect (create_cmds ttl s) v)
      = (redis_sessions v)(slice_bytes (SessionID s) \<mapsto> stored_of s)"
proof -
  note eff = create_effect [OF assms(2), of s v]
  let ?w = "fold cmd_effect (create_cmds ttl s) v"
  show sess: "redis_sessions ?w = (redis_sessions v)(slice_bytes (SessionID s) \<mapsto> stored_of s)"
    using redis_sessions_upd [OF eff(1)] by simp
  have "redis_typed ?w"
    using redis_wf_typed [OF assms(1)] eff by (auto simp: redis_typed_def hash_key_def set_key_def)
  moreover have "hex_encode i \<in> v_set ?w (userSessionsKey (Some (sd_user x)))"
    if "redis_sessions ?w i = Some x" for i x
    using that redis_wfD [OF assms(1), of i x]
    by (auto simp: sess eff(2) stored_of_def split: if_splits)
  ultimately show "redis_wf ?w" by (simp add: redis_wf_def)
qed

lemma field_wf:
  assumes "redis_wf v" "redis_sessions v (slice_bytes i) = Some x"
    and "v_hash w = (v_hash v)(sessionKey i := (v_hash v (sessionKey i))(f \<mapsto> y))"
    and "v_set w = v_set v" "v_str w = v_str v" "f \<noteq> ''user_id''"
  shows "redis_wf w"
    and "redis_sessions w = (redis_sessions v)(slice_bytes i \<mapsto>
      sess_of_hash ((v_hash v (sessionKey i))(f \<mapsto> y)))"
proof -
  show sess: "redis_sessions w = (redis_sessions v)(slice_bytes i \<mapsto>
      sess_of_hash ((v_hash v (sessionKey i))(f \<mapsto> y)))"
    using redis_sessions_upd [OF assms(3)] by simp
  have x: "x = sess_of_hash (v_hash v (sessionKey i))"
    using assms(2) by (auto simp: redis_sessions_def Let_def split: if_splits)
  have "redis_typed w"
    by (rule redis_typed_hash [OF redis_wf_typed [OF assms(1)] assms(4,5,3)]) simp
  moreover have "hex_encode j \<in> v_set w (userSessionsKey (Some (sd_user z)))"
    if "redis_sessions w j = Some z" for j z
  proof (cases "j = slice_bytes i")
    case True
    with that have "sd_user z = sd_user x" using assms(6) x by (auto simp: sess sess_of_hash_def)
    with True redis_wfD [OF assms(1,2)] assms(4) show ?thesis by simp
  next
    case False
    with that redis_wfD [OF assms(1), of j z] assms(4) show ?thesis by (simp add: sess)
  qed
  ultimately show "redis_wf w" by (simp add: redis_wf_def)
qed

lemma sess_of_hash_fields:
  "sess_of_hash (h(''status'' \<mapsto> y)) = (sess_of_hash h)\<lparr>sd_status := y\<rparr>"
  "sess_of_hash (h(''crypto_state'' \<mapsto> y)) = (sess_of_hash h)\<lparr>sd_crypto := fst (hex_decode y)\<rparr>"
  "sess_of_hash (h(''last_active'' \<mapsto> y)) = sess_of_hash h"
  by (simp_all add: sess_of_hash_def)

lemma redis_sessions_Some:
  "redis_sessions v (slice_bytes i) = Some x \<longleftrightarrow>
     v_hash v (sessionKey i) \<noteq> Map.empty \<and> x = sess_of_hash (v_hash v (sessionKey i))"
  by (auto simp: redis_sessions_def Let_def)

lemma redis_sessions_hash:
  "redis_sessions v i = Some x \<Longrightarrow> sess_of_hash (v_hash v (sessionKey (Some i))) = x"
  by (auto simp: redis_sessions_def Let_def split: if_splits)

lemma delete_wf:
  assumes "redis_wf v" "redis_sessions v (slice_bytes i) = Some x"
  defines "w \<equiv> fold cmd_effect [Del (sessionKey i), Del (connKey i),
    SRem (userSessionsKey (Some (sd_user x))) (hex_encode (slice_bytes i))] v"
  shows "redis_wf w" "redis_sessions w = (redis_sessions v)(slice_bytes i := None)"
proof -
  have h: "v_hash w = (v_hash v)(sessionKey i := Map.empty, connKey i := Map.empty)"
    and s: "v_set w = (v_set v)(sessionKey i := {}, connKey i := {},
      userSessionsKey (Some (sd_user x)) :=
        v_set v (userSessionsKey (Some (sd_user x))) - {hex_encode (slice_bytes i)})"
    and t: "v_str w = (v_str v)(sessionKey i := None, connKey i := None)"
    by (simp_all add: w_def)
  show sess: "redis_sessions w = (redis_sessions v)(slice_bytes i := None)"
    by (rule redis_sessions_del [OF h])
  have "redis_typed w"
    using redis_wf_typed [OF assms(1)] by (auto simp: redis_typed_def hash_key_def set_key_def h s t)
  moreover have "hex_encode j \<in> v_set w (userSessionsKey (Some (sd_user y)))"
    if "redis_sessions w j = Some y" for j y
    using that redis_wfD [OF assms(1), of j y] by (auto simp: sess s split: if_splits)
  ultimately show "redis_wf w" by (simp add: redis_wf_def)
qed

section \<open>The store over any Redis\<close>

lemmas RedisStore_defs = RedisStore_def RedisStore_Create_def RedisStore_UpdateStatus_def
  RedisStore_UpdateCryptoState_def RedisStore_UpdateLastActive_def RedisStore_AddConnection_def
  RedisStore_RemoveConnection_def

locale redis_store = redis_service +
  fixes ttl :: duration
  assumes ttl_pos: "0 < ttl"
begin

lemma Create_exec: "RedisStore_Create R ttl r s = rd_Exec R r (create_cmds ttl s)"
  by (simp add: RedisStore_Create_def create_cmds_def Let_def)

lemma AddConnection_exec:
  "RedisStore_AddConnection R r i c = rd_Exec R r [HSet (connKey i) [(ConnectionID c, conn_data c)]]"
  by (simp add: RedisStore_AddConnection_def conn_data_def Let_def)

lemma Get_Inr:
  assumes "RedisStore_Get R r i = Inr s"
  shows "redis_sessions (view r) (slice_bytes i) = Some (stored_of s)" "SessionID s = i"
    "UserID s \<noteq> None"
proof -
  obtain vals where vals: "rd_HGetAll R r (sessionKey i) = Inr vals" "vals \<noteq> []"
    using assms by (auto simp: RedisStore_Get_def split: sum.splits if_splits)
  with hgetall have m: "map_of vals = v_hash (view r) (sessionKey i)" by blast
  with vals(2) have ne: "v_hash (view r) (sessionKey i) \<noteq> Map.empty"
    by (metis map_of_empty_iff)
  show "redis_sessions (view r) (slice_bytes i) = Some (stored_of s)" "SessionID s = i" "UserID s \<noteq> None"
    using assms vals m ne
    by (auto simp: RedisStore_Get_def redis_sessions_Some Let_def stored_of_def sess_of_hash_def)
qed

lemma Delete_step:
  assumes "redis_wf (view r)" "RedisStore_Delete R r i = (r', None)"
  shows "redis_wf (view r')" "redis_sessions (view r') = (redis_sessions (view r))(slice_bytes i := None)"
proof -
  obtain s where s: "RedisStore_Get R r i = Inr s"
    and ex: "rd_Exec R r [Del (sessionKey i), Del (connKey i),
      SRem (userSessionsKey (UserID s)) (hex_encode (slice_bytes i))] = (r', None)"
    using assms(2) by (auto simp: RedisStore_Delete_def split: sum.splits)
  have u: "UserID s = Some (sd_user (stored_of s))"
    using Get_Inr(3) [OF s] by (auto simp: stored_of_def)
  note x = Get_Inr(1) [OF s]
  show "redis_wf (view r')" "redis_sessions (view r') = (redis_sessions (view r))(slice_bytes i := None)"
    using delete_wf [OF assms(1) x] exec_effect [OF ex] by (simp_all only: u)
qed

lemma field_step:
  assumes "redis_wf (view r)" "redis_sessions (view r) (slice_bytes i) = Some x"
    and "view r' = fold cmd_effect (HSet (sessionKey i) [(f, y)] # cs) (view r)"
    and "cs = [] \<or> cs = [Expire (sessionKey i) ttl]" "f \<noteq> ''user_id''"
  shows "redis_wf (view r')"
    and "redis_sessions (view r') = (redis_sessions (view r))(slice_bytes i \<mapsto>
      sess_of_hash ((v_hash (view r) (sessionKey i))(f \<mapsto> y)))"
proof -
  have "v_hash (view r') = (v_hash (view r))(sessionKey i := (v_hash (view r) (sessionKey i))(f \<mapsto> y))"
    "v_set (view r') = v_set (view r)" "v_str (view r') = v_str (view r)"
    using assms(3,4) expire_seconds_pos [OF ttl_pos] by (auto simp: key_exists_def)
  note w = field_wf [OF assms(1,2) this assms(5)]
  show "redis_wf (view r')"
    "redis_sessions (view r') = (redis_sessions (view r))(slice_bytes i \<mapsto>
      sess_of_hash ((v_hash (view r) (sessionKey i))(f \<mapsto> y)))"
    by (fact w)+
qed

lemma conn_step:
  assumes "redis_wf (view r)"
    and "view r' = cmd_effect c (view r)" "c = HSet (connKey i) fs \<or> c = HDel (connKey i) f"
  shows "redis_wf (view r')" "redis_sessions (view r') = redis_sessions (view r)"
proof -
  obtain h where h: "v_hash (view r') = (v_hash (view r))(connKey i := h)"
    and st: "v_set (view r') = v_set (view r)" "v_str (view r') = v_str (view r)"
    using assms(2,3) by auto
  show sess: "redis_sessions (view r') = redis_sessions (view r)" by (rule redis_sessions_conn [OF h])
  have "redis_typed (view r')"
    by (rule redis_typed_hash [OF redis_wf_typed [OF assms(1)] st h]) simp
  with assms(1) show "redis_wf (view r')" by (simp add: redis_wf_def sess st)
qed

lemma store_laws:
  assumes wf: "redis_wf (view r)" and ok: "store_step (RedisStore R ttl) r p = (r', None)"
    and spec: "spec_step (redis_sessions (view r)) p = Some m"
  shows "redis_wf (view r') \<and> redis_sessions (view r') = m"
proof (cases p)
  case (OpCreate s)
  with ok spec show ?thesis
    using create_wf [OF wf ttl_pos, of s] by (auto simp: RedisStore_def Create_exec dest!: exec_effect)
next
  case (OpUpdateStatus i t)
  with spec obtain x where x: "redis_sessions (view r) (slice_bytes (Some i)) = Some x" by auto
  from ok OpUpdateStatus have "view r' = fold cmd_effect [HSet (sessionKey (Some i)) [(''status'', t)]] (view r)"
    by (auto simp: RedisStore_defs dest!: exec_effect)
  from field_step [OF wf x this] show ?thesis
    using x spec OpUpdateStatus by (auto simp: sess_of_hash_fields redis_sessions_hash)
next
  case (OpUpdateCryptoState i c)
  with spec obtain x where x: "redis_sessions (view r) (slice_bytes (Some i)) = Some x" by auto
  from ok OpUpdateCryptoState have "view r' = fold cmd_effect
      [HSet (sessionKey (Some i)) [(''crypto_state'', hex_encode (slice_bytes c))]] (view r)"
    by (auto simp: RedisStore_defs dest!: exec_effect)
  from field_step [OF wf x this] show ?thesis
    using x spec OpUpdateCryptoState by (auto simp: sess_of_hash_fields redis_sessions_hash)
next
  case (OpUpdateLastActive i t)
  with spec obtain x where x: "redis_sessions (view r) (slice_bytes (Some i)) = Some x" by auto
  from ok OpUpdateLastActive have "view r' = fold cmd_effect
      [HSet (sessionKey (Some i)) [(''last_active'', show_int (to_unix t))], Expire (sessionKey (Some i)) ttl] (view r)"
    by (auto simp: RedisStore_defs dest!: exec_effect)
  from field_step [OF wf x this] show ?thesis
    using x spec OpUpdateLastActive by (auto simp: sess_of_hash_fields redis_sessions_hash)
next
  case (OpDelete i)
  with ok spec show ?thesis using Delete_step [OF wf, of "Some i" r'] by (auto simp: RedisStore_def)
next
  case (OpAddConnection i c)
  with ok have "rd_Exec R r [HSet (connKey (Some i)) [(ConnectionID c, conn_data c)]] = (r', None)"
    by (simp add: RedisStore_def AddConnection_exec)
  from exec_effect [OF this] have "view r' = cmd_effect (HSet (connKey (Some i)) [(ConnectionID c, conn_data c)]) (view r)"
    by (simp only: fold_simps)
  from conn_step [OF wf this disjI1 [OF refl]] OpAddConnection spec show ?thesis by simp
next
  case (OpRemoveConnection i c)
  with ok have "rd_Exec R r [HDel (connKey (Some i)) c] = (r', None)"
    by (simp add: RedisStore_defs)
  from exec_effect [OF this] have "view r' = cmd_effect (HDel (connKey (Some i)) c) (view r)"
    by (simp only: fold_simps)
  from conn_step [OF wf this disjI2 [OF refl]] OpRemoveConnection spec show ?thesis by simp
qed

end

sublocale redis_store \<subseteq> store: session_store "RedisStore R ttl" "\<lambda>r. redis_wf (view r)"
  "\<lambda>r. redis_sessions (view r)"
proof
  fix r r' p m i s u ids x
  show "redis_wf (view r) \<Longrightarrow> store_step (RedisStore R ttl) r p = (r', None) \<Longrightarrow>
      spec_step (redis_sessions (view r)) p = Some m \<Longrightarrow> redis_wf (view r') \<and> redis_sessions (view r') = m"
    by (rule store_laws)
  show "redis_wf (view r) \<Longrightarrow> st_Get (RedisStore R ttl) r (Some i) = (r', Inr s) \<Longrightarrow>
      redis_wf (view r') \<and> redis_sessions (view r') = redis_sessions (view r) \<and>
      redis_sessions (view r) i = Some (stored_of s)"
    using Get_Inr(1) [of r "Some i" s] by (auto simp: RedisStore_def)
  show "redis_wf (view r) \<Longrightarrow> st_GetUserSessions (RedisStore R ttl) r (Some u) = (r', Inr ids) \<Longrightarrow>
      redis_sessions (view r) i = Some x \<Longrightarrow> sd_user x = u \<Longrightarrow> sd_status x \<noteq> StatusExpired \<Longrightarrow>
      Some i \<in> set ids"
    using redis_wfD [of "view r" i x]
    by (force simp: RedisStore_def RedisStore_GetUserSessions_def split: sum.splits dest: smembers
        intro!: rev_image_eqI [of "hex_encode i"])
qed

text \<open>What a stored session reads back as.\<close>

definition read_back :: "Session \<Rightarrow> Connection list \<Rightarrow> Session" where
  "read_back s conns = s\<lparr>UserID := Some (slice_bytes (UserID s)), DeviceID := Some (slice_bytes (DeviceID s)),
     CryptoState := Some (slice_bytes (CryptoState s)), CreatedAt := from_unix (to_unix (CreatedAt s)),
     LastActive := from_unix (to_unix (LastActive s)), ExpiresAt := from_unix (to_unix (ExpiresAt s)),
     Connections := conns\<rparr>"

definition times_ok :: "Session \<Rightarrow> bool" where
  "times_ok s \<longleftrightarrow> in_int64 (to_unix (CreatedAt s)) \<and> in_int64 (to_unix (LastActive s)) \<and>
     in_int64 (to_unix (ExpiresAt s))"

definition conns_of :: "(string \<rightharpoonup> string) \<Rightarrow> Connection set" where
  "conns_of h = {c. \<exists>k d. h k = Some d \<and> read_connection (k, d) = Some c}"

lemma read_connection_id: "read_connection (k, d) = Some c \<Longrightarrow> ConnectionID c = k"
  by (auto simp: read_connection_def split: option.splits)

lemma distinct_map_filter_conns:
  "distinct (map fst vs) \<Longrightarrow> distinct (map ConnectionID (List.map_filter read_connection vs))"
proof (induction vs)
  case (Cons p vs)
  have "ConnectionID c \<in> fst ` set vs" if "c \<in> set (List.map_filter read_connection vs)" for c
    using that by (force simp: map_filter_def dest: read_connection_id)
  with Cons show ?case
    by (cases p; cases "read_connection p") (auto simp: map_filter_simps dest: read_connection_id)
qed (simp add: map_filter_simps)

context redis_store
begin

lemma run_refines:
  "redis_wf (view r) \<Longrightarrow> store_run (RedisStore R ttl) r ps = Some r' \<Longrightarrow>
     spec_run (redis_sessions (view r)) ps = Some m \<Longrightarrow> redis_wf (view r') \<and> redis_sessions (view r') = m"
  by (rule store.run)

lemma GetConnections_view:
  assumes "RedisStore_GetConnections R r i = Inr cs"
  shows "set cs = conns_of (v_hash (view r) (connKey i))" "distinct (map ConnectionID cs)"
proof -
  obtain vs where vs: "rd_HGetAll R r (connKey i) = Inr vs" "cs = List.map_filter read_connection vs"
    using assms by (auto simp: RedisStore_GetConnections_def split: sum.splits)
  with hgetall have m: "distinct (map fst vs)" "map_of vs = v_hash (view r) (connKey i)" by blast+
  have "set cs = {c. \<exists>p \<in> set vs. read_connection p = Some c}"
    by (force simp: vs(2) map_filter_def)
  also have "\<dots> = conns_of (map_of vs)"
    using m(1) by (auto simp: conns_of_def)
  finally show "set cs = conns_of (v_hash (view r) (connKey i))" by (simp add: m(2))
  show "distinct (map ConnectionID cs)" using m(1) vs(2) distinct_map_filter_conns by simp
qed

lemma GetConnections_avail:
  assumes "avail r" "redis_typed (view r)"
  obtains cs where "RedisStore_GetConnections R r i = Inr cs"
  using hgetall_avail [OF assms(1), of "connKey i"] assms(2) by (auto simp: RedisStore_GetConnections_def)

lemma Get_avail:
  assumes "avail r" "redis_typed (view r)" "redis_sessions (view r) (slice_bytes i) = Some x"
  obtains s where "RedisStore_Get R r i = Inr s" "stored_of s = x"
proof -
  obtain vs where vs: "rd_HGetAll R r (sessionKey i) = Inr vs" "map_of vs = v_hash (view r) (sessionKey i)"
    using hgetall_view [OF assms(1), of "sessionKey i"] assms(2) by auto
  with assms(3) have "vs \<noteq> []" by (auto simp: redis_sessions_Some)
  with vs have "\<exists>s. RedisStore_Get R r i = Inr s" by (simp add: RedisStore_Get_def Let_def)
  then obtain s where "RedisStore_Get R r i = Inr s" by blast
  with Get_Inr(1) assms(3) that show thesis by fastforce
qed

lemma Create_typed:
  "redis_typed v \<Longrightarrow> cmds_typed (create_cmds ttl s) v"
  using expire_seconds_pos [OF ttl_pos]
  by (auto simp: create_cmds_def session_fields_def redis_typed_def set_key_def hash_key_def)

lemma Get_session_hash:
  assumes "avail r" "redis_typed (view r)" "times_ok s"
    and h: "v_hash (view r) (sessionKey (SessionID s)) = session_hash s h0"
  shows "\<exists>conns. RedisStore_Get R r (SessionID s) = Inr (read_back s conns) \<and>
    set conns = conns_of (v_hash (view r) (connKey (SessionID s)))"
proof -
  obtain vs where vs: "rd_HGetAll R r (sessionKey (SessionID s)) = Inr vs"
      "map_of vs = session_hash s h0"
    using hgetall_view [OF assms(1), of "sessionKey (SessionID s)"] assms(2) h by auto
  then have ne: "vs \<noteq> []" using session_hash_not_empty by fastforce
  obtain cs where cs: "RedisStore_GetConnections R r (SessionID s) = Inr cs"
    using GetConnections_avail [OF assms(1,2)] by blast
  have "RedisStore_Get R r (SessionID s) = Inr (read_back s cs)"
    using vs ne cs assms(3) by (simp add: RedisStore_Get_def Let_def read_back_def times_ok_def)
  with GetConnections_view(1) [OF cs] show ?thesis by blast
qed

lemma Create_Get:
  assumes "avail r" "redis_wf (view r)" "times_ok s"
  shows "\<exists>r' conns. RedisStore_Create R ttl r s = (r', None) \<and> avail r' \<and>
    RedisStore_Get R r' (SessionID s) = Inr (read_back s conns) \<and>
    set conns = conns_of (v_hash (view r) (connKey (SessionID s)))"
proof -
  obtain r' where r': "rd_Exec R r (create_cmds ttl s) = (r', None)" "avail r'"
      "view r' = fold cmd_effect (create_cmds ttl s) (view r)"
    using exec_view [OF assms(1) Create_typed [OF redis_wf_typed [OF assms(2)]]] by blast
  note eff = create_effect(1) [OF ttl_pos, of s "view r"]
  have "redis_typed (view r')"
    using create_wf(1) [OF assms(2) ttl_pos, of s] r'(3) by (simp add: redis_wf_typed)
  from Get_session_hash [OF r'(2) this assms(3), of "v_hash (view r) (sessionKey (SessionID s))"]
  show ?thesis using r' eff by (auto simp: Create_exec)
qed

lemma AddConnection_Get:
  assumes "avail r" "redis_wf (view r)" "conn_ok c"
  shows "\<exists>r' cs. RedisStore_AddConnection R r i c = (r', None) \<and> avail r' \<and>
    RedisStore_GetConnections R r' i = Inr cs \<and> distinct (map ConnectionID cs) \<and>
    set cs = insert (whole_seconds c)
      {x \<in> conns_of (v_hash (view r) (connKey i)). ConnectionID x \<noteq> ConnectionID c}"
proof -
  let ?cmd = "HSet (connKey i) [(ConnectionID c, conn_data c)]"
  obtain r' where r': "rd_Exec R r [?cmd] = (r', None)" "avail r'" "view r' = cmd_effect ?cmd (view r)"
    using exec_view [OF assms(1), of "[?cmd]"] redis_wf_typed [OF assms(2)] by auto
  from conn_step(1) [OF assms(2) r'(3) disjI1 [OF refl]] have "redis_typed (view r')"
    by (rule redis_wf_typed)
  then obtain cs where cs: "RedisStore_GetConnections R r' i = Inr cs"
    using GetConnections_avail [OF r'(2)] by blast
  have "set cs = conns_of ((v_hash (view r) (connKey i))(ConnectionID c \<mapsto> conn_data c))"
    using GetConnections_view(1) [OF cs] r'(3) by simp
  also have "\<dots> = insert (whole_seconds c)
      {x \<in> conns_of (v_hash (view r) (connKey i)). ConnectionID x \<noteq> ConnectionID c}"
    using read_connection_data [OF assms(3)]
    by (auto simp: conns_of_def dest: read_connection_id split: if_splits)
  finally show ?thesis using r' cs GetConnections_view(2) [OF cs] by (auto simp: AddConnection_exec)
qed

lemma session_ttl:
  assumes "redis_wf (view r)" "RedisStore_Create R ttl r s = (r', None)"
    and "v_deadline (view r) (userSessionsKey (UserID s)) = None" "0 \<le> d"
  shows "redis_sessions (view (advance d r')) (slice_bytes (SessionID s)) =
      (if d < expire_seconds ttl * Second then Some (stored_of s) else None)"
    and "RedisStore_GetUserSessions R (advance d r') (UserID s) = Inr ids \<Longrightarrow>
       Some (slice_bytes (SessionID s)) \<in> set ids"
proof -
  have v: "view r' = fold cmd_effect (create_cmds ttl s) (view r)"
    using assms(2) by (simp add: Create_exec exec_effect)
  note eff = create_effect [OF ttl_pos, where s = s and v = "view r", folded v]
  note adv = advance [OF assms(4), of r']
  show "redis_sessions (view (advance d r')) (slice_bytes (SessionID s)) =
      (if d < expire_seconds ttl * Second then Some (stored_of s) else None)"
    using eff(1,4,5) by (auto simp: adv redis_sessions_def view_advance_def Let_def)
  have "hex_encode (slice_bytes (SessionID s)) \<in> v_set (view (advance d r')) (userSessionsKey (UserID s))"
    using eff(2,6) assms(3) by (simp add: adv view_advance_def Let_def)
  then show "RedisStore_GetUserSessions R (advance d r') (UserID s) = Inr ids \<Longrightarrow>
       Some (slice_bytes (SessionID s)) \<in> set ids"
    by (force simp: RedisStore_GetUserSessions_def split: sum.splits dest: smembers
        intro!: rev_image_eqI [of "hex_encode (slice_bytes (SessionID s))"])
qed

end

interpretation mem_store: redis_store mem_ops mem_view mem_up mem_advance "24 * Hour"
  by unfold_locales (simp add: Hour_def Minute_def Second_def)

section \<open>A sample run\<close>

definition sample_session :: Session where
  "sample_session = \<lparr>SessionID = Some [1, 2], UserID = Some [7], DeviceID = Some [9],
     SStatus = StatusConnecting, CryptoState = None, CreatedAt = 1500000000, LastActive = 1500000000,
     ExpiresAt = 90000000000, Connections = []\<rparr>"

definition sample_conn :: Connection where
  "sample_conn = \<lparr>ConnectionID = ''c1'', Transport = TransportQUIC, GatewayID = ''gw'', RemoteAddr = ''h:1'',
     ConnectedAt = 2700000000, LastPacketSeq = 18446744073709551615\<rparr>"

lemma mem_start_wf: "redis_wf (mem_view mem_start)"
  by (simp add: redis_wf_def redis_typed_def redis_sessions_def hash_key_def set_key_def mem_view_def
      mem_get_def mem_start_def)

lemma mem_store_ax: "redis_store mem_ops mem_view mem_up mem_advance (24 * Hour)"
  by (rule mem_store.redis_store_axioms)

lemma mem_start_sessions: "redis_sessions (mem_view mem_start) = Map.empty"
  by (auto simp: redis_sessions_def mem_view_def mem_get_def mem_start_def)

definition sample_ops :: "store_op list" where
  "sample_ops = [OpCreate sample_session, OpUpdateStatus [1, 2] StatusActive,
     OpUpdateCryptoState [1, 2] (Some [5])]"

lemma sample_run: "\<exists>r'. store_run (RedisStore mem_ops (24 * Hour)) mem_start sample_ops = Some r' \<and> mem_up r'"
  by (simp add: sample_ops_def RedisStore_def RedisStore_Create_def RedisStore_UpdateStatus_def
      RedisStore_UpdateCryptoState_def mem_ops_def mem_start_def mem_hash_def mem_set_def mem_get_def
      mem_put_def sample_session_def session_fields_def update_conv' userSessionsKey_def sessionKey_def
      Hour_def Minute_def Second_def expire_seconds_def map_of_fold_update)

section \<open>Properties\<close>

text \<open>
  C6. Over any Redis that behaves as documented, the Redis store implements the abstract session
  map: after any sequence of operations that all succeed, the sessions in Redis are exactly those of
  the specification, \<open>Get\<close> reports only such sessions with their user, device, status and crypto
  state, an answering Redis reports each of them, and a session that is not in the map is an error.
\<close>

theorem redis_store_refines:
  assumes "redis_store R view avail advance ttl" and "redis_wf (view r)"
    and "store_run (RedisStore R ttl) r ps = Some r'" and "spec_run (redis_sessions (view r)) ps = Some m"
  shows "redis_wf (view r') \<and> redis_sessions (view r') = m \<and>
    (\<forall>i s. RedisStore_Get R r' (Some i) = Inr s \<longrightarrow> m i = Some (stored_of s)) \<and>
    (\<forall>i x. avail r' \<longrightarrow> m i = Some x \<longrightarrow> (\<exists>s. RedisStore_Get R r' (Some i) = Inr s \<and> stored_of s = x)) \<and>
    (\<forall>i. m i = None \<longrightarrow> (\<exists>e. RedisStore_Get R r' (Some i) = Inl e))"
proof -
  from redis_store.run_refines [OF assms] have r': "redis_wf (view r')" "redis_sessions (view r') = m"
    by auto
  have found: "m i = Some (stored_of s)" if "RedisStore_Get R r' (Some i) = Inr s" for i s
    using redis_store.Get_Inr(1) [OF assms(1) that] r'(2) by simp
  moreover have "\<exists>s. RedisStore_Get R r' (Some i) = Inr s \<and> stored_of s = x" if "avail r'" "m i = Some x" for i x
    using redis_store.Get_avail [OF assms(1) that(1) redis_wf_typed [OF r'(1)], of "Some i" x] that(2) r'(2)
    by auto
  moreover have "\<exists>e. RedisStore_Get R r' (Some i) = Inl e" if "m i = None" for i
    using found [of i] that by (cases "RedisStore_Get R r' (Some i)") auto
  ultimately show ?thesis using r' by blast
qed

theorem redis_store_refines_witness:
  "\<exists>r' s. store_run (RedisStore mem_ops (24 * Hour)) mem_start sample_ops = Some r' \<and>
     RedisStore_Get mem_ops r' (Some [1, 2]) = Inr s \<and>
     stored_of s = \<lparr>sd_user = [7], sd_device = [9], sd_status = StatusActive, sd_crypto = [5]\<rparr>"
proof -
  obtain r' where r': "store_run (RedisStore mem_ops (24 * Hour)) mem_start sample_ops = Some r'" "mem_up r'"
    using sample_run by blast
  let ?x = "\<lparr>sd_user = [7], sd_device = [9], sd_status = StatusActive, sd_crypto = [5 :: byte]\<rparr>"
  have "spec_run (redis_sessions (mem_view mem_start)) sample_ops = Some [[1, 2] \<mapsto> ?x]"
    by (simp add: mem_start_sessions sample_ops_def sample_session_def stored_of_def)
  from redis_store_refines [OF mem_store_ax mem_start_wf r'(1) this] r' show ?thesis by fastforce
qed

text \<open>
  A session created on an answering Redis reads back as it was written: the same identifiers,
  status and crypto state (a nil slice as an empty one), its three instants in whole seconds, and
  the connections already recorded under its identifier.
\<close>

lemma redis_create_get:
  assumes "redis_store R view avail advance ttl" and "avail r" and "redis_wf (view r)" and "times_ok s"
  shows "\<exists>r' conns. RedisStore_Create R ttl r s = (r', None) \<and>
    RedisStore_Get R r' (SessionID s) = Inr (read_back s conns) \<and>
    set conns = conns_of (v_hash (view r) (connKey (SessionID s)))"
  using redis_store.Create_Get [OF assms] by blast

lemma redis_create_get_instance:
  "\<exists>r'. RedisStore_Create mem_ops (24 * Hour) mem_start sample_session = (r', None) \<and>
     RedisStore_Get mem_ops r' (Some [1, 2]) = Inr (sample_session\<lparr>CryptoState := Some [],
       CreatedAt := 1000000000, LastActive := 1000000000\<rparr>)"
proof -
  have ok: "times_ok sample_session"
    by (simp add: times_ok_def sample_session_def in_int64_def int64_min_def int64_max_def to_unix_def
        Second_def)
  have "conns_of (v_hash (mem_view mem_start) k) = {}" for k
    by (simp add: conns_of_def mem_view_def mem_get_def mem_start_def)
  with redis_create_get [OF mem_store_ax _ mem_start_wf ok] show ?thesis
    by (simp add: mem_start_def sample_session_def read_back_def from_unix_def to_unix_def Second_def)
qed

text \<open>
  A connection added on an answering Redis is in the list of the session's connections, as it
  was given up to whole seconds; it replaces the one with its identifier and leaves the others,
  and no two listed connections share an identifier. The strings are ASCII.
\<close>

lemma redis_connection_roundtrip:
  assumes "redis_store R view avail advance ttl" and "avail r" and "redis_wf (view r)" and "conn_ok c"
  shows "\<exists>r' cs. RedisStore_AddConnection R r i c = (r', None) \<and>
    RedisStore_GetConnections R r' i = Inr cs \<and> distinct (map ConnectionID cs) \<and>
    set cs = insert (whole_seconds c)
      {x \<in> conns_of (v_hash (view r) (connKey i)). ConnectionID x \<noteq> ConnectionID c}"
  using redis_store.AddConnection_Get [OF assms] by blast

lemma redis_connection_roundtrip_instance:
  "\<exists>r'. RedisStore_AddConnection mem_ops mem_start (Some [1]) sample_conn = (r', None) \<and>
     RedisStore_GetConnections mem_ops r' (Some [1]) = Inr [sample_conn\<lparr>ConnectedAt := 2000000000\<rparr>]"
proof -
  have ok: "conn_ok sample_conn"
    by (simp add: conn_ok_def sample_conn_def transport_type_defs code_def in_int64_def int64_min_def
        int64_max_def to_unix_def Second_def)
  have up: "mem_up mem_start" by (simp add: mem_start_def)
  have no: "conns_of (v_hash (mem_view mem_start) k) = {}" for k
    by (simp add: conns_of_def mem_view_def mem_get_def mem_start_def)
  have ws: "whole_seconds sample_conn = sample_conn\<lparr>ConnectedAt := 2000000000\<rparr>"
    by (simp add: sample_conn_def whole_seconds_def from_unix_def to_unix_def Second_def)
  obtain r' cs where r': "RedisStore_AddConnection mem_ops mem_start (Some [1]) sample_conn = (r', None)"
      "RedisStore_GetConnections mem_ops r' (Some [1]) = Inr cs" "distinct (map ConnectionID cs)"
      "set cs = {sample_conn\<lparr>ConnectedAt := 2000000000\<rparr>}"
    using redis_connection_roundtrip [OF mem_store_ax up mem_start_wf ok, of "Some [1]"]
    by (auto simp: no ws)
  then have "cs = [sample_conn\<lparr>ConnectedAt := 2000000000\<rparr>]"
    by (cases cs; cases "tl cs") (auto simp: insert_eq_iff)
  with r' show ?thesis by blast
qed

text \<open>
  The lifetime of a session in Redis: with no further operation a created session is there until
  the time to live has passed and gone from then on, while its identifier stays in the user's set
  (\<open>Expire\<close> is set on the session's hash only), so \<open>GetUserSessions\<close> then lists a session
  that \<open>Get\<close> does not find.
\<close>

lemma redis_session_ttl:
  assumes "redis_store R view avail advance ttl" and "redis_wf (view r)"
    and "RedisStore_Create R ttl r s = (r', None)"
    and "v_deadline (view r) (userSessionsKey (UserID s)) = None" and "0 \<le> d"
  defines "w \<equiv> advance d r'"
  shows "redis_sessions (view w) (slice_bytes (SessionID s)) =
      (if d < expire_seconds ttl * Second then Some (stored_of s) else None) \<and>
    (\<forall>ids. RedisStore_GetUserSessions R w (UserID s) = Inr ids \<longrightarrow>
       Some (slice_bytes (SessionID s)) \<in> set ids)"
  using redis_store.session_ttl [OF assms(1-5)] by (simp add: w_def)

lemma redis_session_ttl_instance:
  "\<exists>r'. RedisStore_Create mem_ops (24 * Hour) mem_start sample_session = (r', None) \<and>
     redis_sessions (mem_view (mem_advance (23 * Hour) r')) [1, 2] = Some (stored_of sample_session) \<and>
     redis_sessions (mem_view (mem_advance (24 * Hour) r')) [1, 2] = None"
proof -
  obtain r' where r': "RedisStore_Create mem_ops (24 * Hour) mem_start sample_session = (r', None)"
    using mem.exec_view [OF _ mem_store.Create_typed [OF redis_wf_typed [OF mem_start_wf]], of sample_session]
    by (auto simp: mem_start_def mem_store.Create_exec)
  have dl: "v_deadline (mem_view mem_start) (userSessionsKey (UserID sample_session)) = None"
    by (simp add: mem_view_def mem_get_def mem_start_def)
  have id: "slice_bytes (SessionID sample_session) = [1, 2]" by (simp add: sample_session_def)
  have c: "0 \<le> 23 * Hour" "0 \<le> 24 * Hour" "expire_seconds (24 * Hour) * Second = 24 * Hour" "23 * Hour < 24 * Hour"
    by (simp_all add: expire_seconds_def Hour_def Minute_def Second_def)
  show ?thesis
    using r' redis_session_ttl [OF mem_store_ax mem_start_wf r' dl c(1)]
      redis_session_ttl [OF mem_store_ax mem_start_wf r' dl c(2)] by (simp add: id c)
qed

end
