(* ===== verification/Session_PG.thy ===== *)
theory Session_PG
  imports Session_Store Postgres
begin

text \<open>
  \<open>proto-core/session/pg_store.go\<close>: the table \<open>sessions\<close> with its constraints, the statements of
  the store, and the proof that the store meets the contract \<open>session_store\<close>. Connections are not
  persisted.
\<close>

section \<open>The table\<close>

record sess_row =
  r_session_id :: bytes
  r_user_id :: bytes
  r_device_id :: bytes
  r_crypto_state :: bytes
  r_status :: string
  r_created_at :: time
  r_updated_at :: time
  r_expires_at :: time

definition status_check :: "string \<Rightarrow> bool" where
  "status_check s \<longleftrightarrow> s \<in> {''connecting'', ''active'', ''sleeping'', ''expired''}"

definition sql_insert_session ::
  "slice \<Rightarrow> slice \<Rightarrow> slice \<Rightarrow> slice \<Rightarrow> string \<Rightarrow> time \<Rightarrow> time \<Rightarrow> time \<Rightarrow> sess_row list \<Rightarrow>
     goerr + sess_row list \<times> nat" where
  "sql_insert_session sid uid did cs status created updated expires rows =
     (case sid of None \<Rightarrow> Inl (null_violation ''session_id'') | Some sid' \<Rightarrow>
     (case uid of None \<Rightarrow> Inl (null_violation ''user_id'') | Some uid' \<Rightarrow>
     (case did of None \<Rightarrow> Inl (null_violation ''device_id'') | Some did' \<Rightarrow>
     (case cs of None \<Rightarrow> Inl (null_violation ''crypto_state'') | Some cs' \<Rightarrow>
      if \<not> status_check status then Inl check_violation
      else if \<exists>r \<in> set rows. r_session_id r = sid' then Inl unique_violation
      else Inr (rows @ [\<lparr>r_session_id = sid', r_user_id = uid', r_device_id = did', r_crypto_state = cs',
        r_status = status, r_created_at = pg_time created, r_updated_at = pg_time updated,
        r_expires_at = pg_time expires\<rparr>], 1)))))"

definition by_id :: "slice \<Rightarrow> sess_row \<Rightarrow> bool" where
  "by_id i r \<longleftrightarrow> sql_eq (r_session_id r) i"

section \<open>pg_store.go\<close>

type_synonym PGStore_db = "sess_row list pg"

definition PGStore_Migrate :: "PGStore_db \<Rightarrow> PGStore_db \<times> goerr option" where
  "PGStore_Migrate db = pg_migrate [] db"

definition PGStore_Create :: "PGStore_db \<Rightarrow> Session \<Rightarrow> PGStore_db \<times> goerr option" where
  "PGStore_Create db s = exec_err (pg_run
     (sql_insert_session (SessionID s) (UserID s) (DeviceID s) (CryptoState s) (SStatus s)
        (CreatedAt s) (CreatedAt s) (ExpiresAt s)) db)"

definition PGStore_Get :: "PGStore_db \<Rightarrow> slice \<Rightarrow> PGStore_db \<times> (goerr + Session)" where
  "PGStore_Get db i =
     (case pg_query (List.find (by_id i)) db of
        (db', Inl e) \<Rightarrow> (db', Inl (''session not found: '' @ e))
      | (db', Inr None) \<Rightarrow> (db', Inl (''session not found: '' @ ErrNoRows))
      | (db', Inr (Some r)) \<Rightarrow> (db', Inr
          \<lparr>SessionID = Some (r_session_id r), UserID = Some (r_user_id r), DeviceID = Some (r_device_id r),
           SStatus = r_status r, CryptoState = Some (r_crypto_state r), CreatedAt = r_created_at r,
           LastActive = r_updated_at r, ExpiresAt = r_expires_at r, Connections = []\<rparr>))"

definition PGStore_UpdateStatus :: "PGStore_db \<Rightarrow> slice \<Rightarrow> Status \<Rightarrow> PGStore_db \<times> goerr option" where
  "PGStore_UpdateStatus db i status = exec_err (pg_run (\<lambda>rows.
     if (\<exists>r \<in> set rows. by_id i r) \<and> \<not> status_check status then Inl check_violation
     else Inr (sql_update (by_id i)
       (\<lambda>r. r\<lparr>r_status := status, r_updated_at := pg_time (pg_now db)\<rparr>) rows)) db)"

definition PGStore_UpdateCryptoState :: "PGStore_db \<Rightarrow> slice \<Rightarrow> slice \<Rightarrow> PGStore_db \<times> goerr option" where
  "PGStore_UpdateCryptoState db i cs = exec_err (pg_run (\<lambda>rows.
     if (\<exists>r \<in> set rows. by_id i r) \<and> cs = None then Inl (null_violation ''crypto_state'')
     else Inr (sql_update (by_id i)
       (\<lambda>r. r\<lparr>r_crypto_state := slice_bytes cs, r_updated_at := pg_time (pg_now db)\<rparr>) rows)) db)"

definition PGStore_UpdateLastActive :: "PGStore_db \<Rightarrow> slice \<Rightarrow> PGStore_db \<times> goerr option" where
  "PGStore_UpdateLastActive db i = exec_err (pg_run (\<lambda>rows.
     Inr (sql_update (by_id i) (\<lambda>r. r\<lparr>r_updated_at := pg_time (pg_now db)\<rparr>) rows)) db)"

definition PGStore_Delete :: "PGStore_db \<Rightarrow> slice \<Rightarrow> PGStore_db \<times> goerr option" where
  "PGStore_Delete db i = exec_err (pg_run (\<lambda>rows. Inr (sql_delete (by_id i) rows)) db)"

definition PGStore_AddConnection :: "PGStore_db \<Rightarrow> slice \<Rightarrow> Connection \<Rightarrow> PGStore_db \<times> goerr option" where
  "PGStore_AddConnection db i c = (db, None)"

definition PGStore_RemoveConnection :: "PGStore_db \<Rightarrow> slice \<Rightarrow> string \<Rightarrow> PGStore_db \<times> goerr option" where
  "PGStore_RemoveConnection db i c = (db, None)"

definition PGStore_GetConnections :: "PGStore_db \<Rightarrow> slice \<Rightarrow> PGStore_db \<times> (goerr + Connection list)" where
  "PGStore_GetConnections db i = (db, Inr [])"

definition PGStore_GetUserSessions :: "PGStore_db \<Rightarrow> slice \<Rightarrow> PGStore_db \<times> (goerr + slice list)" where
  "PGStore_GetUserSessions db u = pg_query (\<lambda>rows. map (\<lambda>r. Some (r_session_id r))
     (filter (\<lambda>r. sql_eq (r_user_id r) u \<and> r_status r \<noteq> ''expired'') rows)) db"

definition PGStore :: "PGStore_db Store" where
  "PGStore = \<lparr>st_Create = PGStore_Create, st_Get = PGStore_Get, st_UpdateStatus = PGStore_UpdateStatus,
     st_UpdateCryptoState = PGStore_UpdateCryptoState,
     st_UpdateLastActive = (\<lambda>_. PGStore_UpdateLastActive), st_Delete = PGStore_Delete,
     st_AddConnection = PGStore_AddConnection, st_RemoveConnection = PGStore_RemoveConnection,
     st_GetConnections = PGStore_GetConnections, st_GetUserSessions = PGStore_GetUserSessions\<rparr>"

section \<open>The contract\<close>

definition row_stored :: "sess_row \<Rightarrow> stored" where
  "row_stored r = \<lparr>sd_user = r_user_id r, sd_device = r_device_id r, sd_status = r_status r,
     sd_crypto = r_crypto_state r\<rparr>"

definition table_map :: "sess_row list \<Rightarrow> bytes \<rightharpoonup> stored" where
  "table_map rows = map_of (map (\<lambda>r. (r_session_id r, row_stored r)) rows)"

definition pg_sessions :: "PGStore_db \<Rightarrow> bytes \<rightharpoonup> stored" where
  "pg_sessions db = (case pg_tab db of None \<Rightarrow> Map.empty | Some rows \<Rightarrow> table_map rows)"

text \<open>The constraints of the table: identifiers are unique and every status is one of the four.\<close>

definition pg_wf :: "PGStore_db \<Rightarrow> bool" where
  "pg_wf db \<longleftrightarrow> (\<forall>rows. pg_tab db = Some rows \<longrightarrow>
     distinct (map r_session_id rows) \<and> (\<forall>r \<in> set rows. status_check (r_status r)))"

lemma by_id_Some [simp]: "by_id (Some i) r \<longleftrightarrow> r_session_id r = i"
  by (auto simp: by_id_def sql_eq_def)

lemma table_map_simps [simp]:
  "table_map [] = Map.empty"
  "table_map (r # rows) = (table_map rows)(r_session_id r \<mapsto> row_stored r)"
  by (simp_all add: table_map_def)

lemma table_map_append:
  "\<forall>r' \<in> set rows. r_session_id r' \<noteq> r_session_id r \<Longrightarrow>
     table_map (rows @ [r]) = (table_map rows)(r_session_id r \<mapsto> row_stored r)"
  by (induction rows) (auto simp: fun_upd_twist)

lemma table_map_None: "table_map rows i = None \<longleftrightarrow> i \<notin> r_session_id ` set rows"
  by (induction rows) auto

lemma table_map_find: "map_option row_stored (List.find (by_id (Some i)) rows) = table_map rows i"
  by (induction rows) auto

lemma table_map_update:
  assumes "\<And>r. r_session_id (f r) = r_session_id r" "\<And>r. row_stored (f r) = g (row_stored r)"
  shows "table_map (fst (sql_update (by_id (Some i)) f rows)) =
    (case table_map rows i of None \<Rightarrow> table_map rows | Some x \<Rightarrow> (table_map rows)(i \<mapsto> g x))"
  by (induction rows) (auto simp: sql_update_def assms fun_upd_twist split: option.splits)

lemma table_map_delete:
  "table_map (fst (sql_delete (by_id (Some i)) rows)) = (table_map rows)(i := None)"
  by (induction rows) (auto simp: sql_delete_def fun_upd_twist)

lemma pg_wf_update:
  assumes "distinct (map r_session_id rows) \<and> (\<forall>r \<in> set rows. status_check (r_status r))"
    and "\<And>r. r_session_id (f r) = r_session_id r"
    and "\<And>r. status_check (r_status r) \<Longrightarrow> p r \<Longrightarrow> r \<in> set rows \<Longrightarrow> status_check (r_status (f r))"
  shows "distinct (map r_session_id (fst (sql_update p f rows))) \<and>
    (\<forall>r \<in> set (fst (sql_update p f rows)). status_check (r_status r))"
proof -
  have "map r_session_id (fst (sql_update p f rows)) = map r_session_id rows"
    by (simp add: sql_update_def assms(2))
  then have "distinct (map r_session_id (fst (sql_update p f rows)))" using assms(1) by metis
  moreover have "\<forall>r \<in> set (fst (sql_update p f rows)). status_check (r_status r)"
    using assms by (auto simp: sql_update_def)
  ultimately show ?thesis by blast
qed

text \<open>A statement that succeeds, as one step on the rows.\<close>

lemma pg_exec_step:
  assumes "exec_err (pg_run stmt db) = (db', None)" "pg_wf db"
    and "\<And>rows rows' n. pg_tab db = Some rows \<Longrightarrow> stmt rows = Inr (rows', n) \<Longrightarrow>
      distinct (map r_session_id rows) \<and> (\<forall>r \<in> set rows. status_check (r_status r)) \<Longrightarrow>
      (distinct (map r_session_id rows') \<and> (\<forall>r \<in> set rows'. status_check (r_status r))) \<and>
      table_map rows' = f (table_map rows)"
  shows "pg_wf db' \<and> pg_sessions db' = f (pg_sessions db)"
  using assms by (fastforce simp: pg_run_Inr pg_wf_def pg_sessions_def)

lemma pg_create_step:
  assumes "PGStore_Create db s = (db', None)" "pg_wf db"
  shows "pg_wf db' \<and> pg_sessions db' = (pg_sessions db)(slice_bytes (SessionID s) \<mapsto> stored_of s)"
  using assms unfolding PGStore_Create_def
proof (rule pg_exec_step)
  fix rows rows' :: "sess_row list" and n :: nat
  assume "sql_insert_session (SessionID s) (UserID s) (DeviceID s) (CryptoState s) (SStatus s)
      (CreatedAt s) (CreatedAt s) (ExpiresAt s) rows = Inr (rows', n)"
    and "distinct (map r_session_id rows) \<and> (\<forall>r \<in> set rows. status_check (r_status r))"
  then show "(distinct (map r_session_id rows') \<and> (\<forall>r \<in> set rows'. status_check (r_status r))) \<and>
      table_map rows' = (table_map rows)(slice_bytes (SessionID s) \<mapsto> stored_of s)"
    by (auto simp: sql_insert_session_def table_map_append row_stored_def stored_of_def
        split: option.splits if_splits)
qed

lemma pg_update_step:
  assumes "exec_err (pg_run (\<lambda>rows. if (\<exists>r \<in> set rows. by_id (Some i) r) \<and> bad then Inl e
      else Inr (sql_update (by_id (Some i)) f rows)) db) = (db', None)" "pg_wf db"
    and "\<And>r. r_session_id (f r) = r_session_id r" "\<And>r. row_stored (f r) = g (row_stored r)"
    and "\<And>r. \<not> bad \<Longrightarrow> status_check (r_status r) \<Longrightarrow> status_check (r_status (f r))"
  shows "pg_wf db' \<and> pg_sessions db' =
    (case pg_sessions db i of None \<Rightarrow> pg_sessions db | Some x \<Rightarrow> (pg_sessions db)(i \<mapsto> g x))"
  using assms(1,2)
proof (rule pg_exec_step)
  fix rows rows' :: "sess_row list" and n :: nat
  assume "(if (\<exists>r \<in> set rows. by_id (Some i) r) \<and> bad then Inl e
      else Inr (sql_update (by_id (Some i)) f rows)) = Inr (rows', n)"
    and wf: "distinct (map r_session_id rows) \<and> (\<forall>r \<in> set rows. status_check (r_status r))"
  then have ok: "(\<forall>r \<in> set rows. r_session_id r \<noteq> i) \<or> \<not> bad"
    and rows': "rows' = fst (sql_update (by_id (Some i)) f rows)"
    by (auto split: if_splits)
  from ok show "(distinct (map r_session_id rows') \<and> (\<forall>r \<in> set rows'. status_check (r_status r))) \<and>
      table_map rows' = (case table_map rows i of None \<Rightarrow> table_map rows | Some x \<Rightarrow> (table_map rows)(i \<mapsto> g x))"
    using pg_wf_update [OF wf assms(3), of "by_id (Some i)"] assms(5)
    by (auto simp: rows' table_map_update [OF assms(3,4)])
qed

lemma pg_delete_step:
  assumes "PGStore_Delete db (Some i) = (db', None)" "pg_wf db"
  shows "pg_wf db' \<and> pg_sessions db' = (pg_sessions db)(i := None)"
  using assms unfolding PGStore_Delete_def
proof (rule pg_exec_step)
  fix rows rows' :: "sess_row list" and n :: nat
  assume "Inr (sql_delete (by_id (Some i)) rows) = (Inr (rows', n) :: goerr + _)"
    and "distinct (map r_session_id rows) \<and> (\<forall>r \<in> set rows. status_check (r_status r))"
  then show "(distinct (map r_session_id rows') \<and> (\<forall>r \<in> set rows'. status_check (r_status r))) \<and>
      table_map rows' = (table_map rows)(i := None)"
    using table_map_delete [of i rows] by (auto simp: sql_delete_def distinct_map_filter)
qed

lemma pg_store_laws:
  assumes wf: "pg_wf db" and ok: "store_step PGStore db p = (db', None)"
    and spec: "spec_step (pg_sessions db) p = Some m"
  shows "pg_wf db' \<and> pg_sessions db' = m"
proof (cases p)
  case (OpCreate s)
  with ok spec pg_create_step [OF _ wf, of s db'] show ?thesis by (simp add: PGStore_def)
next
  case (OpUpdateStatus i t)
  with ok spec show ?thesis
    using pg_update_step [OF _ wf, of i "\<not> status_check t" check_violation
        "\<lambda>r. r\<lparr>r_status := t, r_updated_at := pg_time (pg_now db)\<rparr>" db' "\<lambda>x. x\<lparr>sd_status := t\<rparr>"]
    by (auto simp: PGStore_def PGStore_UpdateStatus_def row_stored_def)
next
  case (OpUpdateCryptoState i c)
  with ok spec show ?thesis
    using pg_update_step [OF _ wf, of i "c = None" "null_violation ''crypto_state''"
        "\<lambda>r. r\<lparr>r_crypto_state := slice_bytes c, r_updated_at := pg_time (pg_now db)\<rparr>" db'
        "\<lambda>x. x\<lparr>sd_crypto := slice_bytes c\<rparr>"]
    by (auto simp: PGStore_def PGStore_UpdateCryptoState_def row_stored_def)
next
  case (OpUpdateLastActive i t)
  with ok spec show ?thesis
    using pg_update_step [OF _ wf, of i False "[]"
        "\<lambda>r. r\<lparr>r_updated_at := pg_time (pg_now db)\<rparr>" db' "\<lambda>x. x"]
    by (auto simp: PGStore_def PGStore_UpdateLastActive_def row_stored_def fun_upd_idem)
next
  case (OpDelete i)
  with ok spec pg_delete_step [OF _ wf, of i db'] show ?thesis by (simp add: PGStore_def)
qed (use wf ok spec in \<open>auto simp: PGStore_def PGStore_AddConnection_def PGStore_RemoveConnection_def\<close>)

lemma pg_get_found:
  assumes "pg_wf db" "PGStore_Get db (Some i) = (db', Inr s)"
  shows "pg_wf db' \<and> pg_sessions db' = pg_sessions db \<and> pg_sessions db i = Some (stored_of s)"
proof -
  obtain r where q: "pg_query (List.find (by_id (Some i))) db = (db', Inr (Some r))"
    and s: "stored_of s = row_stored r"
    using assms(2) by (auto simp: PGStore_Get_def stored_of_def row_stored_def
        split: prod.splits sum.splits option.splits)
  then obtain rows where rows: "pg_tab db = Some rows" "List.find (by_id (Some i)) rows = Some r"
    by (auto simp: pg_query_Inr)
  with table_map_find [of i rows] have "pg_sessions db i = Some (row_stored r)"
    by (simp add: pg_sessions_def)
  with pg_query_tab [OF q] assms(1) s show ?thesis by (simp add: pg_wf_def pg_sessions_def)
qed

lemma table_map_in: "table_map rows i = Some x \<Longrightarrow> \<exists>r \<in> set rows. r_session_id r = i \<and> row_stored r = x"
  by (induction rows) (auto split: if_splits)

interpretation pgs: session_store PGStore pg_wf pg_sessions
proof
  fix db db' p m i s u ids x
  show "pg_wf db \<Longrightarrow> store_step PGStore db p = (db', None) \<Longrightarrow> spec_step (pg_sessions db) p = Some m \<Longrightarrow>
      pg_wf db' \<and> pg_sessions db' = m"
    by (rule pg_store_laws)
  show "pg_wf db \<Longrightarrow> st_Get PGStore db (Some i) = (db', Inr s) \<Longrightarrow>
      pg_wf db' \<and> pg_sessions db' = pg_sessions db \<and> pg_sessions db i = Some (stored_of s)"
    by (simp add: PGStore_def pg_get_found)
  show "st_GetUserSessions PGStore db (Some u) = (db', Inr ids) \<Longrightarrow> pg_sessions db i = Some x \<Longrightarrow>
      sd_user x = u \<Longrightarrow> sd_status x \<noteq> StatusExpired \<Longrightarrow> Some i \<in> set ids"
    by (auto simp: PGStore_def PGStore_GetUserSessions_def pg_query_Inr pg_sessions_def row_stored_def
        StatusExpired_def sql_eq_def dest!: table_map_in)
qed

end
