(* ===== verification/Session_Manager.thy ===== *)
theory Session_Manager
  imports Session_Redis Session_PG
begin

text \<open>
  \<open>proto-core/session/manager.go\<close>: the manager that keeps sessions in Redis and, when it is
  configured, in PostgreSQL. The random source and the clock are arguments: \<open>rnd\<close> is what
  \<open>rand.Read\<close> delivers and \<open>now\<close> what \<open>time.Now()\<close> returns.
\<close>

section \<open>manager.go\<close>

record 'r Manager =
  mg_redis :: 'r
  mg_pg :: "PGStore_db option"
  mg_config :: Config

definition NewManager :: "'r \<Rightarrow> PGStore_db option \<Rightarrow> Config \<Rightarrow> 'r Manager" where
  "NewManager r pg config = \<lparr>mg_redis = r, mg_pg = pg, mg_config = config\<rparr>"

datatype mgr_error = StoreError goerr | TransitionError transition_error

definition CreateSession ::
  "'r redis_ops \<Rightarrow> duration \<Rightarrow> goerr + bytes \<Rightarrow> time \<Rightarrow> 'r Manager \<Rightarrow> slice \<Rightarrow> slice \<Rightarrow>
     'r Manager \<times> (goerr + Session)" where
  "CreateSession R ttl rnd now m userID deviceID =
     (case rnd of Inl e \<Rightarrow> (m, Inl (''generate session id: '' @ e))
      | Inr sessionID \<Rightarrow>
          (let s = \<lparr>SessionID = Some sessionID, UserID = userID, DeviceID = deviceID,
                 SStatus = StatusConnecting, CryptoState = None, CreatedAt = now, LastActive = now,
                 ExpiresAt = now + ExpiryTimeout (mg_config m), Connections = []\<rparr>;
               (r1, err) = RedisStore_Create R ttl (mg_redis m) s;
               m1 = m\<lparr>mg_redis := r1\<rparr>
           in case err of Some e \<Rightarrow> (m1, Inl (''redis create: '' @ e))
           | None \<Rightarrow>
               (case mg_pg m1 of None \<Rightarrow> (m1, Inr s)
                | Some db \<Rightarrow>
                    (let (db1, perr) = PGStore_Create db s;
                         m2 = m1\<lparr>mg_pg := Some db1\<rparr>
                     in case perr of Some e \<Rightarrow> (m2, Inl (''pg create: '' @ e)) | None \<Rightarrow> (m2, Inr s)))))"

definition GetSession :: "'r redis_ops \<Rightarrow> 'r Manager \<Rightarrow> slice \<Rightarrow> 'r Manager \<times> (goerr + Session)" where
  "GetSession R m sessionID =
     (case RedisStore_Get R (mg_redis m) sessionID of Inr s \<Rightarrow> (m, Inr s)
      | Inl e \<Rightarrow>
          (case mg_pg m of None \<Rightarrow> (m, Inl e)
           | Some db \<Rightarrow> (let (db1, res) = PGStore_Get db sessionID in (m\<lparr>mg_pg := Some db1\<rparr>, res))))"

text \<open>\<open>_ = m.pg.Delete(...)\<close> and \<open>_ = m.pg.UpdateStatus(...)\<close>: the outcome is dropped.\<close>

definition on_pg :: "(PGStore_db \<Rightarrow> PGStore_db \<times> goerr option) \<Rightarrow> 'r Manager \<Rightarrow> 'r Manager" where
  "on_pg f m = (case mg_pg m of None \<Rightarrow> m | Some db \<Rightarrow> m\<lparr>mg_pg := Some (fst (f db))\<rparr>)"

definition TransitionSession ::
  "'r redis_ops \<Rightarrow> duration \<Rightarrow> time \<Rightarrow> 'r Manager \<Rightarrow> slice \<Rightarrow> Event \<Rightarrow>
     'r Manager \<times> (mgr_error + Session option)" where
  "TransitionSession R ttl now m sessionID event =
     (case RedisStore_Get R (mg_redis m) sessionID of Inl e \<Rightarrow> (m, Inl (StoreError e))
      | Inr s \<Rightarrow>
          (case Transition (SStatus s) event of Inl e \<Rightarrow> (m, Inl (TransitionError e))
           | Inr (nxt, True) \<Rightarrow>
               (let (r1, delErr) = RedisStore_Delete R (mg_redis m) sessionID;
                    m1 = m\<lparr>mg_redis := r1\<rparr>
                in case delErr of Some e \<Rightarrow> (m1, Inl (StoreError (''delete session: '' @ e)))
                | None \<Rightarrow> (on_pg (\<lambda>db. PGStore_Delete db sessionID) m1, Inr None))
           | Inr (nxt, False) \<Rightarrow>
               (let (r1, err) = RedisStore_UpdateStatus R (mg_redis m) sessionID nxt;
                    m1 = m\<lparr>mg_redis := r1\<rparr>
                in case err of Some e \<Rightarrow> (m1, Inl (StoreError (''redis update status: '' @ e)))
                | None \<Rightarrow>
                    (let m2 = (if event = EventPacketReceived
                               then m1\<lparr>mg_redis := fst (RedisStore_UpdateLastActive R ttl now r1 sessionID)\<rparr>
                               else m1);
                         m3 = on_pg (\<lambda>db. PGStore_UpdateStatus db sessionID nxt) m2
                     in (m3, Inr (Some (s\<lparr>SStatus := nxt\<rparr>)))))))"

definition UpdateCryptoState ::
  "'r redis_ops \<Rightarrow> 'r Manager \<Rightarrow> slice \<Rightarrow> slice \<Rightarrow> 'r Manager \<times> goerr option" where
  "UpdateCryptoState R m sessionID cryptoState =
     (let (r1, err) = RedisStore_UpdateCryptoState R (mg_redis m) sessionID cryptoState;
          m1 = m\<lparr>mg_redis := r1\<rparr>
      in case err of Some e \<Rightarrow> (m1, Some e)
      | None \<Rightarrow>
          (case mg_pg m1 of None \<Rightarrow> (m1, None)
           | Some db \<Rightarrow>
               (let (db1, perr) = PGStore_UpdateCryptoState db sessionID cryptoState
                in (m1\<lparr>mg_pg := Some db1\<rparr>, perr))))"

text \<open>The count is returned with an error too.\<close>

definition RegisterConnection ::
  "'r redis_ops \<Rightarrow> 'r Manager \<Rightarrow> slice \<Rightarrow> Connection \<Rightarrow> 'r Manager \<times> nat \<times> goerr option" where
  "RegisterConnection R m sessionID conn =
     (case RedisStore_GetConnections R (mg_redis m) sessionID of Inl e \<Rightarrow> (m, 0, Some e)
      | Inr existing \<Rightarrow>
          if MaxConnections (mg_config m) \<le> int (length existing)
          then (m, length existing,
                Some (''max connections ('' @ show_int (MaxConnections (mg_config m)) @ '') reached''))
          else (let (r1, err) = RedisStore_AddConnection R (mg_redis m) sessionID conn;
                    m1 = m\<lparr>mg_redis := r1\<rparr>
                in case err of Some e \<Rightarrow> (m1, 0, Some e) | None \<Rightarrow> (m1, length existing + 1, None)))"

definition UnregisterConnection ::
  "'r redis_ops \<Rightarrow> 'r Manager \<Rightarrow> slice \<Rightarrow> string \<Rightarrow> 'r Manager \<times> goerr option" where
  "UnregisterConnection R m sessionID connectionID =
     (let (r1, err) = RedisStore_RemoveConnection R (mg_redis m) sessionID connectionID
      in (m\<lparr>mg_redis := r1\<rparr>, err))"

definition GetUserSessions :: "'r redis_ops \<Rightarrow> 'r Manager \<Rightarrow> slice \<Rightarrow> goerr + slice list" where
  "GetUserSessions R m userID = RedisStore_GetUserSessions R (mg_redis m) userID"

section \<open>Creating sessions\<close>

text \<open>The session \<open>CreateSession\<close> builds.\<close>

definition new_session :: "Config \<Rightarrow> bytes \<Rightarrow> time \<Rightarrow> slice \<Rightarrow> slice \<Rightarrow> Session" where
  "new_session cfg i now u d = \<lparr>SessionID = Some i, UserID = u, DeviceID = d, SStatus = StatusConnecting,
     CryptoState = None, CreatedAt = now, LastActive = now, ExpiresAt = now + ExpiryTimeout cfg,
     Connections = []\<rparr>"

lemma pg_create_new_session: "\<exists>db' e. PGStore_Create db (new_session cfg i now u d) = (db', Some e)"
proof (cases "PGStore_Create db (new_session cfg i now u d)")
  case (Pair db' err)
  have "sql_insert_session (Some i) u d None StatusConnecting a b c rows \<noteq> Inr y" for a b c rows y
    by (simp add: sql_insert_session_def split: option.splits)
  with Pair show ?thesis
    by (cases err) (auto simp: PGStore_Create_def new_session_def pg_run_Inr)
qed

lemma CreateSession_redis:
  assumes "RedisStore_Create R ttl (mg_redis m) (new_session (mg_config m) i now u d) = (r1, None)"
  shows "mg_pg m = None \<Longrightarrow> CreateSession R ttl (Inr i) now m u d =
      (m\<lparr>mg_redis := r1\<rparr>, Inr (new_session (mg_config m) i now u d))"
    and "mg_pg m = Some db \<Longrightarrow> \<exists>db' e. CreateSession R ttl (Inr i) now m u d =
      (m\<lparr>mg_redis := r1, mg_pg := Some db'\<rparr>, Inl (''pg create: '' @ e))"
  using assms pg_create_new_session [of db "mg_config m" i now u d]
  by (auto simp: CreateSession_def new_session_def)

lemma stored_of_status [simp]: "stored_of (s\<lparr>SStatus := t\<rparr>) = (stored_of s)\<lparr>sd_status := t\<rparr>"
  by (simp add: stored_of_def)

section \<open>Transitions over an answering Redis\<close>

context redis_store
begin

lemma Get_found:
  assumes "avail r" "redis_wf (view r)" "redis_sessions (view r) i = Some x"
  shows "\<exists>s. RedisStore_Get R r (Some i) = Inr s \<and> stored_of s = x"
  using Get_avail [OF assms(1) redis_wf_typed [OF assms(2)], of "Some i" x] assms(3) by auto

lemma UpdateStatus_avail:
  assumes "avail r" "redis_wf (view r)" "redis_sessions (view r) i = Some x"
  obtains r' where "RedisStore_UpdateStatus R r (Some i) t = (r', None)" "avail r'" "redis_wf (view r')"
    "redis_sessions (view r') = (redis_sessions (view r))(i \<mapsto> x\<lparr>sd_status := t\<rparr>)"
proof -
  obtain r' where r': "RedisStore_UpdateStatus R r (Some i) t = (r', None)" "avail r'"
    using exec_avail [OF assms(1), of "[HSet (sessionKey (Some i)) [(''status'', t)]]"]
      redis_wf_typed [OF assms(2)] by (auto simp: RedisStore_UpdateStatus_def)
  with store_laws [OF assms(2), of "OpUpdateStatus i t" r'] assms(3) that show thesis
    by (simp add: RedisStore_def)
qed

lemma UpdateLastActive_avail:
  assumes "avail r" "redis_wf (view r)" "redis_sessions (view r) i = Some x"
  obtains r' where "RedisStore_UpdateLastActive R ttl t r (Some i) = (r', None)" "avail r'"
    "redis_wf (view r')" "redis_sessions (view r') = redis_sessions (view r)"
proof -
  obtain r' where r': "RedisStore_UpdateLastActive R ttl t r (Some i) = (r', None)" "avail r'"
    using exec_avail [OF assms(1), of "[HSet (sessionKey (Some i)) [(''last_active'', show_int (to_unix t))],
        Expire (sessionKey (Some i)) ttl]"] redis_wf_typed [OF assms(2)]
    by (auto simp: RedisStore_UpdateLastActive_def)
  with store_laws [OF assms(2), of "OpUpdateLastActive i t" r'] assms(3) that show thesis
    by (simp add: RedisStore_def)
qed

lemma Delete_avail:
  assumes "avail r" "redis_wf (view r)" "redis_sessions (view r) i = Some x"
  obtains r' where "RedisStore_Delete R r (Some i) = (r', None)" "avail r'" "redis_wf (view r')"
    "redis_sessions (view r') = (redis_sessions (view r))(i := None)"
proof -
  note typed = redis_wf_typed [OF assms(2)]
  obtain s where s: "RedisStore_Get R r (Some i) = Inr s"
    using Get_found [OF assms] by blast
  have "cmds_typed [Del (sessionKey (Some i)), Del (connKey (Some i)),
      SRem (userSessionsKey (UserID s)) (hex_encode i)] (view r)"
    using redis_typed_keys(3) [OF typed, of "UserID s"] by (simp add: set_key_def)
  from exec_avail [OF assms(1) this]
  obtain r' where r': "RedisStore_Delete R r (Some i) = (r', None)" "avail r'"
    using s by (auto simp: RedisStore_Delete_def)
  with Delete_step [OF assms(2), of "Some i" r'] that show thesis by simp
qed

lemma on_pg_redis [simp]: "mg_redis (on_pg f m) = mg_redis m"
  by (simp add: on_pg_def split: option.splits)

lemma TransitionSession_accepts:
  assumes "avail (mg_redis m)" "redis_wf (view (mg_redis m))"
    and "redis_sessions (view (mg_redis m)) i = Some x" "Transition (sd_status x) e = Inr (nxt, False)"
  shows "\<exists>m' s. TransitionSession R ttl now m (Some i) e = (m', Inr (Some s)) \<and> avail (mg_redis m') \<and>
    stored_of s = x\<lparr>sd_status := nxt\<rparr> \<and> redis_wf (view (mg_redis m')) \<and>
    redis_sessions (view (mg_redis m')) = (redis_sessions (view (mg_redis m)))(i \<mapsto> x\<lparr>sd_status := nxt\<rparr>)"
proof -
  obtain s where s: "RedisStore_Get R (mg_redis m) (Some i) = Inr s" "stored_of s = x"
    using Get_found [OF assms(1-3)] by blast
  then have st: "SStatus s = sd_status x" by (auto simp: stored_of_def)
  obtain r1 where r1: "RedisStore_UpdateStatus R (mg_redis m) (Some i) nxt = (r1, None)" "avail r1"
      "redis_wf (view r1)"
      "redis_sessions (view r1) = (redis_sessions (view (mg_redis m)))(i \<mapsto> x\<lparr>sd_status := nxt\<rparr>)"
    by (rule UpdateStatus_avail [OF assms(1-3)])
  have r1i: "redis_sessions (view r1) i = Some (x\<lparr>sd_status := nxt\<rparr>)" by (simp add: r1(4))
  obtain r2 where r2: "RedisStore_UpdateLastActive R ttl now r1 (Some i) = (r2, None)" "avail r2"
      "redis_wf (view r2)" "redis_sessions (view r2) = redis_sessions (view r1)"
    by (rule UpdateLastActive_avail [OF r1(2,3) r1i])
  have "TransitionSession R ttl now m (Some i) e =
      (on_pg (\<lambda>db. PGStore_UpdateStatus db (Some i) nxt)
        (m\<lparr>mg_redis := (if e = EventPacketReceived then r2 else r1)\<rparr>), Inr (Some (s\<lparr>SStatus := nxt\<rparr>)))"
    by (simp add: TransitionSession_def s(1) st r1(1) r2(1) assms(4))
  moreover have "stored_of (s\<lparr>SStatus := nxt\<rparr>) = x\<lparr>sd_status := nxt\<rparr>" by (simp add: s(2))
  moreover have "redis_sessions (view r2) = (redis_sessions (view (mg_redis m)))(i \<mapsto> x\<lparr>sd_status := nxt\<rparr>)"
    by (simp only: r1(4) r2(4))
  ultimately show ?thesis
    using r1(2-4) r2(2,3) by (intro exI conjI) (assumption | simp)+
qed

lemma TransitionSession_destroys:
  assumes "avail (mg_redis m)" "redis_wf (view (mg_redis m))"
    and "redis_sessions (view (mg_redis m)) i = Some x" "Transition (sd_status x) e = Inr (nxt, True)"
  shows "\<exists>m'. TransitionSession R ttl now m (Some i) e = (m', Inr None) \<and> avail (mg_redis m') \<and>
    redis_wf (view (mg_redis m')) \<and>
    redis_sessions (view (mg_redis m')) = (redis_sessions (view (mg_redis m)))(i := None)"
proof -
  obtain s where s: "RedisStore_Get R (mg_redis m) (Some i) = Inr s" "stored_of s = x"
    using Get_found [OF assms(1-3)] by blast
  then have st: "SStatus s = sd_status x" by (auto simp: stored_of_def)
  obtain r1 where r1: "RedisStore_Delete R (mg_redis m) (Some i) = (r1, None)" "avail r1" "redis_wf (view r1)"
      "redis_sessions (view r1) = (redis_sessions (view (mg_redis m)))(i := None)"
    by (rule Delete_avail [OF assms(1-3)])
  have "TransitionSession R ttl now m (Some i) e =
      (on_pg (\<lambda>db. PGStore_Delete db (Some i)) (m\<lparr>mg_redis := r1\<rparr>), Inr None)"
    by (simp add: TransitionSession_def s(1) st r1(1) assms(4))
  then show ?thesis using r1(2-4) by (intro exI conjI) (assumption | simp)+
qed

lemma TransitionSession_rejects:
  assumes "avail (mg_redis m)" "redis_wf (view (mg_redis m))"
    and "redis_sessions (view (mg_redis m)) i = Some x" "Transition (sd_status x) e = Inl err"
  shows "TransitionSession R ttl now m (Some i) e = (m, Inl (TransitionError err))"
proof -
  obtain s where s: "RedisStore_Get R (mg_redis m) (Some i) = Inr s" "stored_of s = x"
    using Get_found [OF assms(1-3)] by blast
  then have st: "SStatus s = sd_status x" by (auto simp: stored_of_def)
  show ?thesis by (simp only: TransitionSession_def s(1) st sum.case assms(4))
qed

lemma TransitionSession_missing:
  assumes "redis_sessions (view (mg_redis m)) i = None"
  shows "\<exists>err. TransitionSession R ttl now m (Some i) e = (m, Inl (StoreError err))"
proof (cases "RedisStore_Get R (mg_redis m) (Some i)")
  case (Inl err)
  then show ?thesis by (simp add: TransitionSession_def)
next
  case (Inr s)
  from Get_Inr(1) [OF this] assms show ?thesis by simp
qed

end

section \<open>The connection limit\<close>

text \<open>
  \<open>RegisterConnection\<close> reads the connections and then writes: two requests to Redis. The two
  halves, as the steps another client's requests may come between.
\<close>

definition register_read :: "'r redis_ops \<Rightarrow> Config \<Rightarrow> slice \<Rightarrow> 'r \<Rightarrow> (nat \<times> goerr) + nat" where
  "register_read R cfg sessionID r =
     (case RedisStore_GetConnections R r sessionID of Inl e \<Rightarrow> Inl (0, e)
      | Inr existing \<Rightarrow>
          if MaxConnections cfg \<le> int (length existing)
          then Inl (length existing, ''max connections ('' @ show_int (MaxConnections cfg) @ '') reached'')
          else Inr (length existing))"

definition register_write ::
  "'r redis_ops \<Rightarrow> slice \<Rightarrow> Connection \<Rightarrow> nat \<Rightarrow> 'r \<Rightarrow> 'r \<times> nat \<times> goerr option" where
  "register_write R sessionID conn n r =
     (let (r1, err) = RedisStore_AddConnection R r sessionID conn
      in case err of Some e \<Rightarrow> (r1, 0, Some e) | None \<Rightarrow> (r1, n + 1, None))"

lemma RegisterConnection_halves:
  "RegisterConnection R m i conn =
     (case register_read R (mg_config m) i (mg_redis m) of Inl (n, e) \<Rightarrow> (m, n, Some e)
      | Inr n \<Rightarrow> (let (r1, k, err) = register_write R i conn n (mg_redis m) in (m\<lparr>mg_redis := r1\<rparr>, k, err)))"
  by (auto simp: RegisterConnection_def register_read_def register_write_def Let_def
      split: sum.splits prod.splits option.splits)

lemma card_insert_filter:
  assumes "finite S"
  shows "card (insert c {x \<in> S. f x \<noteq> k}) \<le> card S + 1"
  using card_insert_le_m1 [of "card S + 1" "{x \<in> S. f x \<noteq> k}" c] card_mono [OF assms, of "{x \<in> S. f x \<noteq> k}"]
  by auto

definition live_conns :: "redis_view \<Rightarrow> slice \<Rightarrow> Connection set" where
  "live_conns v i = conns_of (v_hash v (connKey i))"

context redis_store
begin

lemma length_connections:
  assumes "RedisStore_GetConnections R r i = Inr cs"
  shows "length cs = card (live_conns (view r) i)" "finite (live_conns (view r) i)"
  using GetConnections_view [OF assms] distinct_card [of cs]
  by (auto simp: live_conns_def distinct_map) (metis List.finite_set)

lemma register_bound:
  assumes "avail (mg_redis m)" "redis_wf (view (mg_redis m))" "conn_ok c"
    and "RegisterConnection R m i c = (m', n, None)"
  shows "whole_seconds c \<in> live_conns (view (mg_redis m')) i"
    and "card (live_conns (view (mg_redis m')) i) \<le> n" "int n \<le> MaxConnections (mg_config m)"
    and "\<forall>x \<in> live_conns (view (mg_redis m)) i. ConnectionID x \<noteq> ConnectionID c \<Longrightarrow>
      card (live_conns (view (mg_redis m')) i) = n"
proof -
  obtain cs where cs: "RedisStore_GetConnections R (mg_redis m) i = Inr cs"
    and n: "int (length cs) < MaxConnections (mg_config m)" "n = length cs + 1"
    and add: "RedisStore_AddConnection R (mg_redis m) i c = (mg_redis m', None)"
    using assms(4) by (auto simp: RegisterConnection_def Let_def
        split: sum.splits if_splits prod.splits option.splits)
  from AddConnection_Get [OF assms(1-3), of i] add obtain cs'
    where cs': "RedisStore_GetConnections R (mg_redis m') i = Inr cs'"
      "set cs' = insert (whole_seconds c) {x \<in> live_conns (view (mg_redis m)) i. ConnectionID x \<noteq> ConnectionID c}"
    by (auto simp: live_conns_def)
  have live: "live_conns (view (mg_redis m')) i =
      insert (whole_seconds c) {x \<in> live_conns (view (mg_redis m)) i. ConnectionID x \<noteq> ConnectionID c}"
    using GetConnections_view(1) [OF cs'(1)] cs'(2) by (simp add: live_conns_def)
  note len = length_connections [OF cs]
  show "whole_seconds c \<in> live_conns (view (mg_redis m')) i" by (simp add: live)
  show "card (live_conns (view (mg_redis m')) i) \<le> n"
    using card_insert_filter [OF len(2)] len(1) n by (simp add: live)
  show "int n \<le> MaxConnections (mg_config m)" using n by simp
  show "\<forall>x \<in> live_conns (view (mg_redis m)) i. ConnectionID x \<noteq> ConnectionID c \<Longrightarrow>
      card (live_conns (view (mg_redis m')) i) = n"
  proof -
    assume new: "\<forall>x \<in> live_conns (view (mg_redis m)) i. ConnectionID x \<noteq> ConnectionID c"
    then have "{x \<in> live_conns (view (mg_redis m)) i. ConnectionID x \<noteq> ConnectionID c}
        = live_conns (view (mg_redis m)) i" by auto
    moreover have "whole_seconds c \<notin> live_conns (view (mg_redis m)) i"
      using new by (auto simp: whole_seconds_def)
    ultimately show ?thesis using len n by (simp add: live)
  qed
qed

lemma register_write_live:
  assumes "avail r" "redis_wf (view r)" "conn_ok c"
    and "\<forall>x \<in> live_conns (view r) i. ConnectionID x \<noteq> ConnectionID c" "finite (live_conns (view r) i)"
  shows "\<exists>r'. register_write R i c n r = (r', n + 1, None) \<and> avail r' \<and> redis_wf (view r') \<and>
    live_conns (view r') i = insert (whole_seconds c) (live_conns (view r) i) \<and>
    card (live_conns (view r') i) = card (live_conns (view r) i) + 1"
proof -
  obtain r' cs where r': "RedisStore_AddConnection R r i c = (r', None)" "avail r'"
      "RedisStore_GetConnections R r' i = Inr cs"
      "set cs = insert (whole_seconds c) {x \<in> live_conns (view r) i. ConnectionID x \<noteq> ConnectionID c}"
    using AddConnection_Get [OF assms(1-3), of i] by (auto simp: live_conns_def)
  have "{x \<in> live_conns (view r) i. ConnectionID x \<noteq> ConnectionID c} = live_conns (view r) i"
    using assms(4) by auto
  then have live: "live_conns (view r') i = insert (whole_seconds c) (live_conns (view r) i)"
    using GetConnections_view(1) [OF r'(3)] r'(4) by (simp add: live_conns_def)
  moreover have "whole_seconds c \<notin> live_conns (view r) i"
    using assms(4) by (auto simp: whole_seconds_def)
  moreover have "redis_wf (view r')"
  proof -
    have "rd_Exec R r [HSet (connKey i) [(ConnectionID c, conn_data c)]] = (r', None)"
      using r'(1) by (simp add: AddConnection_exec)
    from exec_effect [OF this] have "view r' = cmd_effect (HSet (connKey i) [(ConnectionID c, conn_data c)]) (view r)"
      by (simp only: fold_simps)
    from conn_step(1) [OF assms(2) this disjI1 [OF refl]] show ?thesis .
  qed
  ultimately show ?thesis using r'(1,2) assms(5) by (simp add: register_write_def)
qed

end

section \<open>A sample deployment\<close>

definition sample_manager :: "mem_redis Manager" where
  "sample_manager = NewManager mem_start None (DefaultConfig\<lparr>MaxConnections := 1\<rparr>)"

definition sample_conn2 :: Connection where
  "sample_conn2 = sample_conn\<lparr>ConnectionID := ''c2''\<rparr>"

lemma sample_conn_ok: "conn_ok sample_conn" "conn_ok sample_conn2"
  by (simp_all add: conn_ok_def sample_conn_def sample_conn2_def transport_type_defs code_def in_int64_def
      int64_min_def int64_max_def to_unix_def Second_def)

lemma sample_manager_up: "mem_up (mg_redis sample_manager)" "redis_wf (mem_view (mg_redis sample_manager))"
  using mem_start_wf by (simp_all add: sample_manager_def NewManager_def mem_start_def)

section \<open>Properties\<close>

text \<open>
  C7. \<open>TransitionSession\<close> moves the stored session exactly as the transition table says, over any
  answering Redis: an event the table rejects changes nothing and returns the table's error; one
  that destroys the session removes it and returns nil; any other writes the next status, leaves the
  other data and every other session, and returns the session with that status. An unknown session
  is an error that changes nothing.
\<close>

theorem transition_session_refines:
  assumes "redis_store R view avail advance ttl" and "avail (mg_redis m)" and "redis_wf (view (mg_redis m))"
  defines "sess \<equiv> \<lambda>m. redis_sessions (view (mg_redis m))"
  shows "case sess m i of
      None \<Rightarrow> (\<exists>err. TransitionSession R ttl now m (Some i) e = (m, Inl (StoreError err)))
    | Some x \<Rightarrow>
        (case Transition (sd_status x) e of
           Inl err \<Rightarrow> TransitionSession R ttl now m (Some i) e = (m, Inl (TransitionError err))
         | Inr (nxt, gone) \<Rightarrow>
             (\<exists>m' res. TransitionSession R ttl now m (Some i) e = (m', Inr res) \<and>
               redis_wf (view (mg_redis m')) \<and>
               (if gone then res = None \<and> sess m' = (sess m)(i := None)
                else sess m' = (sess m)(i \<mapsto> x\<lparr>sd_status := nxt\<rparr>) \<and>
                  map_option stored_of res = Some (x\<lparr>sd_status := nxt\<rparr>))))"
proof (cases "sess m i")
  case None
  then show ?thesis
    using redis_store.TransitionSession_missing [OF assms(1), of m i now e] by (simp add: sess_def)
next
  case (Some x)
  show ?thesis
  proof (cases "Transition (sd_status x) e")
    case (Inl err)
    with Some show ?thesis
      using redis_store.TransitionSession_rejects [OF assms(1-3), of i x e err now] by (simp add: sess_def)
  next
    case (Inr p)
    obtain nxt gone where p: "p = (nxt, gone)" by (cases p)
    have x: "redis_sessions (view (mg_redis m)) i = Some x" using Some by (simp add: sess_def)
    show ?thesis
    proof (cases gone)
      case True
      with Inr p have "Transition (sd_status x) e = Inr (nxt, True)" by simp
      from redis_store.TransitionSession_destroys [OF assms(1-3) x this, of now] show ?thesis
        using Some Inr p True by (auto simp: sess_def)
    next
      case False
      with Inr p have "Transition (sd_status x) e = Inr (nxt, False)" by simp
      from redis_store.TransitionSession_accepts [OF assms(1-3) x this, of now] show ?thesis
        using Some Inr p False by (fastforce simp: sess_def)
    qed
  qed
qed

lemma sample_created:
  "\<exists>r. RedisStore_Create mem_ops (24 * Hour) mem_start sample_session = (r, None) \<and> mem_up r \<and>
     redis_wf (mem_view r) \<and> redis_sessions (mem_view r) = [[1, 2] \<mapsto> stored_of sample_session]"
proof -
  have up: "mem_up mem_start" by (simp add: mem_start_def)
  obtain r where r: "rd_Exec mem_ops mem_start (create_cmds (24 * Hour) sample_session) = (r, None)" "mem_up r"
      "mem_view r = fold cmd_effect (create_cmds (24 * Hour) sample_session) (mem_view mem_start)"
    by (rule mem.exec_view [OF up mem_store.Create_typed [OF redis_wf_typed [OF mem_start_wf]]])
  have id: "slice_bytes (SessionID sample_session) = [1, 2]" by (simp add: sample_session_def)
  show ?thesis
    using r create_wf [OF mem_start_wf mem_store.ttl_pos, of sample_session]
    by (simp add: mem_store.Create_exec mem_start_sessions id)
qed

theorem transition_session_refines_witness:
  "\<exists>m m' s. TransitionSession mem_ops (24 * Hour) 5 m (Some [1, 2]) EventHandshakeOK = (m', Inr (Some s)) \<and>
     stored_of s = (stored_of sample_session)\<lparr>sd_status := StatusActive\<rparr>"
proof -
  obtain r where r: "mem_up r" "redis_wf (mem_view r)"
      "redis_sessions (mem_view r) = [[1, 2] \<mapsto> stored_of sample_session]"
    using sample_created by blast
  let ?m = "NewManager r None DefaultConfig"
  have tr: "Transition (sd_status (stored_of sample_session)) EventHandshakeOK = Inr (StatusActive, False)"
    by (simp add: stored_of_def sample_session_def Transition_def transitions_def to_status_def)
  have m: "mg_redis ?m = r" by (simp add: NewManager_def)
  from transition_session_refines [OF mem_store_ax, where m = ?m and i = "[1, 2]" and now = 5 and e = EventHandshakeOK,
      unfolded m, OF r(1,2)]
  show ?thesis by (auto simp: r(3) tr)
qed

text \<open>
  Without PostgreSQL, \<open>CreateSession\<close> over an answering Redis succeeds with a session in the
  connecting status that expires \<open>ExpiryTimeout\<close> after its creation, and \<open>GetSession\<close> then
  returns that session up to whole seconds.
\<close>

lemma create_session_get:
  assumes "redis_store R view avail advance ttl" and "avail (mg_redis m)" and "redis_wf (view (mg_redis m))"
    and "mg_pg m = None" and "times_ok (new_session (mg_config m) i now u d)"
  shows "\<exists>m' s conns. CreateSession R ttl (Inr i) now m u d = (m', Inr s) \<and>
    SessionID s = Some i \<and> SStatus s = StatusConnecting \<and> ExpiresAt s = now + ExpiryTimeout (mg_config m) \<and>
    GetSession R m' (Some i) = (m', Inr (read_back s conns))"
proof -
  let ?s = "new_session (mg_config m) i now u d"
  obtain r' conns where r': "RedisStore_Create R ttl (mg_redis m) ?s = (r', None)"
      "RedisStore_Get R r' (SessionID ?s) = Inr (read_back ?s conns)"
    using redis_store.Create_Get [OF assms(1-3,5)] by blast
  have "CreateSession R ttl (Inr i) now m u d = (m\<lparr>mg_redis := r'\<rparr>, Inr ?s)"
    by (rule CreateSession_redis(1) [OF r'(1) assms(4)])
  moreover have "GetSession R (m\<lparr>mg_redis := r'\<rparr>) (Some i) = (m\<lparr>mg_redis := r'\<rparr>, Inr (read_back ?s conns))"
    using r'(2) by (simp add: GetSession_def new_session_def)
  moreover have "SessionID ?s = Some i" "SStatus ?s = StatusConnecting"
      "ExpiresAt ?s = now + ExpiryTimeout (mg_config m)"
    by (simp_all add: new_session_def)
  ultimately show ?thesis by blast
qed

lemma create_session_get_instance:
  "\<exists>m' s conns. CreateSession mem_ops (24 * Hour) (Inr [4]) 3000000001 sample_manager (Some [7]) None = (m', Inr s) \<and>
     GetSession mem_ops m' (Some [4]) = (m', Inr (read_back s conns))"
proof -
  have pg: "mg_pg sample_manager = None" by (simp add: sample_manager_def NewManager_def)
  have ok: "times_ok (new_session (mg_config sample_manager) [4] 3000000001 (Some [7]) None)"
    by (simp add: times_ok_def new_session_def sample_manager_def NewManager_def DefaultConfig_def in_int64_def
        int64_min_def int64_max_def to_unix_def Hour_def Minute_def Second_def)
  from create_session_get [OF mem_store_ax sample_manager_up pg ok] show ?thesis by blast
qed

text \<open>
  C21. With PostgreSQL configured, \<open>CreateSession\<close> never succeeds: the new session has a nil crypto
  state, the column \<open>crypto_state\<close> is \<open>NOT NULL\<close>, and the insertion fails after the session has
  been written to Redis, where it stays.
\<close>

theorem create_session_pg_fails:
  assumes "redis_store R view avail advance ttl" and "avail (mg_redis m)" and "redis_wf (view (mg_redis m))"
    and "mg_pg m = Some db"
  shows "\<exists>m' e. CreateSession R ttl (Inr i) now m u d = (m', Inl (''pg create: '' @ e)) \<and>
    redis_sessions (view (mg_redis m')) i = Some (stored_of (new_session (mg_config m) i now u d))"
proof -
  let ?s = "new_session (mg_config m) i now u d"
  note typed = redis_store.Create_typed [OF assms(1) redis_wf_typed [OF assms(3)], of ?s]
  have svc: "redis_service R view avail advance" using assms(1) by (rule redis_store.axioms)
  obtain r1 where r1: "rd_Exec R (mg_redis m) (create_cmds ttl ?s) = (r1, None)"
      "view r1 = fold cmd_effect (create_cmds ttl ?s) (view (mg_redis m))"
    using redis_service.exec_view [OF svc assms(2) typed] by blast
  then have "RedisStore_Create R ttl (mg_redis m) ?s = (r1, None)"
    using redis_store.Create_exec [OF assms(1)] by metis
  from CreateSession_redis(2) [OF this assms(4)] obtain db' e where
    "CreateSession R ttl (Inr i) now m u d = (m\<lparr>mg_redis := r1, mg_pg := Some db'\<rparr>, Inl (''pg create: '' @ e))"
    by blast
  moreover have "redis_sessions (view r1) i = Some (stored_of ?s)"
    using create_wf(2) [OF assms(3) redis_store.ttl_pos [OF assms(1)], of ?s] r1(2)
    by (simp add: new_session_def)
  ultimately show ?thesis by fastforce
qed

theorem create_session_pg_fails_witness:
  "\<exists>m' e. CreateSession mem_ops (24 * Hour) (Inr [4]) 0
      (NewManager mem_start (Some \<lparr>pg_faults = [], pg_now = 0, pg_tab = Some []\<rparr>) DefaultConfig) (Some [7]) (Some [8])
    = (m', Inl (''pg create: '' @ e))"
proof -
  have up: "mem_up mem_start" by (simp add: mem_start_def)
  show ?thesis
    using create_session_pg_fails [OF mem_store_ax, of "NewManager mem_start
        (Some \<lparr>pg_faults = [], pg_now = 0, pg_tab = Some []\<rparr>) DefaultConfig"
        "\<lparr>pg_faults = [], pg_now = 0, pg_tab = Some []\<rparr>" "[4]" 0 "Some [7]" "Some [8]"] mem_start_wf up
    by (auto simp: NewManager_def)
qed

text \<open>
  C11. The connection limit: a registration that succeeds on an answering Redis records the
  connection, and the number of recorded connections is at most the count it returns, which is at
  most \<open>MaxConnections\<close>; it is exactly that count when the connection identifier was not yet
  recorded.
\<close>

theorem register_connection_bound:
  assumes "redis_store R view avail advance ttl" and "avail (mg_redis m)" and "redis_wf (view (mg_redis m))"
    and "conn_ok c" and "RegisterConnection R m i c = (m', n, None)"
  shows "whole_seconds c \<in> live_conns (view (mg_redis m')) i \<and>
    card (live_conns (view (mg_redis m')) i) \<le> n \<and> int n \<le> MaxConnections (mg_config m) \<and>
    ((\<forall>x \<in> live_conns (view (mg_redis m)) i. ConnectionID x \<noteq> ConnectionID c) \<longrightarrow>
       card (live_conns (view (mg_redis m')) i) = n)"
  using redis_store.register_bound [OF assms] by blast

theorem register_connection_bound_witness:
  "\<exists>m'. RegisterConnection mem_ops sample_manager (Some [1]) sample_conn = (m', 1, None) \<and>
     card (live_conns (mem_view (mg_redis m')) (Some [1])) \<le> 1"
proof -
  obtain r' where r': "RedisStore_AddConnection mem_ops (mg_redis sample_manager) (Some [1]) sample_conn = (r', None)"
    using mem_store.AddConnection_Get [OF sample_manager_up sample_conn_ok(1)] by blast
  have "RedisStore_GetConnections mem_ops (mg_redis sample_manager) (Some [1]) = Inr []"
    by (simp add: sample_manager_def NewManager_def RedisStore_GetConnections_def mem_ops_def mem_start_def
        mem_hash_def mem_get_def map_filter_simps)
  then have "RegisterConnection mem_ops sample_manager (Some [1]) sample_conn
      = (sample_manager\<lparr>mg_redis := r'\<rparr>, 1, None)"
    using r' by (simp add: RegisterConnection_def sample_manager_def NewManager_def)
  with register_connection_bound [OF mem_store_ax sample_manager_up sample_conn_ok(1) this] show ?thesis
    by auto
qed

text \<open>
  C22. The limit is not kept between concurrent registrations: when two of them read the connections
  of a session with one place left before either writes, both succeed, both report that the limit
  is reached exactly, and the session ends with one connection more than \<open>MaxConnections\<close>.
\<close>

theorem concurrent_registrations_exceed:
  assumes "redis_store R view avail advance ttl" and "avail r" and "redis_wf (view r)"
    and "conn_ok c" "conn_ok c'" and "ConnectionID c \<noteq> ConnectionID c'"
    and "\<forall>x \<in> live_conns (view r) i. ConnectionID x \<noteq> ConnectionID c \<and> ConnectionID x \<noteq> ConnectionID c'"
    and "int (card (live_conns (view r) i)) + 1 = MaxConnections cfg"
  shows "\<exists>n r1 r2. register_read R cfg i r = Inr n \<and>
    register_write R i c n r = (r1, n + 1, None) \<and> register_write R i c' n r1 = (r2, n + 1, None) \<and>
    int (n + 1) = MaxConnections cfg \<and> int (card (live_conns (view r2) i)) = MaxConnections cfg + 1"
proof -
  obtain cs where cs: "RedisStore_GetConnections R r i = Inr cs"
    using redis_store.GetConnections_avail [OF assms(1,2) redis_wf_typed [OF assms(3)]] by blast
  note len = redis_store.length_connections [OF assms(1) cs]
  have rd: "register_read R cfg i r = Inr (length cs)"
    using cs len(1) assms(8) by (simp add: register_read_def)
  obtain r1 where r1: "register_write R i c (length cs) r = (r1, length cs + 1, None)" "avail r1"
      "redis_wf (view r1)" "live_conns (view r1) i = insert (whole_seconds c) (live_conns (view r) i)"
      "card (live_conns (view r1) i) = card (live_conns (view r) i) + 1"
    using redis_store.register_write_live [OF assms(1-4), of i "length cs"] assms(7) len(2) by blast
  have new: "\<forall>x \<in> live_conns (view r1) i. ConnectionID x \<noteq> ConnectionID c'"
    using assms(6,7) by (auto simp: r1(4) whole_seconds_def)
  have fin: "finite (live_conns (view r1) i)" using len(2) by (simp add: r1(4))
  obtain r2 where r2: "register_write R i c' (length cs) r1 = (r2, length cs + 1, None)"
      "card (live_conns (view r2) i) = card (live_conns (view r1) i) + 1"
    using redis_store.register_write_live [OF assms(1) r1(2,3) assms(5) new fin, of "length cs"] by blast
  show ?thesis using rd r1(1,5) r2 len(1) assms(8) by auto
qed

theorem concurrent_registrations_exceed_witness:
  "\<exists>r2. card (live_conns (mem_view r2) (Some [1])) = 2 \<and>
     (\<exists>r1. register_write mem_ops (Some [1]) sample_conn 0 mem_start = (r1, 1, None) \<and>
       register_write mem_ops (Some [1]) sample_conn2 0 r1 = (r2, 1, None))"
proof -
  have up: "mem_up mem_start" by (simp add: mem_start_def)
  have no: "live_conns (mem_view mem_start) i = {}" for i
    by (simp add: live_conns_def conns_of_def mem_view_def mem_get_def mem_start_def)
  have ids: "ConnectionID sample_conn \<noteq> ConnectionID sample_conn2"
    by (simp add: sample_conn_def sample_conn2_def)
  show ?thesis
    using concurrent_registrations_exceed [OF mem_store_ax up mem_start_wf sample_conn_ok ids,
        of "Some [1]" "DefaultConfig\<lparr>MaxConnections := 1\<rparr>"] by (auto simp: no)
qed

end
