(* ===== verification/Session_Grpc.thy ===== *)
theory Session_Grpc
  imports Session_Manager
begin

text \<open>
  \<open>server/internal/sessiongrpc/server.go\<close>: the gRPC service in front of the session manager, with
  the conversions between the session package's strings and the protobuf enumerations, whose
  values are those of the generated \<open>session_service.pb.go\<close>. A gRPC error is its code, the literal
  text of its format and the error the format prints.
\<close>

section \<open>gRPC errors and protobuf types\<close>

datatype codes = InvalidArgument | NotFound | FailedPrecondition | ResourceExhausted | Internal | Unimplemented

datatype 'e grpc_status = GrpcStatus codes string "'e option"

datatype pb_SessionStatus =
    SessionStatus_SESSION_STATUS_UNSPECIFIED
  | SessionStatus_CONNECTING
  | SessionStatus_ACTIVE
  | SessionStatus_SLEEPING
  | SessionStatus_EXPIRED
  | SessionStatus_other int

datatype pb_TransportType =
    TransportType_TRANSPORT_TYPE_UNSPECIFIED
  | TransportType_WEBSOCKET
  | TransportType_QUIC
  | TransportType_GRPC
  | TransportType_other int

text \<open>\<open>timestamppb.New\<close>: seconds and nanoseconds since the epoch.\<close>

type_synonym pb_Timestamp = "int \<times> int"

definition timestamppb_New :: "time \<Rightarrow> pb_Timestamp" where
  "timestamppb_New t = (to_unix t, t mod Second)"

record pb_Connection =
  pc_ConnectionId :: string
  pc_Transport :: pb_TransportType
  pc_GatewayId :: string
  pc_RemoteAddr :: string
  pc_ConnectedAt :: pb_Timestamp
  pc_LastPacketSeq :: uint64

record pb_Session =
  ps_SessionId :: slice
  ps_UserId :: slice
  ps_DeviceId :: slice
  ps_Status :: pb_SessionStatus
  ps_CryptoState :: slice
  ps_CreatedAt :: pb_Timestamp
  ps_LastActive :: pb_Timestamp
  ps_ExpiresAt :: pb_Timestamp
  ps_Connections :: "pb_Connection list"

record pb_RegisterConnectionRequest =
  rc_SessionId :: slice
  rc_ConnectionId :: string
  rc_Transport :: pb_TransportType
  rc_GatewayId :: string
  rc_RemoteAddr :: string

section \<open>Conversions\<close>

definition statusToProto :: "Status \<Rightarrow> pb_SessionStatus" where
  "statusToProto s =
     (if s = StatusConnecting then SessionStatus_CONNECTING
      else if s = StatusActive then SessionStatus_ACTIVE
      else if s = StatusSleeping then SessionStatus_SLEEPING
      else if s = StatusExpired then SessionStatus_EXPIRED
      else SessionStatus_SESSION_STATUS_UNSPECIFIED)"

text \<open>\<open>None\<close> is the error \<open>ErrInvalidTransition\<close>.\<close>

fun statusToEvent :: "pb_SessionStatus \<Rightarrow> Event option" where
  "statusToEvent SessionStatus_ACTIVE = Some EventHandshakeOK"
| "statusToEvent SessionStatus_SLEEPING = Some EventIdleTimeout"
| "statusToEvent SessionStatus_EXPIRED = Some EventExplicitLogout"
| "statusToEvent _ = None"

definition transportToProto :: "TransportType \<Rightarrow> pb_TransportType" where
  "transportToProto t =
     (if t = TransportWebSocket then TransportType_WEBSOCKET
      else if t = TransportQUIC then TransportType_QUIC
      else if t = TransportGRPC then TransportType_GRPC
      else TransportType_TRANSPORT_TYPE_UNSPECIFIED)"

fun protoToTransport :: "pb_TransportType \<Rightarrow> TransportType" where
  "protoToTransport TransportType_WEBSOCKET = TransportWebSocket"
| "protoToTransport TransportType_QUIC = TransportQUIC"
| "protoToTransport TransportType_GRPC = TransportGRPC"
| "protoToTransport _ = TransportWebSocket"

definition sessionToProto :: "Session \<Rightarrow> pb_Session" where
  "sessionToProto s =
     \<lparr>ps_SessionId = SessionID s, ps_UserId = UserID s, ps_DeviceId = DeviceID s,
      ps_Status = statusToProto (SStatus s), ps_CryptoState = CryptoState s,
      ps_CreatedAt = timestamppb_New (CreatedAt s), ps_LastActive = timestamppb_New (LastActive s),
      ps_ExpiresAt = timestamppb_New (ExpiresAt s),
      ps_Connections = map (\<lambda>c. \<lparr>pc_ConnectionId = ConnectionID c, pc_Transport = transportToProto (Transport c),
        pc_GatewayId = GatewayID c, pc_RemoteAddr = RemoteAddr c,
        pc_ConnectedAt = timestamppb_New (ConnectedAt c), pc_LastPacketSeq = LastPacketSeq c\<rparr>) (Connections s)\<rparr>"

section \<open>The service\<close>

definition Server_CreateSession ::
  "'r redis_ops \<Rightarrow> duration \<Rightarrow> goerr + bytes \<Rightarrow> time \<Rightarrow> 'r Manager \<Rightarrow> slice \<Rightarrow> slice \<Rightarrow>
     'r Manager \<times> (goerr grpc_status + slice \<times> pb_Session)" where
  "Server_CreateSession R ttl rnd now m userId deviceId =
     (case CreateSession R ttl rnd now m userId deviceId of
        (m', Inl err) \<Rightarrow> (m', Inl (GrpcStatus Internal ''create session: '' (Some err)))
      | (m', Inr s) \<Rightarrow> (m', Inr (SessionID s, sessionToProto s)))"

definition Server_GetSession ::
  "'r redis_ops \<Rightarrow> 'r Manager \<Rightarrow> slice \<Rightarrow> 'r Manager \<times> (goerr grpc_status + pb_Session)" where
  "Server_GetSession R m sessionId =
     (case GetSession R m sessionId of
        (m', Inl err) \<Rightarrow> (m', Inl (GrpcStatus NotFound ''session not found: '' (Some err)))
      | (m', Inr s) \<Rightarrow> (m', Inr (sessionToProto s)))"

definition Server_UpdateSessionStatus ::
  "'r redis_ops \<Rightarrow> duration \<Rightarrow> time \<Rightarrow> 'r Manager \<Rightarrow> slice \<Rightarrow> pb_SessionStatus \<Rightarrow>
     'r Manager \<times> (mgr_error grpc_status + pb_Session)" where
  "Server_UpdateSessionStatus R ttl now m sessionId status =
     (case statusToEvent status of
        None \<Rightarrow> (m, Inl (GrpcStatus InvalidArgument ''invalid session state transition'' None))
      | Some event \<Rightarrow>
          (case TransitionSession R ttl now m sessionId event of
             (m', Inl err) \<Rightarrow> (m', Inl (GrpcStatus FailedPrecondition ''transition: '' (Some err)))
           | (m', Inr None) \<Rightarrow> (m', Inl (GrpcStatus NotFound ''session destroyed'' None))
           | (m', Inr (Some s)) \<Rightarrow> (m', Inr (sessionToProto s))))"

text \<open>The number of connections is converted to \<open>uint32\<close>.\<close>

definition Server_RegisterConnection ::
  "'r redis_ops \<Rightarrow> time \<Rightarrow> 'r Manager \<Rightarrow> pb_RegisterConnectionRequest \<Rightarrow>
     'r Manager \<times> (goerr grpc_status + uint32)" where
  "Server_RegisterConnection R now m req =
     (let conn = \<lparr>ConnectionID = rc_ConnectionId req, Transport = protoToTransport (rc_Transport req),
            GatewayID = rc_GatewayId req, RemoteAddr = rc_RemoteAddr req, ConnectedAt = now, LastPacketSeq = 0\<rparr>
      in case RegisterConnection R m (rc_SessionId req) conn of
           (m', _, Some err) \<Rightarrow> (m', Inl (GrpcStatus ResourceExhausted [] (Some err)))
         | (m', count, None) \<Rightarrow> (m', Inr (of_nat count)))"

definition Server_UnregisterConnection ::
  "'r redis_ops \<Rightarrow> 'r Manager \<Rightarrow> slice \<Rightarrow> string \<Rightarrow> 'r Manager \<times> (goerr grpc_status + unit)" where
  "Server_UnregisterConnection R m sessionId connectionId =
     (case UnregisterConnection R m sessionId connectionId of
        (m', Some err) \<Rightarrow> (m', Inl (GrpcStatus Internal [] (Some err)))
      | (m', None) \<Rightarrow> (m', Inr ()))"

definition Server_RouteToSession :: "goerr grpc_status + unit" where
  "Server_RouteToSession = Inl (GrpcStatus Unimplemented ''route_to_session not implemented yet'' None)"

section \<open>Lemmas\<close>

lemma transport_types_distinct [simp]:
  "TransportWebSocket \<noteq> TransportQUIC" "TransportWebSocket \<noteq> TransportGRPC" "TransportQUIC \<noteq> TransportGRPC"
  "TransportQUIC \<noteq> TransportWebSocket" "TransportGRPC \<noteq> TransportWebSocket" "TransportGRPC \<noteq> TransportQUIC"
  by (simp_all add: transport_type_defs)

lemma protoToTransport_cases:
  "protoToTransport t \<in> {TransportWebSocket, TransportQUIC, TransportGRPC}"
  by (cases t) auto

lemma Transition_from_sleeping:
  "Transition StatusSleeping e =
     (if e = EventPacketReceived then Inr (StatusActive, False)
      else if e = EventExpiryTimeout then Inr (StatusExpired, False)
      else Inl (EventNotValid e StatusSleeping))"
  using Transition_status_of [of Sleeping e] by (cases e) simp_all

lemma statusToEvent_range:
  "statusToEvent s = Some e \<Longrightarrow> e \<in> {EventHandshakeOK, EventIdleTimeout, EventExplicitLogout}"
  by (cases s) auto

section \<open>Properties\<close>

text \<open>
  C23. A sleeping session cannot be moved through the API: whatever status \<open>UpdateSessionStatus\<close> is
  asked for, \<open>ACTIVE\<close> included, the call fails and changes nothing, because the statuses are mapped
  to the events handshake, idle and logout, none of which the table accepts in the sleeping status.
\<close>

theorem sleeping_session_stuck:
  assumes "redis_store R view avail advance ttl" and "avail (mg_redis m)" and "redis_wf (view (mg_redis m))"
    and "redis_sessions (view (mg_redis m)) i = Some x" and "sd_status x = StatusSleeping"
  shows "\<exists>c t err. Server_UpdateSessionStatus R ttl now m (Some i) status = (m, Inl (GrpcStatus c t err)) \<and>
    c \<in> {InvalidArgument, FailedPrecondition}"
proof (cases "statusToEvent status")
  case None
  then show ?thesis by (simp add: Server_UpdateSessionStatus_def)
next
  case (Some e)
  with statusToEvent_range have "Transition (sd_status x) e = Inl (EventNotValid e StatusSleeping)"
    using assms(5) by (auto simp: Transition_from_sleeping)
  from redis_store.TransitionSession_rejects [OF assms(1-4) this] Some show ?thesis
    by (simp add: Server_UpdateSessionStatus_def)
qed

lemma sample_sleeping:
  "\<exists>r. mem_up r \<and> redis_wf (mem_view r) \<and>
     redis_sessions (mem_view r) = [[1, 2] \<mapsto> (stored_of sample_session)\<lparr>sd_status := StatusSleeping\<rparr>]"
proof -
  obtain r where r: "mem_up r" "redis_wf (mem_view r)"
      "redis_sessions (mem_view r) = [[1, 2] \<mapsto> stored_of sample_session]"
    using sample_created by blast
  then have x: "redis_sessions (mem_view r) [1, 2] = Some (stored_of sample_session)" by simp
  show ?thesis by (rule mem_store.UpdateStatus_avail [OF r(1,2) x, of StatusSleeping]) (auto simp: r(3))
qed

theorem sleeping_session_stuck_witness:
  "\<exists>m c t err. Server_UpdateSessionStatus mem_ops (24 * Hour) 0 m (Some [1, 2]) SessionStatus_ACTIVE
     = (m, Inl (GrpcStatus c t err)) \<and> c \<in> {InvalidArgument, FailedPrecondition}"
proof -
  obtain r where r: "mem_up r" "redis_wf (mem_view r)"
      "redis_sessions (mem_view r) = [[1, 2] \<mapsto> (stored_of sample_session)\<lparr>sd_status := StatusSleeping\<rparr>]"
    using sample_sleeping by blast
  let ?m = "NewManager r None DefaultConfig"
  have m: "mg_redis ?m = r" by (simp add: NewManager_def)
  show ?thesis
    using sleeping_session_stuck [OF mem_store_ax, where m = ?m and i = "[1, 2]", unfolded m, OF r(1,2)] r(3)
    by fastforce
qed

text \<open>
  The conversions lose nothing the service needs: each transport of the API is stored as one of
  the three transport strings and shown again as itself (an unknown one as a WebSocket), and the
  shown status of a session determines its stored status among the four.
\<close>

lemma proto_conversions:
  "protoToTransport (transportToProto (protoToTransport t)) = protoToTransport t \<and>
   (t \<in> {TransportType_WEBSOCKET, TransportType_QUIC, TransportType_GRPC} \<longrightarrow>
     transportToProto (protoToTransport t) = t) \<and>
   (\<forall>p q. p \<noteq> Destroyed \<longrightarrow> statusToProto (status_of p) = statusToProto (status_of q) \<longrightarrow> p = q)"
proof -
  have "p \<noteq> Destroyed \<longrightarrow> statusToProto (status_of p) = statusToProto (status_of q) \<longrightarrow> p = q" for p q
    by (cases p; cases q; simp add: statusToProto_def eq_commute [of "[]"])
  then show ?thesis by (cases t) (auto simp: transportToProto_def)
qed

end
