(* ===== verification/Dispatcher.thy ===== *)
theory Dispatcher
  imports Proto_Messages Outbox Session_Grpc
begin

text \<open>
  \<open>server/internal/dispatcher\<close>: the routing of an \<open>AppMessage\<close> to a topic and a partition key, its insertion into
  the outbox, and the gRPC service in front of it. \<open>proto.Marshal\<close> is an argument.
\<close>

section \<open>router.go\<close>

record Route =
  rt_Topic :: string
  rt_PartitionKey :: slice

definition routeChat :: "ChatMessage option \<Rightarrow> goerr + Route" where
  "routeChat chat =
     (case chat of None \<Rightarrow> Inl ''nil chat message''
      | Some c \<Rightarrow>
          if slice_len (cm_GroupId c) > 0
          then Inr \<lparr>rt_Topic = ''group-'' @ hex_encode (slice_bytes (cm_GroupId c)), rt_PartitionKey = cm_GroupId c\<rparr>
          else if slice_len (cm_RecipientId c) > 0
          then Inr \<lparr>rt_Topic = ''user-'' @ hex_encode (slice_bytes (cm_RecipientId c)),
                 rt_PartitionKey = cm_RecipientId c\<rparr>
          else Inl ''chat message has no recipient_id or group_id'')"

definition routeCommand :: "Command option \<Rightarrow> goerr + Route" where
  "routeCommand cmd =
     (case cmd of None \<Rightarrow> Inl ''nil command''
      | Some c \<Rightarrow> Inr \<lparr>rt_Topic = TopicCommands,
          rt_PartitionKey = Some (string_to_bytes (CommandType_String (co_Type c)))\<rparr>)"

definition routeMedia :: "MediaChunk option \<Rightarrow> goerr + Route" where
  "routeMedia media =
     (case media of None \<Rightarrow> Inl ''nil media chunk''
      | Some c \<Rightarrow> Inr \<lparr>rt_Topic = TopicMediaEvents, rt_PartitionKey = mc_StreamId c\<rparr>)"

definition routeSenderKey :: "SenderKeyDistribution option \<Rightarrow> goerr + Route" where
  "routeSenderKey sk =
     (case sk of None \<Rightarrow> Inl ''nil sender key distribution''
      | Some s \<Rightarrow>
          if slice_len (sk_SenderId s) = 0 then Inl ''sender key has no sender_id''
          else Inr \<lparr>rt_Topic = TopicEvents, rt_PartitionKey = sk_GroupId s\<rparr>)"

definition routeSignaling :: "SignalingMessage option \<Rightarrow> goerr + Route" where
  "routeSignaling sig =
     (case sig of None \<Rightarrow> Inl ''nil signaling message''
      | Some s \<Rightarrow>
          if slice_len (sg_RecipientId s) = 0 then Inl ''signaling has no recipient_id''
          else Inr \<lparr>rt_Topic = ''user-'' @ hex_encode (slice_bytes (sg_RecipientId s)),
                 rt_PartitionKey = sg_RecipientId s\<rparr>)"

definition RouteMessage :: "AppMessage option \<Rightarrow> goerr + Route" where
  "RouteMessage msg =
     (case msg of None \<Rightarrow> Inl ''nil message''
      | Some m \<Rightarrow>
          (case am_Body m of
             Some (AppMessage_Chat c) \<Rightarrow> routeChat c
           | Some (AppMessage_Command c) \<Rightarrow> routeCommand c
           | Some (AppMessage_Media c) \<Rightarrow> routeMedia c
           | Some (AppMessage_SenderKey c) \<Rightarrow> routeSenderKey c
           | Some (AppMessage_Signaling c) \<Rightarrow> routeSignaling c
           | _ \<Rightarrow> Inr \<lparr>rt_Topic = TopicEvents, rt_PartitionKey = am_MessageId m\<rparr>))"

lemmas route_defs = RouteMessage_def routeChat_def routeCommand_def routeMedia_def routeSenderKey_def routeSignaling_def

section \<open>dispatcher.go\<close>

definition dispatch_entry :: "AppMessage \<Rightarrow> Route \<Rightarrow> bytes \<Rightarrow> Entry" where
  "dispatch_entry m route payload = \<lparr>en_ID = 0, en_MessageID = am_MessageId m, en_Topic = rt_Topic route,
     en_PartitionKey = rt_PartitionKey route, en_Payload = Some payload, en_Status = [], en_RetryCount = 0,
     en_CreatedAt = 0, en_PublishedAt = None\<rparr>"

definition Dispatcher_Dispatch ::
  "(AppMessage \<Rightarrow> goerr + bytes) \<Rightarrow> ob_db \<Rightarrow> slice \<Rightarrow> AppMessage \<Rightarrow> ob_db \<times> goerr option" where
  "Dispatcher_Dispatch Marshal db senderID msg =
     (case RouteMessage (Some msg) of Inl e \<Rightarrow> (db, Some (''route: '' @ e))
      | Inr route \<Rightarrow>
          (case Marshal msg of Inl e \<Rightarrow> (db, Some (''marshal: '' @ e))
           | Inr payload \<Rightarrow>
               (case Outbox_Insert db (dispatch_entry msg route payload) of
                  (db', Some e) \<Rightarrow> (db', Some (''outbox insert: '' @ e))
                | (db', None) \<Rightarrow> (db', None))))"

section \<open>grpc_server.go\<close>

definition Dispatcher_GRPC_Dispatch ::
  "(AppMessage \<Rightarrow> goerr + bytes) \<Rightarrow> ob_db \<Rightarrow> DispatchRequest \<Rightarrow> ob_db \<times> (goerr grpc_status + DispatchResponse)" where
  "Dispatcher_GRPC_Dispatch Marshal db req =
     (case dr_Message req of None \<Rightarrow> (db, Inl (GrpcStatus InvalidArgument ''message is required'' None))
      | Some msg \<Rightarrow>
          (case Dispatcher_Dispatch Marshal db (dr_SenderId req) msg of
             (db', Some e) \<Rightarrow> (db', Inl (GrpcStatus Internal ''dispatch: '' (Some e)))
           | (db', None) \<Rightarrow> (db', Inr \<lparr>ds_Success = True, ds_AckMessageId = am_MessageId msg\<rparr>)))"

section \<open>Properties\<close>

lemma Dispatch_ok:
  assumes "Dispatcher_Dispatch Marshal db sid m = (db', None)"
  obtains route payload where "RouteMessage (Some m) = Inr route" "Marshal m = Inr payload"
    "Outbox_Insert db (dispatch_entry m route payload) = (db', None)"
  using assms by (auto simp: Dispatcher_Dispatch_def split: sum.splits prod.splits option.splits)

definition user_route :: "Route \<Rightarrow> bool" where
  "user_route r \<longleftrightarrow> (\<exists>u. u \<noteq> [] \<and> rt_Topic r = UserTopic (Some u) \<and> rt_PartitionKey r = Some u)"

lemma non_empty_slice: "slice_bytes s \<noteq> [] \<Longrightarrow> \<exists>x. x \<noteq> [] \<and> s = Some x"
  by (cases s) auto

lemma routeChat_Inr:
  "routeChat chat = Inr r \<Longrightarrow>
     (\<exists>c g. chat = Some c \<and> cm_GroupId c = Some g \<and> g \<noteq> [] \<and> rt_Topic r = GroupTopic (Some g) \<and>
        rt_PartitionKey r = Some g) \<or>
     (\<exists>c u. chat = Some c \<and> slice_bytes (cm_GroupId c) = [] \<and> cm_RecipientId c = Some u \<and> u \<noteq> [] \<and>
        rt_Topic r = UserTopic (Some u) \<and> rt_PartitionKey r = Some u)"
  by (cases chat) (auto simp: routeChat_def GroupTopic_def UserTopic_def split: if_splits dest!: non_empty_slice)

lemma route_other:
  "routeCommand c = Inr r \<Longrightarrow> rt_Topic r = TopicCommands"
  "routeMedia d = Inr r \<Longrightarrow> rt_Topic r = TopicMediaEvents"
  "routeSenderKey k = Inr r \<Longrightarrow> rt_Topic r = TopicEvents"
  "routeSignaling g = Inr r \<Longrightarrow> user_route r"
  by (auto simp: routeCommand_def routeMedia_def routeSenderKey_def routeSignaling_def user_route_def UserTopic_def
      split: option.splits if_splits dest!: non_empty_slice)

text \<open>
  C27. Routing.  A message that routes goes to one of the three static topics of the dispatcher, or to the topic the
  Kafka package names for a non-empty user or group identifier, keyed by that identifier; so all messages of one group,
  and all signaling and direct chat of one user, share a topic and a partition key.  A chat message with a group goes to
  the group whatever its recipient.
\<close>

theorem route_topics:
  assumes "RouteMessage msg = Inr r"
  shows "(rt_Topic r \<in> {TopicEvents, TopicCommands, TopicMediaEvents} \<or>
      (\<exists>u. u \<noteq> [] \<and> rt_Topic r = UserTopic (Some u) \<and> rt_PartitionKey r = Some u) \<or>
      (\<exists>g. g \<noteq> [] \<and> rt_Topic r = GroupTopic (Some g) \<and> rt_PartitionKey r = Some g)) \<and>
    (\<forall>m c. msg = Some m \<and> am_Body m = Some (AppMessage_Chat (Some c)) \<longrightarrow>
       rt_Topic r = (if slice_len (cm_GroupId c) > 0 then GroupTopic (cm_GroupId c) else UserTopic (cm_RecipientId c)))"
proof -
  obtain m where m: "msg = Some m" using assms by (cases msg) (simp_all add: RouteMessage_def)
  show ?thesis
  proof (cases "\<exists>c. am_Body m = Some (AppMessage_Chat c)")
    case True
    then obtain c where c: "am_Body m = Some (AppMessage_Chat c)" by blast
    with assms m have "routeChat c = Inr r" by (simp add: RouteMessage_def)
    from routeChat_Inr [OF this] c m show ?thesis by auto
  next
    case False
    with assms m have "rt_Topic r \<in> {TopicEvents, TopicCommands, TopicMediaEvents} \<or> user_route r"
      by (auto simp: RouteMessage_def dest: route_other split: option.splits AppBody.splits)
    with False m show ?thesis unfolding user_route_def by auto
  qed
qed


theorem route_topics_witness:
  "RouteMessage (Some \<lparr>am_MessageId = Some [1], am_Timestamp = None, am_Body = None\<rparr>)
     = Inr \<lparr>rt_Topic = TopicEvents, rt_PartitionKey = Some [1]\<rparr> \<and>
   rt_Topic \<lparr>rt_Topic = TopicEvents, rt_PartitionKey = Some [1]\<rparr> \<noteq> TopicDeadLetter"
proof -
  have "RouteMessage (Some \<lparr>am_MessageId = Some [1], am_Timestamp = None, am_Body = None\<rparr>)
     = Inr \<lparr>rt_Topic = TopicEvents, rt_PartitionKey = Some [1]\<rparr>"
    by (simp add: RouteMessage_def)
  with route_topics [OF this] show ?thesis by (auto simp: topic_defs UserTopic_def GroupTopic_def)
qed

lemma insert_duplicate:
  assumes "x \<in> set (rows_of db)" "en_MessageID e = Some (or_message_id x)"
  shows "\<exists>err. snd (Outbox_Insert db e) = Some err \<and> pg_tab (fst (Outbox_Insert db e)) = pg_tab db"
proof (cases "Outbox_Insert db e")
  case (Pair db' err)
  show ?thesis
  proof (cases err)
    case None
    with Pair obtain t t' n where t: "pg_tab db = Some t"
        "sql_insert_outbox (pg_now db) (en_MessageID e) (en_Topic e) (en_PartitionKey e) (en_Payload e)
           StatusPending t = Inr (t', n)"
      by (auto simp: Outbox_Insert_def pg_run_Inr)
    with assms show ?thesis by (auto simp: sql_insert_outbox_def rows_of_def split: option.splits if_splits)
  next
    case (Some e')
    with Pair pg_run_Inl_tab show ?thesis by (fastforce simp: Outbox_Insert_def)
  qed
qed

lemma Dispatch_duplicate:
  assumes "x \<in> set (rows_of db)" "am_MessageId m = Some (or_message_id x)"
  shows "(\<exists>e. snd (Dispatcher_Dispatch Marshal db s m) = Some e) \<and>
    pg_tab (fst (Dispatcher_Dispatch Marshal db s m)) = pg_tab db"
proof (cases "RouteMessage (Some m)")
  case (Inr route)
  show ?thesis
  proof (cases "Marshal m")
    case payload: (Inr payload)
    let ?ins = "Outbox_Insert db (dispatch_entry m route payload)"
    obtain err where "snd ?ins = Some err" "pg_tab (fst ?ins) = pg_tab db"
      using insert_duplicate [OF assms(1), of "dispatch_entry m route payload"] assms(2) by (auto simp: dispatch_entry_def)
    with Inr payload show ?thesis by (cases ?ins) (simp add: Dispatcher_Dispatch_def)
  qed (simp add: Dispatcher_Dispatch_def Inr)
qed (simp add: Dispatcher_Dispatch_def)

lemma insert_ok_status:
  assumes "Outbox_Insert db e = (db', None)"
  shows "\<exists>x. rows_of db' = rows_of db @ [x] \<and> or_status x = ''pending'' \<and> row_entry x =
    e\<lparr>en_ID := or_id x, en_Status := ''pending'', en_RetryCount := 0, en_CreatedAt := or_created_at x, en_PublishedAt := None\<rparr>"
proof -
  obtain t t' n where t: "pg_tab db = Some t" "pg_tab db' = Some t'"
      "sql_insert_outbox (pg_now db) (en_MessageID e) (en_Topic e) (en_PartitionKey e) (en_Payload e)
         StatusPending t = Inr (t', n)"
    using assms by (auto simp: Outbox_Insert_def pg_run_Inr)
  from t(3) show ?thesis
    by (auto simp: sql_insert_outbox_def rows_of_def t(1,2) StatusPending_def row_entry_def split: option.splits if_splits)
qed

lemma GRPC_Dispatch_ok:
  assumes "Dispatcher_GRPC_Dispatch Marshal db req = (db', Inr resp)"
  shows "\<exists>m route payload x. dr_Message req = Some m \<and> ds_AckMessageId resp = am_MessageId m \<and>
    RouteMessage (Some m) = Inr route \<and> Marshal m = Inr payload \<and>
    Outbox_Insert db (dispatch_entry m route payload) = (db', None) \<and>
    rows_of db' = rows_of db @ [x] \<and> or_status x = ''pending'' \<and> am_MessageId m = Some (or_message_id x) \<and>
    or_topic x = rt_Topic route \<and> rt_PartitionKey route = Some (or_partition_key x) \<and> or_payload x = payload"
proof -
  obtain m where m: "dr_Message req = Some m" "ds_AckMessageId resp = am_MessageId m"
      "Dispatcher_Dispatch Marshal db (dr_SenderId req) m = (db', None)"
    using assms by (auto simp: Dispatcher_GRPC_Dispatch_def split: option.splits prod.splits)
  obtain route payload where ok: "RouteMessage (Some m) = Inr route" "Marshal m = Inr payload"
      "Outbox_Insert db (dispatch_entry m route payload) = (db', None)"
    using Dispatch_ok [OF m(3)] by blast
  obtain x where "rows_of db' = rows_of db @ [x]" "or_status x = ''pending''" "am_MessageId m = Some (or_message_id x)"
      "or_topic x = rt_Topic route" "rt_PartitionKey route = Some (or_partition_key x)" "or_payload x = payload"
    using insert_ok_status [OF ok(3)] by (auto simp: dispatch_entry_def row_entry_def)
  with m(1,2) ok show ?thesis by blast
qed

text \<open>
  C28. A dispatch that the service acknowledges has stored exactly one new pending row, which carries the message's
  identifier, route and serialised form, and the acknowledgement names that identifier.  The identifier is then
  taken: a later request with the same one is answered by an error and stores nothing.
\<close>

theorem dispatch_stores_once:
  assumes "Dispatcher_GRPC_Dispatch Marshal db req = (db', Inr resp)"
  shows "\<exists>m route payload x. dr_Message req = Some m \<and> ds_AckMessageId resp = am_MessageId m \<and>
    RouteMessage (Some m) = Inr route \<and> Marshal m = Inr payload \<and>
    rows_of db' = rows_of db @ [x] \<and> or_status x = ''pending'' \<and> am_MessageId m = Some (or_message_id x) \<and>
    or_topic x = rt_Topic route \<and> rt_PartitionKey route = Some (or_partition_key x) \<and> or_payload x = payload \<and>
    (\<forall>db2 req2. pg_tab db2 = pg_tab db' \<and> map_option am_MessageId (dr_Message req2) = Some (am_MessageId m) \<longrightarrow>
       (\<exists>e. snd (Dispatcher_GRPC_Dispatch Marshal db2 req2) = Inl e) \<and>
       pg_tab (fst (Dispatcher_GRPC_Dispatch Marshal db2 req2)) = pg_tab db2)"
proof -
  obtain m route payload x where m: "dr_Message req = Some m" "ds_AckMessageId resp = am_MessageId m"
    and ok: "RouteMessage (Some m) = Inr route" "Marshal m = Inr payload"
    and x: "rows_of db' = rows_of db @ [x]" "or_status x = ''pending''" "am_MessageId m = Some (or_message_id x)"
      "or_topic x = rt_Topic route" "rt_PartitionKey route = Some (or_partition_key x)" "or_payload x = payload"
    using GRPC_Dispatch_ok [OF assms] by blast
  have "(\<exists>e. snd (Dispatcher_GRPC_Dispatch Marshal db2 req2) = Inl e) \<and>
      pg_tab (fst (Dispatcher_GRPC_Dispatch Marshal db2 req2)) = pg_tab db2"
    if same: "pg_tab db2 = pg_tab db'" and mid: "map_option am_MessageId (dr_Message req2) = Some (am_MessageId m)"
    for db2 req2
  proof -
    obtain m2 where m2: "dr_Message req2 = Some m2" "am_MessageId m2 = Some (or_message_id x)"
      using mid x(3) by (cases "dr_Message req2") simp_all
    have "x \<in> set (rows_of db2)" using x(1) same by (simp add: rows_of_def)
    from Dispatch_duplicate [OF this m2(2), of Marshal "dr_SenderId req2"] m2(1) show ?thesis
      by (cases "Dispatcher_Dispatch Marshal db2 (dr_SenderId req2) m2") (auto simp: Dispatcher_GRPC_Dispatch_def)
  qed
  with m(1,2) ok(1,2) x show ?thesis by blast
qed

definition sample_dispatch :: DispatchRequest where
  "sample_dispatch = \<lparr>dr_SessionId = None, dr_SenderId = Some [9],
     dr_Message = Some \<lparr>am_MessageId = Some [1], am_Timestamp = None, am_Body = None\<rparr>\<rparr>"

theorem dispatch_stores_once_witness:
  "length (rows_of (fst (Dispatcher_GRPC_Dispatch wire_Marshal sample_ob_db sample_dispatch))) = 1"
proof -
  have "Dispatcher_GRPC_Dispatch wire_Marshal sample_ob_db sample_dispatch
    = (fst (Dispatcher_GRPC_Dispatch wire_Marshal sample_ob_db sample_dispatch), Inr \<lparr>ds_Success = True, ds_AckMessageId = Some [1]\<rparr>)"
    by (simp add: Dispatcher_GRPC_Dispatch_def Dispatcher_Dispatch_def sample_dispatch_def RouteMessage_def
        wire_Marshal_def dispatch_entry_def Outbox_Insert_def pg_run_def sample_ob_db_def sql_insert_outbox_def
        ob_empty_def StatusPending_def)
  from dispatch_stores_once [OF this] obtain x where
    "rows_of (fst (Dispatcher_GRPC_Dispatch wire_Marshal sample_ob_db sample_dispatch)) = rows_of sample_ob_db @ [x]"
    by blast
  then show ?thesis by (simp add: rows_of_def sample_ob_db_def ob_empty_def)
qed

end
