(* ===== verification/Proto_Crypto.thy ===== *)
theory Proto_Crypto
  imports FProto_Prelude
begin

text \<open>
  \<open>proto-core/crypto\<close>: the sequence-numbered AEAD of \<open>aead.go\<close>, key derivation of
  \<open>rekey.go\<close>, \<open>zeroize.go\<close> and the Noise XX handshake and transport session of
  \<open>keypair.go\<close> and \<open>noise.go\<close>. The primitives (\<open>golang.org/x/crypto\<close> and
  \<open>github.com/flynn/noise\<close>) are parameters: records of operations, with the behaviour the
  code relies on stated by the locales \<open>aead_cipher\<close> and \<open>noise_xx\<close>.
\<close>

section \<open>The primitives the package calls\<close>

text \<open>\<open>chacha20poly1305\<close>: key, nonce, plaintext or ciphertext, additional data.\<close>

record aead_ops =
  aead_Seal :: "bytes \<Rightarrow> bytes \<Rightarrow> bytes \<Rightarrow> bytes \<Rightarrow> bytes"
  aead_Open :: "bytes \<Rightarrow> bytes \<Rightarrow> bytes \<Rightarrow> bytes \<Rightarrow> goerr + bytes"

definition KeySize :: nat where "KeySize = 32"
definition NonceSize :: nat where "NonceSize = 12"

section \<open>aead.go\<close>

text \<open>A \<open>cipher.AEAD\<close> value is the key it was built from.\<close>

definition NewAEAD :: "bytes \<Rightarrow> goerr + bytes" where
  "NewAEAD key =
     (if length key \<noteq> KeySize
      then Inl (''invalid key size: expected '' @ show_nat KeySize @ '', got '' @ show_nat (length key))
      else Inr key)"

definition BuildNonce :: "uint64 \<Rightarrow> bytes" where
  "BuildNonce seq =
     (let nonce = replicate NonceSize 0 in take 4 nonce @ le64 seq)"

definition BuildAAD :: "bytes \<Rightarrow> uint64 \<Rightarrow> bytes" where
  "BuildAAD sessionID seq =
     (let aad = replicate (length sessionID + 8) 0;
          aad = sessionID @ drop (length sessionID) aad
      in take (length sessionID) aad @ le64 seq)"

definition EncryptAEAD :: "aead_ops \<Rightarrow> bytes \<Rightarrow> bytes \<Rightarrow> uint64 \<Rightarrow> bytes \<Rightarrow> bytes" where
  "EncryptAEAD C aead sessionID seq plaintext =
     (let nonce = BuildNonce seq; aad = BuildAAD sessionID seq
      in aead_Seal C aead nonce plaintext aad)"

definition DecryptAEAD :: "aead_ops \<Rightarrow> bytes \<Rightarrow> bytes \<Rightarrow> uint64 \<Rightarrow> bytes \<Rightarrow> goerr + bytes" where
  "DecryptAEAD C aead sessionID seq ciphertext =
     (let nonce = BuildNonce seq; aad = BuildAAD sessionID seq
      in case aead_Open C aead nonce ciphertext aad of
           Inl err \<Rightarrow> Inl (''aead decrypt: '' @ err)
         | Inr plaintext \<Rightarrow> Inr plaintext)"

section \<open>rekey.go and zeroize.go\<close>

text \<open>\<open>hkdf secret info n\<close>: the first \<open>n\<close> bytes of HKDF-SHA256 with no salt.\<close>

type_synonym hkdf = "bytes \<Rightarrow> bytes \<Rightarrow> nat \<Rightarrow> goerr + bytes"

definition rekeyInfo :: string where "rekeyInfo = ''proto-rekey''"
definition rekeyLen :: nat where "rekeyLen = 32"

definition Rekey :: "hkdf \<Rightarrow> bytes \<Rightarrow> goerr + bytes" where
  "Rekey hkdf currentKey =
     (if length currentKey = 0 then Inl ''rekey: empty current key''
      else case hkdf currentKey (string_to_bytes rekeyInfo) rekeyLen of
             Inl err \<Rightarrow> Inl (''rekey hkdf: '' @ err)
           | Inr newKey \<Rightarrow> Inr newKey)"

definition Zeroize :: "bytes \<Rightarrow> bytes" where
  "Zeroize b = fold (\<lambda>i b. b[i := 0]) [0..<length b] b"

section \<open>keypair.go and noise.go\<close>

record KeyPair =
  Private :: bytes
  Public :: bytes

text \<open>
  \<open>flynn/noise\<close>: \<open>'h\<close> is a handshake state (its random source included), \<open>'c\<close> a cipher
  state. Reading and writing a handshake message returns the payload or message and, after
  the last message of the pattern, the two cipher states; otherwise these are nil.
\<close>

record ('h, 'c) noise_ops =
  nz_GenerateKeypair :: "bytes \<Rightarrow> goerr + KeyPair"
  nz_NewHandshakeState :: "bool \<Rightarrow> KeyPair \<Rightarrow> bytes \<Rightarrow> goerr + 'h"
  nz_WriteMessage :: "'h \<Rightarrow> bytes \<Rightarrow> (goerr + bytes \<times> 'c option \<times> 'c option) \<times> 'h"
  nz_ReadMessage :: "'h \<Rightarrow> bytes \<Rightarrow> (goerr + bytes \<times> 'c option \<times> 'c option) \<times> 'h"
  nz_Encrypt :: "'c \<Rightarrow> bytes \<Rightarrow> (goerr + bytes) \<times> 'c"
  nz_Decrypt :: "'c \<Rightarrow> bytes \<Rightarrow> (goerr + bytes) \<times> 'c"

definition GenerateKeyPair :: "('h, 'c) noise_ops \<Rightarrow> bytes \<Rightarrow> goerr + KeyPair" where
  "GenerateKeyPair N rnd =
     (case nz_GenerateKeypair N rnd of
        Inl err \<Rightarrow> Inl (''generate X25519 keypair: '' @ err)
      | Inr kp \<Rightarrow> Inr \<lparr>Private = Private kp, Public = Public kp\<rparr>)"

record 'c NoiseSession =
  Send :: 'c
  Recv :: 'c

definition NoiseSession_Encrypt ::
  "('h, 'c) noise_ops \<Rightarrow> 'c NoiseSession \<Rightarrow> bytes \<Rightarrow> (goerr + bytes) \<times> 'c NoiseSession" where
  "NoiseSession_Encrypt N s plaintext =
     (let (r, c) = nz_Encrypt N (Send s) plaintext in (r, s\<lparr>Send := c\<rparr>))"

definition NoiseSession_Decrypt ::
  "('h, 'c) noise_ops \<Rightarrow> 'c NoiseSession \<Rightarrow> bytes \<Rightarrow> (goerr + bytes) \<times> 'c NoiseSession" where
  "NoiseSession_Decrypt N s ciphertext =
     (let (r, c) = nz_Decrypt N (Recv s) ciphertext in
        ((case r of Inl err \<Rightarrow> Inl (''noise decrypt: '' @ err) | Inr plaintext \<Rightarrow> Inr plaintext),
         s\<lparr>Recv := c\<rparr>))"

text \<open>
  The callbacks \<open>read\<close> and \<open>write\<close> act on the state \<open>'io\<close> of the connection they close over.
\<close>

type_synonym 'io reader = "'io \<Rightarrow> (goerr + bytes) \<times> 'io"
type_synonym 'io writer = "bytes \<Rightarrow> 'io \<Rightarrow> goerr option \<times> 'io"

definition ServerHandshake ::
  "('h, 'c) noise_ops \<Rightarrow> KeyPair \<Rightarrow> bytes \<Rightarrow> 'io reader \<Rightarrow> 'io writer \<Rightarrow> 'io
     \<Rightarrow> (goerr + 'c NoiseSession) \<times> 'io" where
  "ServerHandshake N serverKey rnd read write io =
     (case nz_NewHandshakeState N False serverKey rnd of
        Inl err \<Rightarrow> (Inl (''new handshake state: '' @ err), io)
      | Inr hs \<Rightarrow>
     (case read io of (Inl err, io) \<Rightarrow> (Inl (''read init: '' @ err), io)
      | (Inr msg1, io) \<Rightarrow>
     (case nz_ReadMessage N hs msg1 of (Inl err, hs) \<Rightarrow> (Inl (''process init: '' @ err), io)
      | (Inr _, hs) \<Rightarrow>
     (case nz_WriteMessage N hs [] of (Inl err, hs) \<Rightarrow> (Inl (''write response: '' @ err), io)
      | (Inr (msg2, _, _), hs) \<Rightarrow>
     (case write msg2 io of (Some err, io) \<Rightarrow> (Inl (''send response: '' @ err), io)
      | (None, io) \<Rightarrow>
     (case read io of (Inl err, io) \<Rightarrow> (Inl (''read finish: '' @ err), io)
      | (Inr msg3, io) \<Rightarrow>
     (case nz_ReadMessage N hs msg3 of (Inl err, hs) \<Rightarrow> (Inl (''process finish: '' @ err), io)
      | (Inr (_, csRecv, csSend), hs) \<Rightarrow>
     (case (csRecv, csSend) of
        (Some recv, Some send) \<Rightarrow> (Inr \<lparr>Send = send, Recv = recv\<rparr>, io)
      | _ \<Rightarrow> (Inl ''handshake incomplete: cipher states are nil'', io)))))))))"

definition ClientHandshake ::
  "('h, 'c) noise_ops \<Rightarrow> KeyPair \<Rightarrow> bytes \<Rightarrow> 'io reader \<Rightarrow> 'io writer \<Rightarrow> 'io
     \<Rightarrow> (goerr + 'c NoiseSession) \<times> 'io" where
  "ClientHandshake N clientKey rnd read write io =
     (case nz_NewHandshakeState N True clientKey rnd of
        Inl err \<Rightarrow> (Inl (''new handshake state: '' @ err), io)
      | Inr hs \<Rightarrow>
     (case nz_WriteMessage N hs [] of (Inl err, hs) \<Rightarrow> (Inl (''write init: '' @ err), io)
      | (Inr (msg1, _, _), hs) \<Rightarrow>
     (case write msg1 io of (Some err, io) \<Rightarrow> (Inl (''send init: '' @ err), io)
      | (None, io) \<Rightarrow>
     (case read io of (Inl err, io) \<Rightarrow> (Inl (''read response: '' @ err), io)
      | (Inr msg2, io) \<Rightarrow>
     (case nz_ReadMessage N hs msg2 of (Inl err, hs) \<Rightarrow> (Inl (''process response: '' @ err), io)
      | (Inr _, hs) \<Rightarrow>
     (case nz_WriteMessage N hs [] of (Inl err, hs) \<Rightarrow> (Inl (''write finish: '' @ err), io)
      | (Inr (msg3, csSend, csRecv), hs) \<Rightarrow>
     (case write msg3 io of (Some err, io) \<Rightarrow> (Inl (''send finish: '' @ err), io)
      | (None, io) \<Rightarrow>
     (case (csSend, csRecv) of
        (Some send, Some recv) \<Rightarrow> (Inr \<lparr>Send = send, Recv = recv\<rparr>, io)
      | _ \<Rightarrow> (Inl ''handshake incomplete: cipher states are nil'', io)))))))))"

section \<open>Lemmas on nonces, additional data and keys\<close>

lemma BuildNonce_eq: "BuildNonce seq = replicate 4 0 @ le64 seq"
  by (simp add: BuildNonce_def NonceSize_def)

lemma BuildAAD_eq: "BuildAAD sid seq = sid @ le64 seq"
  by (simp add: BuildAAD_def)

lemma length_BuildNonce [simp]: "length (BuildNonce seq) = NonceSize"
  by (simp add: BuildNonce_eq NonceSize_def)

lemma BuildNonce_inject [simp]: "BuildNonce a = BuildNonce b \<longleftrightarrow> a = b"
  by (simp add: BuildNonce_eq)

lemma BuildAAD_inject [simp]: "BuildAAD s a = BuildAAD t b \<longleftrightarrow> s = t \<and> a = b"
  by (simp add: BuildAAD_eq append_eq_append_conv)

lemma NewAEAD_Inr [simp]: "NewAEAD key = Inr k \<longleftrightarrow> k = key \<and> length key = KeySize"
  by (auto simp: NewAEAD_def)

lemma Zeroize_prefix:
  "n \<le> length b \<Longrightarrow> fold (\<lambda>i b. b[i := 0]) [0..<n] b = replicate n 0 @ drop n b"
proof (induction n)
  case (Suc n)
  then have "drop n b = b ! n # drop (Suc n) b" by (simp add: Cons_nth_drop_Suc)
  with Suc show ?case by (simp add: list_update_append replicate_append_same)
qed simp

lemma Zeroize_eq: "Zeroize b = replicate (length b) 0"
  by (simp add: Zeroize_def Zeroize_prefix)

section \<open>The contract of an AEAD and what the package builds on it\<close>

locale aead_cipher =
  fixes C :: aead_ops
  assumes open_seal: "length k = KeySize \<Longrightarrow> length n = NonceSize \<Longrightarrow>
      aead_Open C k n (aead_Seal C k n p a) a = Inr p"
    and length_seal: "length (aead_Seal C k n p a) = length p + 16"
begin

lemma DecryptAEAD_EncryptAEAD:
  "NewAEAD key = Inr k \<Longrightarrow> DecryptAEAD C k sid seq (EncryptAEAD C k sid seq p) = Inr p"
  by (simp add: DecryptAEAD_def EncryptAEAD_def open_seal)

lemma length_EncryptAEAD: "length (EncryptAEAD C k sid seq p) = length p + 16"
  by (simp add: EncryptAEAD_def length_seal)

end

section \<open>The contract of the Noise library and what the package builds on it\<close>

text \<open>
  A pair of message queues stands for one side of a connection: what the peer sent, and what
  this side has written.
\<close>

record pipe =
  incoming :: "bytes list"
  outgoing :: "bytes list"

definition pipe_read :: "pipe reader" where
  "pipe_read io = (case incoming io of [] \<Rightarrow> (Inl ''EOF'', io)
     | m # ms \<Rightarrow> (Inr m, io\<lparr>incoming := ms\<rparr>))"

definition pipe_write :: "pipe writer" where
  "pipe_write m io = (None, io\<lparr>outgoing := outgoing io @ [m]\<rparr>)"

text \<open>Two sessions face each other when each side decrypts what the other encrypts.\<close>

definition mirrored :: "('c \<Rightarrow> 'c \<Rightarrow> bool) \<Rightarrow> 'c NoiseSession \<Rightarrow> 'c NoiseSession \<Rightarrow> bool" where
  "mirrored paired a b \<longleftrightarrow> paired (Send a) (Recv b) \<and> paired (Send b) (Recv a)"

text \<open>A sender that encrypts a list of messages, a receiver that decrypts a list of messages.\<close>

fun encrypt_all :: "('h, 'c) noise_ops \<Rightarrow> 'c NoiseSession \<Rightarrow> bytes list
     \<Rightarrow> (goerr + bytes list) \<times> 'c NoiseSession" where
  "encrypt_all N s [] = (Inr [], s)"
| "encrypt_all N s (p # ps) =
     (case NoiseSession_Encrypt N s p of (Inl e, s) \<Rightarrow> (Inl e, s)
      | (Inr c, s) \<Rightarrow> (case encrypt_all N s ps of (Inl e, s) \<Rightarrow> (Inl e, s)
          | (Inr cs, s) \<Rightarrow> (Inr (c # cs), s)))"

fun decrypt_all :: "('h, 'c) noise_ops \<Rightarrow> 'c NoiseSession \<Rightarrow> bytes list
     \<Rightarrow> (goerr + bytes list) \<times> 'c NoiseSession" where
  "decrypt_all N s [] = (Inr [], s)"
| "decrypt_all N s (c # cs) =
     (case NoiseSession_Decrypt N s c of (Inl e, s) \<Rightarrow> (Inl e, s)
      | (Inr p, s) \<Rightarrow> (case decrypt_all N s cs of (Inl e, s) \<Rightarrow> (Inl e, s)
          | (Inr ps, s) \<Rightarrow> (Inr (p # ps), s)))"

locale noise_cipher =
  fixes N :: "('h, 'c) noise_ops"
    and paired :: "'c \<Rightarrow> 'c \<Rightarrow> bool"
  assumes cipher_sync: "paired a b \<Longrightarrow> nz_Encrypt N a p = (Inr ct, a') \<Longrightarrow>
      \<exists>b'. nz_Decrypt N b ct = (Inr p, b') \<and> paired a' b'"
begin

lemma session_sync:
  assumes "mirrored paired a b" "NoiseSession_Encrypt N a p = (Inr ct, a')"
  shows "\<exists>b'. NoiseSession_Decrypt N b ct = (Inr p, b') \<and> mirrored paired a' b'"
proof -
  obtain c where c: "nz_Encrypt N (Send a) p = (Inr ct, c)" and a': "a' = a\<lparr>Send := c\<rparr>"
    using assms(2) by (auto simp: NoiseSession_Encrypt_def split: prod.splits)
  obtain d where "nz_Decrypt N (Recv b) ct = (Inr p, d)" "paired c d"
    using cipher_sync [OF _ c, of "Recv b"] assms(1) by (auto simp: mirrored_def)
  then show ?thesis
    using assms(1) a' by (auto simp: NoiseSession_Decrypt_def mirrored_def)
qed

lemma sessions_sync:
  assumes "mirrored paired a b" "encrypt_all N a ps = (Inr cts, a')"
  shows "\<exists>b'. decrypt_all N b cts = (Inr ps, b') \<and> mirrored paired a' b'"
  using assms
proof (induction ps arbitrary: a b cts)
  case (Cons p ps)
  from Cons.prems(2) obtain c cs a1
    where enc: "NoiseSession_Encrypt N a p = (Inr c, a1)"
      and rest: "encrypt_all N a1 ps = (Inr cs, a')" and cts: "cts = c # cs"
    by (auto split: prod.splits sum.splits)
  obtain b1 where "NoiseSession_Decrypt N b c = (Inr p, b1)" "mirrored paired a1 b1"
    using session_sync [OF Cons.prems(1) enc] by blast
  with Cons.IH [OF _ rest] show ?case by (fastforce simp: cts)
qed simp

end

text \<open>
  Noise XX as the library documents it: three messages, and after the third both sides hold
  the cipher states of the two directions.
\<close>

locale noise_xx = noise_cipher +
  assumes xx: "nz_NewHandshakeState N True kI rI = Inr i0 \<Longrightarrow>
      nz_NewHandshakeState N False kR rR = Inr r0 \<Longrightarrow>
      \<exists>m1 i1 p1 r1 m2 r2 p2 i2 m3 i3 p3 r3 c1 c2 d1 d2.
        nz_WriteMessage N i0 [] = (Inr (m1, None, None), i1) \<and>
        nz_ReadMessage N r0 m1 = (Inr (p1, None, None), r1) \<and>
        nz_WriteMessage N r1 [] = (Inr (m2, None, None), r2) \<and>
        nz_ReadMessage N i1 m2 = (Inr (p2, None, None), i2) \<and>
        nz_WriteMessage N i2 [] = (Inr (m3, Some c1, Some c2), i3) \<and>
        nz_ReadMessage N r2 m3 = (Inr (p3, Some d1, Some d2), r3) \<and>
        paired c1 d1 \<and> paired d2 c2"
begin

lemma handshake_completes:
  assumes "nz_NewHandshakeState N True kI rI = Inr i0" "nz_NewHandshakeState N False kR rR = Inr r0"
  shows "\<exists>m1 m2 m3 c s.
    ClientHandshake N kI rI pipe_read pipe_write \<lparr>incoming = [m2], outgoing = []\<rparr>
      = (Inr c, \<lparr>incoming = [], outgoing = [m1, m3]\<rparr>) \<and>
    ServerHandshake N kR rR pipe_read pipe_write \<lparr>incoming = [m1, m3], outgoing = []\<rparr>
      = (Inr s, \<lparr>incoming = [], outgoing = [m2]\<rparr>) \<and>
    mirrored paired c s"
proof -
  obtain m1 i1 p1 r1 m2 r2 p2 i2 m3 i3 p3 r3 c1 c2 d1 d2 where
    "nz_WriteMessage N i0 [] = (Inr (m1, None, None), i1)"
    "nz_ReadMessage N r0 m1 = (Inr (p1, None, None), r1)"
    "nz_WriteMessage N r1 [] = (Inr (m2, None, None), r2)"
    "nz_ReadMessage N i1 m2 = (Inr (p2, None, None), i2)"
    "nz_WriteMessage N i2 [] = (Inr (m3, Some c1, Some c2), i3)"
    "nz_ReadMessage N r2 m3 = (Inr (p3, Some d1, Some d2), r3)"
    "paired c1 d1" "paired d2 c2"
    using xx [OF assms] by blast
  note facts = this
  have client: "ClientHandshake N kI rI pipe_read pipe_write \<lparr>incoming = [m2], outgoing = []\<rparr>
      = (Inr \<lparr>Send = c1, Recv = c2\<rparr>, \<lparr>incoming = [], outgoing = [m1, m3]\<rparr>)"
    by (simp add: ClientHandshake_def pipe_read_def pipe_write_def assms facts)
  have server: "ServerHandshake N kR rR pipe_read pipe_write \<lparr>incoming = [m1, m3], outgoing = []\<rparr>
      = (Inr \<lparr>Send = d2, Recv = d1\<rparr>, \<lparr>incoming = [], outgoing = [m2]\<rparr>)"
    by (simp add: ServerHandshake_def pipe_read_def pipe_write_def assms facts)
  have "mirrored paired \<lparr>Send = c1, Recv = c2\<rparr> \<lparr>Send = d2, Recv = d1\<rparr>"
    using facts(7,8) by (simp add: mirrored_def)
  with client server show ?thesis by blast
qed

end

end
