(* ===== verification/ChaCha20_Poly1305.thy ===== *)
theory ChaCha20_Poly1305
  imports Proto_Crypto
begin

text \<open>
  A concrete instance of the AEAD parameter of \<open>Proto_Crypto\<close>: ChaCha20-Poly1305 as RFC 8439
  specifies it, executable, with the proof that it meets the contract \<open>aead_cipher\<close>. The
  sources link the implementation of \<open>golang.org/x/crypto/chacha20poly1305\<close>; the theorems of the
  development that assume an AEAD are instantiated here, so none of them is vacuous.
\<close>

section \<open>ChaCha20\<close>

definition le32 :: "uint32 \<Rightarrow> bytes" where
  "le32 w = map (\<lambda>i. ucast (drop_bit (8 * i) w)) [0..<4]"

definition of_le :: "bytes \<Rightarrow> nat" where
  "of_le bs = foldr (\<lambda>b n. unat b + 256 * n) bs 0"

fun words_of :: "bytes \<Rightarrow> uint32 list" where
  "words_of (a # b # c # d # bs) = of_nat (of_le [a, b, c, d]) # words_of bs"
| "words_of _ = []"

definition quarter_round :: "nat \<Rightarrow> nat \<Rightarrow> nat \<Rightarrow> nat \<Rightarrow> uint32 list \<Rightarrow> uint32 list" where
  "quarter_round ia ib ic ie s =
     (let a = s ! ia; b = s ! ib; c = s ! ic; d = s ! ie;
          a = a + b; d = word_rotl 16 (d XOR a);
          c = c + d; b = word_rotl 12 (b XOR c);
          a = a + b; d = word_rotl 8 (d XOR a);
          c = c + d; b = word_rotl 7 (b XOR c)
      in s[ia := a, ib := b, ic := c, ie := d])"

definition double_round :: "uint32 list \<Rightarrow> uint32 list" where
  "double_round s =
     quarter_round 3 4 9 14 (quarter_round 2 7 8 13 (quarter_round 1 6 11 12 (quarter_round 0 5 10 15
     (quarter_round 3 7 11 15 (quarter_round 2 6 10 14 (quarter_round 1 5 9 13
     (quarter_round 0 4 8 12 s)))))))"

definition chacha_state :: "bytes \<Rightarrow> nat \<Rightarrow> bytes \<Rightarrow> uint32 list" where
  "chacha_state k ctr n =
     [0x61707865, 0x3320646e, 0x79622d32, 0x6b206574] @ words_of k @ [of_nat ctr] @ words_of n"

definition chacha_block :: "bytes \<Rightarrow> nat \<Rightarrow> bytes \<Rightarrow> bytes" where
  "chacha_block k ctr n =
     (let s = chacha_state k ctr n
      in concat (map le32 (map2 (+) ((double_round ^^ 10) s) s)))"

fun keystream :: "bytes \<Rightarrow> nat \<Rightarrow> bytes \<Rightarrow> nat \<Rightarrow> bytes" where
  "keystream k ctr n 0 = []"
| "keystream k ctr n (Suc blocks) = chacha_block k ctr n @ keystream k (Suc ctr) n blocks"

definition chacha_xor :: "bytes \<Rightarrow> bytes \<Rightarrow> bytes \<Rightarrow> bytes" where
  "chacha_xor k n p =
     (let ks = keystream k 1 n ((length p + 63) div 64)
      in map (\<lambda>(i, b). b XOR (if i < length ks then ks ! i else 0)) (List.enumerate 0 p))"

section \<open>Poly1305\<close>

definition poly_prime :: nat where "poly_prime = 2 ^ 130 - 5"

fun poly_acc :: "nat \<Rightarrow> nat \<Rightarrow> nat \<Rightarrow> bytes \<Rightarrow> nat" where
  "poly_acc 0 r acc bs = acc"
| "poly_acc (Suc fuel) r acc bs =
     (if bs = [] then acc
      else poly_acc fuel r (((acc + of_le (take 16 bs @ [1])) * r) mod poly_prime) (drop 16 bs))"

definition nat_le_bytes :: "nat \<Rightarrow> nat \<Rightarrow> bytes" where
  "nat_le_bytes len n = map (\<lambda>i. of_nat (n div 256 ^ i)) [0..<len]"

definition poly1305 :: "bytes \<Rightarrow> bytes \<Rightarrow> bytes" where
  "poly1305 otk msg =
     (let r = of_le (take 16 otk) AND 0x0ffffffc0ffffffc0ffffffc0fffffff;
          s = of_le (take 16 (drop 16 otk))
      in nat_le_bytes 16 (poly_acc (length msg) r 0 msg + s))"

section \<open>The AEAD construction\<close>

definition pad16 :: "bytes \<Rightarrow> bytes" where
  "pad16 bs = bs @ replicate ((16 - length bs mod 16) mod 16) 0"

definition chacha_tag :: "bytes \<Rightarrow> bytes \<Rightarrow> bytes \<Rightarrow> bytes \<Rightarrow> bytes" where
  "chacha_tag k n ct aad =
     poly1305 (take 32 (chacha_block k 0 n))
       (pad16 aad @ pad16 ct @ nat_le_bytes 8 (length aad) @ nat_le_bytes 8 (length ct))"

definition chacha20poly1305 :: aead_ops where
  "chacha20poly1305 =
     \<lparr>aead_Seal = (\<lambda>k n p aad. let ct = chacha_xor k n p in ct @ chacha_tag k n ct aad),
      aead_Open = (\<lambda>k n c aad.
        if length c < 16 then Inl ''chacha20poly1305: message authentication failed''
        else (let ct = take (length c - 16) c; tag = drop (length c - 16) c
              in if chacha_tag k n ct aad = tag then Inr (chacha_xor k n ct)
                 else Inl ''chacha20poly1305: message authentication failed''))\<rparr>"

section \<open>It meets the contract\<close>

lemma length_chacha_xor [simp]: "length (chacha_xor k n p) = length p"
  by (simp add: chacha_xor_def Let_def)

lemma xor_byte_cancel [simp]: "(b XOR k) XOR k = (b :: byte)"
  by (simp add: xor.assoc)

lemma chacha_xor_involution [simp]: "chacha_xor k n (chacha_xor k n p) = p"
  by (rule nth_equalityI) (simp_all add: chacha_xor_def Let_def nth_enumerate_eq)

lemma length_chacha_tag [simp]: "length (chacha_tag k n ct aad) = 16"
  by (simp add: chacha_tag_def poly1305_def nat_le_bytes_def Let_def)

interpretation chacha: aead_cipher chacha20poly1305
  by unfold_locales (simp_all add: chacha20poly1305_def Let_def)

end
