(* ===== verification/Noise_XX.thy ===== *)
theory Noise_XX
  imports ChaCha20_Poly1305
begin

text \<open>
  A concrete instance of the Noise parameter of \<open>Proto_Crypto\<close>: the XX pattern
  (\<open>-> e\<close>, \<open><- e, ee, s, es\<close>, \<open>-> s, se\<close>) with its symmetric state, over ChaCha20-Poly1305 cipher
  states and Diffie-Hellman in the integers modulo \<open>2^255 - 19\<close>. The sources link
  \<open>github.com/flynn/noise\<close> with X25519 and BLAKE2s; the group and the hash here differ, the message
  pattern, the key schedule and the cipher states do not. It meets the contract \<open>noise_xx\<close>.
\<close>

section \<open>Diffie-Hellman and the hash\<close>

definition dh_prime :: nat where "dh_prime = 2 ^ 255 - 19"

definition dh_public :: "nat \<Rightarrow> nat" where "dh_public a = 9 ^ a mod dh_prime"

definition dh_shared :: "nat \<Rightarrow> nat \<Rightarrow> nat" where "dh_shared a B = B ^ a mod dh_prime"

definition mix_hash :: "bytes \<Rightarrow> bytes \<Rightarrow> bytes" where
  "mix_hash h d = take 16 (poly1305 (pad16 h) d) @ poly1305 (take 32 (chacha_block h 0 (take 12 h))) d"

text \<open>\<open>mix_key ck dh\<close>: the next chaining key and a cipher key, 32 bytes each.\<close>

definition mix_key :: "bytes \<Rightarrow> nat \<Rightarrow> bytes \<times> bytes" where
  "mix_key ck z =
     (let t = mix_hash ck (nat_le_bytes 32 z)
      in (nat_le_bytes 32 (of_le (mix_hash t [1])), nat_le_bytes 32 (of_le (mix_hash t [2]))))"

section \<open>Symmetric state\<close>

record sym_state =
  ss_ck :: bytes
  ss_h :: bytes
  ss_key :: "(bytes \<times> uint64) option"

definition sym_mix_hash :: "bytes \<Rightarrow> sym_state \<Rightarrow> sym_state" where
  "sym_mix_hash d s = s\<lparr>ss_h := mix_hash (ss_h s) d\<rparr>"

definition sym_mix_key :: "nat \<Rightarrow> sym_state \<Rightarrow> sym_state" where
  "sym_mix_key z s = (let (ck, k) = mix_key (ss_ck s) z in s\<lparr>ss_ck := ck, ss_key := Some (k, 0)\<rparr>)"

definition sym_encrypt :: "bytes \<Rightarrow> sym_state \<Rightarrow> bytes \<times> sym_state" where
  "sym_encrypt p s =
     (case ss_key s of None \<Rightarrow> (p, sym_mix_hash p s)
      | Some (k, n) \<Rightarrow> (let c = aead_Seal chacha20poly1305 k (BuildNonce n) p (ss_h s)
                     in (c, sym_mix_hash c (s\<lparr>ss_key := Some (k, n + 1)\<rparr>))))"

definition sym_decrypt :: "bytes \<Rightarrow> sym_state \<Rightarrow> (goerr + bytes) \<times> sym_state" where
  "sym_decrypt c s =
     (case ss_key s of None \<Rightarrow> (Inr c, sym_mix_hash c s)
      | Some (k, n) \<Rightarrow> (case aead_Open chacha20poly1305 k (BuildNonce n) c (ss_h s) of
           Inl e \<Rightarrow> (Inl e, s)
         | Inr p \<Rightarrow> (Inr p, sym_mix_hash c (s\<lparr>ss_key := Some (k, n + 1)\<rparr>))))"

definition sym_split :: "sym_state \<Rightarrow> (bytes \<times> uint64) \<times> (bytes \<times> uint64)" where
  "sym_split s = (let (k1, k2) = mix_key (ss_ck s) 0 in ((k1, 0), (k2, 0)))"

section \<open>Handshake state\<close>

record hs_state =
  hs_initiator :: bool
  hs_step :: nat
  hs_s :: nat
  hs_e :: nat
  hs_rs :: nat
  hs_re :: nat
  hs_sym :: sym_state

definition init_sym :: sym_state where
  "init_sym = \<lparr>ss_ck = replicate 32 0, ss_h = replicate 32 0, ss_key = None\<rparr>"

type_synonym cipher_state = "bytes \<times> uint64"
type_synonym hs_result = "(goerr + bytes \<times> cipher_state option \<times> cipher_state option) \<times> hs_state"

definition xx_new :: "bool \<Rightarrow> KeyPair \<Rightarrow> bytes \<Rightarrow> goerr + hs_state" where
  "xx_new initiator kp rnd =
     Inr \<lparr>hs_initiator = initiator, hs_step = 0, hs_s = of_le (Private kp), hs_e = of_le rnd,
          hs_rs = 0, hs_re = 0, hs_sym = init_sym\<rparr>"

definition pub_bytes :: "nat \<Rightarrow> bytes" where
  "pub_bytes a = nat_le_bytes 32 (dh_public a)"

definition xx_write :: "hs_state \<Rightarrow> bytes \<Rightarrow> hs_result" where
  "xx_write hs payload =
     (if hs_initiator hs \<and> hs_step hs = 0 then
        (let e = pub_bytes (hs_e hs); (p, s) = sym_encrypt payload (sym_mix_hash e (hs_sym hs))
         in (Inr (e @ p, None, None), hs\<lparr>hs_step := 1, hs_sym := s\<rparr>))
      else if \<not> hs_initiator hs \<and> hs_step hs = 1 then
        (let e = pub_bytes (hs_e hs);
             s = sym_mix_key (dh_shared (hs_e hs) (hs_re hs)) (sym_mix_hash e (hs_sym hs));
             (cs, s) = sym_encrypt (pub_bytes (hs_s hs)) s;
             s = sym_mix_key (dh_shared (hs_s hs) (hs_re hs)) s;
             (p, s) = sym_encrypt payload s
         in (Inr (e @ cs @ p, None, None), hs\<lparr>hs_step := 2, hs_sym := s\<rparr>))
      else if hs_initiator hs \<and> hs_step hs = 2 then
        (let (cs, s) = sym_encrypt (pub_bytes (hs_s hs)) (hs_sym hs);
             s = sym_mix_key (dh_shared (hs_s hs) (hs_re hs)) s;
             (p, s) = sym_encrypt payload s;
             (c1, c2) = sym_split s
         in (Inr (cs @ p, Some c1, Some c2), hs\<lparr>hs_step := 3, hs_sym := s\<rparr>))
      else (Inl ''noise: unexpected call to WriteMessage'', hs))"

definition xx_read :: "hs_state \<Rightarrow> bytes \<Rightarrow> hs_result" where
  "xx_read hs msg =
     (if \<not> hs_initiator hs \<and> hs_step hs = 0 \<and> 32 \<le> length msg then
        (let e = take 32 msg; s = sym_mix_hash e (hs_sym hs) in
         case sym_decrypt (drop 32 msg) s of (Inl err, _) \<Rightarrow> (Inl err, hs)
         | (Inr p, s) \<Rightarrow> (Inr (p, None, None), hs\<lparr>hs_step := 1, hs_re := of_le e, hs_sym := s\<rparr>))
      else if hs_initiator hs \<and> hs_step hs = 1 \<and> 80 \<le> length msg then
        (let e = take 32 msg;
             s = sym_mix_key (dh_shared (hs_e hs) (of_le e)) (sym_mix_hash e (hs_sym hs)) in
         case sym_decrypt (take 48 (drop 32 msg)) s of (Inl err, _) \<Rightarrow> (Inl err, hs)
         | (Inr rs, s) \<Rightarrow>
             (case sym_decrypt (drop 80 msg) (sym_mix_key (dh_shared (hs_e hs) (of_le rs)) s) of
                (Inl err, _) \<Rightarrow> (Inl err, hs)
              | (Inr p, s) \<Rightarrow> (Inr (p, None, None),
                  hs\<lparr>hs_step := 2, hs_re := of_le e, hs_rs := of_le rs, hs_sym := s\<rparr>)))
      else if \<not> hs_initiator hs \<and> hs_step hs = 2 \<and> 48 \<le> length msg then
        (case sym_decrypt (take 48 msg) (hs_sym hs) of (Inl err, _) \<Rightarrow> (Inl err, hs)
         | (Inr rs, s) \<Rightarrow>
             (case sym_decrypt (drop 48 msg) (sym_mix_key (dh_shared (hs_e hs) (of_le rs)) s) of
                (Inl err, _) \<Rightarrow> (Inl err, hs)
              | (Inr p, s) \<Rightarrow> (let (c1, c2) = sym_split s in
                  (Inr (p, Some c1, Some c2), hs\<lparr>hs_step := 3, hs_rs := of_le rs, hs_sym := s\<rparr>))))
      else (Inl ''noise: unexpected call to ReadMessage'', hs))"

definition cs_encrypt :: "cipher_state \<Rightarrow> bytes \<Rightarrow> (goerr + bytes) \<times> cipher_state" where
  "cs_encrypt c p = (let (k, n) = c in
     if n = - 1 then (Inl ''noise: max nonce'', c)
     else (Inr (aead_Seal chacha20poly1305 k (BuildNonce n) p []), (k, n + 1)))"

definition cs_decrypt :: "cipher_state \<Rightarrow> bytes \<Rightarrow> (goerr + bytes) \<times> cipher_state" where
  "cs_decrypt c ct = (let (k, n) = c in
     if n = - 1 then (Inl ''noise: max nonce'', c)
     else (case aead_Open chacha20poly1305 k (BuildNonce n) ct [] of
             Inl e \<Rightarrow> (Inl e, c) | Inr p \<Rightarrow> (Inr p, (k, n + 1))))"

definition xx_keypair :: "bytes \<Rightarrow> goerr + KeyPair" where
  "xx_keypair rnd = Inr \<lparr>Private = rnd, Public = pub_bytes (of_le rnd)\<rparr>"

definition noise_chacha :: "(hs_state, cipher_state) noise_ops" where
  "noise_chacha = \<lparr>nz_GenerateKeypair = xx_keypair, nz_NewHandshakeState = xx_new,
     nz_WriteMessage = xx_write, nz_ReadMessage = xx_read,
     nz_Encrypt = cs_encrypt, nz_Decrypt = cs_decrypt\<rparr>"

definition cs_paired :: "cipher_state \<Rightarrow> cipher_state \<Rightarrow> bool" where
  "cs_paired a b \<longleftrightarrow> a = b \<and> length (fst a) = KeySize"

section \<open>It meets the contract\<close>

lemma length_nat_le_bytes [simp]: "length (nat_le_bytes len n) = len"
  by (simp add: nat_le_bytes_def)

lemma nat_le_bytes_Suc:
  "nat_le_bytes (Suc len) n = of_nat n # nat_le_bytes len (n div 256)"
  by (simp add: nat_le_bytes_def upt_rec [of 0] map_Suc_upt [symmetric] div_mult2_eq del: upt_Suc)

lemma of_le_nat_le_bytes: "n < 256 ^ len \<Longrightarrow> of_le (nat_le_bytes len n) = n"
proof (induction len arbitrary: n)
  case 0
  then show ?case by (simp add: nat_le_bytes_def of_le_def)
next
  case (Suc len)
  then have "n div 256 < 256 ^ len" by (simp add: less_mult_imp_div_less mult.commute)
  with Suc.IH have "foldr (\<lambda>b n. unat b + 256 * n) (nat_le_bytes len (n div 256)) 0 = n div 256"
    by (simp add: of_le_def)
  then show ?case by (simp add: nat_le_bytes_Suc of_le_def unat_of_nat)
qed

lemma dh_public_less: "dh_public a < 256 ^ 32"
proof -
  have "dh_public a < dh_prime" by (simp add: dh_public_def dh_prime_def)
  also have "dh_prime < 256 ^ 32" by (simp add: dh_prime_def)
  finally show ?thesis .
qed

lemma of_le_pub_bytes [simp]: "of_le (pub_bytes a) = dh_public a"
  using dh_public_less by (simp add: pub_bytes_def of_le_nat_le_bytes)

lemma length_pub_bytes [simp]: "length (pub_bytes a) = 32"
  by (simp add: pub_bytes_def)

lemma dh_commute: "dh_shared a (dh_public b) = dh_shared b (dh_public a)"
  by (simp add: dh_shared_def dh_public_def power_mod power_mult [symmetric] mult.commute)

lemma length_mix_key [simp]: "mix_key ck z = (a, k) \<Longrightarrow> length a = 32 \<and> length k = 32"
  by (auto simp: mix_key_def Let_def)

text \<open>A keyed symmetric state decrypts what an equal state encrypted, and both move on alike.\<close>

definition sym_ok :: "sym_state \<Rightarrow> bool" where
  "sym_ok s \<longleftrightarrow> (case ss_key s of None \<Rightarrow> True | Some (k, n) \<Rightarrow> length k = KeySize)"

lemma sym_ok_simps [simp]:
  "sym_ok init_sym" "sym_ok (sym_mix_hash d s) = sym_ok s" "sym_ok (sym_mix_key z s)"
  by (auto simp: sym_ok_def init_sym_def sym_mix_hash_def sym_mix_key_def KeySize_def
      split: option.splits prod.splits dest: length_mix_key)

lemma sym_decrypt_encrypt:
  "sym_ok s \<Longrightarrow> sym_encrypt p s = (c, s') \<Longrightarrow> sym_decrypt c s = (Inr p, s') \<and> sym_ok s'"
  by (auto simp: sym_encrypt_def sym_decrypt_def sym_ok_def sym_mix_hash_def Let_def chacha.open_seal
      split: option.splits prod.splits)

lemma sym_mix_key_keyed [simp]: "ss_key (sym_mix_key z s) \<noteq> None"
  by (simp add: sym_mix_key_def split: prod.splits)

lemma sym_encrypt_keyed:
  "ss_key s \<noteq> None \<Longrightarrow> sym_encrypt p s = (c, s') \<Longrightarrow> length c = length p + 16 \<and> ss_key s' \<noteq> None"
  by (auto simp: sym_encrypt_def sym_mix_hash_def Let_def chacha.length_seal
      split: prod.splits option.splits)

lemma sym_split_paired: "sym_split s = (c1, c2) \<Longrightarrow> cs_paired c1 c1 \<and> cs_paired c2 c2"
  by (auto simp: sym_split_def cs_paired_def KeySize_def split: prod.splits dest: length_mix_key)

lemma xx_first_message:
  assumes s1: "sym_encrypt [] (sym_mix_hash (pub_bytes eI) init_sym) = (p1, s1)"
  shows "xx_write \<lparr>hs_initiator = True, hs_step = 0, hs_s = sI, hs_e = eI, hs_rs = 0, hs_re = 0,
      hs_sym = init_sym\<rparr> [] = (Inr (pub_bytes eI @ p1, None, None),
        \<lparr>hs_initiator = True, hs_step = 1, hs_s = sI, hs_e = eI, hs_rs = 0, hs_re = 0, hs_sym = s1\<rparr>)"
    and "xx_read \<lparr>hs_initiator = False, hs_step = 0, hs_s = sR, hs_e = eR, hs_rs = 0, hs_re = 0,
      hs_sym = init_sym\<rparr> (pub_bytes eI @ p1) = (Inr ([], None, None),
        \<lparr>hs_initiator = False, hs_step = 1, hs_s = sR, hs_e = eR, hs_rs = 0, hs_re = dh_public eI,
          hs_sym = s1\<rparr>)"
    and "sym_ok s1"
  using sym_decrypt_encrypt [OF _ s1] by (simp_all add: xx_write_def xx_read_def s1)

lemma xx_second_message:
  assumes ok: "sym_ok s1"
    and cs: "sym_encrypt (pub_bytes sR)
      (sym_mix_key (dh_shared eI (dh_public eR)) (sym_mix_hash (pub_bytes eR) s1)) = (cs, s2)"
    and p: "sym_encrypt [] (sym_mix_key (dh_shared eI (dh_public sR)) s2) = (p, s3)"
  shows "xx_write \<lparr>hs_initiator = False, hs_step = 1, hs_s = sR, hs_e = eR, hs_rs = 0,
      hs_re = dh_public eI, hs_sym = s1\<rparr> [] = (Inr (pub_bytes eR @ cs @ p, None, None),
        \<lparr>hs_initiator = False, hs_step = 2, hs_s = sR, hs_e = eR, hs_rs = 0, hs_re = dh_public eI,
          hs_sym = s3\<rparr>)"
    and "xx_read \<lparr>hs_initiator = True, hs_step = 1, hs_s = sI, hs_e = eI, hs_rs = 0, hs_re = 0,
      hs_sym = s1\<rparr> (pub_bytes eR @ cs @ p) = (Inr ([], None, None),
        \<lparr>hs_initiator = True, hs_step = 2, hs_s = sI, hs_e = eI, hs_rs = dh_public sR,
          hs_re = dh_public eR, hs_sym = s3\<rparr>)"
    and "sym_ok s3" and "ss_key s3 \<noteq> None"
proof -
  have len: "length cs = 48"
    using sym_encrypt_keyed [OF _ cs] by simp
  note dec = sym_decrypt_encrypt [OF _ cs] sym_decrypt_encrypt [OF _ p]
  show "xx_write \<lparr>hs_initiator = False, hs_step = 1, hs_s = sR, hs_e = eR, hs_rs = 0,
      hs_re = dh_public eI, hs_sym = s1\<rparr> [] = (Inr (pub_bytes eR @ cs @ p, None, None),
        \<lparr>hs_initiator = False, hs_step = 2, hs_s = sR, hs_e = eR, hs_rs = 0, hs_re = dh_public eI,
          hs_sym = s3\<rparr>)"
    by (simp add: xx_write_def dh_commute [of _ eI] cs p)
  show "xx_read \<lparr>hs_initiator = True, hs_step = 1, hs_s = sI, hs_e = eI, hs_rs = 0, hs_re = 0,
      hs_sym = s1\<rparr> (pub_bytes eR @ cs @ p) = (Inr ([], None, None),
        \<lparr>hs_initiator = True, hs_step = 2, hs_s = sI, hs_e = eI, hs_rs = dh_public sR,
          hs_re = dh_public eR, hs_sym = s3\<rparr>)"
    using dec by (simp add: xx_read_def Let_def len)
  show "sym_ok s3" using dec(2) by simp
  show "ss_key s3 \<noteq> None" using sym_encrypt_keyed [OF _ p] by simp
qed

lemma xx_third_message:
  assumes ok: "sym_ok s3" "ss_key s3 \<noteq> None"
    and cs: "sym_encrypt (pub_bytes sI) s3 = (cs, s4)"
    and p: "sym_encrypt [] (sym_mix_key (dh_shared eR (dh_public sI)) s4) = (p, s5)"
    and c: "sym_split s5 = (c1, c2)"
  shows "xx_write \<lparr>hs_initiator = True, hs_step = 2, hs_s = sI, hs_e = eI, hs_rs = dh_public sR,
      hs_re = dh_public eR, hs_sym = s3\<rparr> [] = (Inr (cs @ p, Some c1, Some c2),
        \<lparr>hs_initiator = True, hs_step = 3, hs_s = sI, hs_e = eI, hs_rs = dh_public sR,
          hs_re = dh_public eR, hs_sym = s5\<rparr>)"
    and "xx_read \<lparr>hs_initiator = False, hs_step = 2, hs_s = sR, hs_e = eR, hs_rs = 0,
      hs_re = dh_public eI, hs_sym = s3\<rparr> (cs @ p) = (Inr ([], Some c1, Some c2),
        \<lparr>hs_initiator = False, hs_step = 3, hs_s = sR, hs_e = eR, hs_rs = dh_public sI,
          hs_re = dh_public eI, hs_sym = s5\<rparr>)"
  using sym_decrypt_encrypt [OF ok(1) cs] sym_decrypt_encrypt [OF _ p] sym_encrypt_keyed [OF ok(2) cs]
  by (simp_all add: xx_write_def xx_read_def dh_commute [of _ eR] cs p c)

interpretation nxx: noise_xx noise_chacha cs_paired
proof unfold_locales
  fix a b p ct a'
  assume "cs_paired a b" "nz_Encrypt noise_chacha a p = (Inr ct, a')"
  then show "\<exists>b'. nz_Decrypt noise_chacha b ct = (Inr p, b') \<and> cs_paired a' b'"
    by (auto simp: noise_chacha_def cs_encrypt_def cs_decrypt_def cs_paired_def chacha.open_seal
        split: if_splits prod.splits)
next
  fix kI rI i0 kR rR r0
  assume "nz_NewHandshakeState noise_chacha True kI rI = Inr i0"
    "nz_NewHandshakeState noise_chacha False kR rR = Inr r0"
  then have i0: "i0 = \<lparr>hs_initiator = True, hs_step = 0, hs_s = of_le (Private kI),
      hs_e = of_le rI, hs_rs = 0, hs_re = 0, hs_sym = init_sym\<rparr>"
    and r0: "r0 = \<lparr>hs_initiator = False, hs_step = 0, hs_s = of_le (Private kR),
      hs_e = of_le rR, hs_rs = 0, hs_re = 0, hs_sym = init_sym\<rparr>"
    by (simp_all add: noise_chacha_def xx_new_def)
  let ?eI = "of_le rI" and ?eR = "of_le rR" and ?sI = "of_le (Private kI)" and ?sR = "of_le (Private kR)"
  obtain p1 s1 where s1: "sym_encrypt [] (sym_mix_hash (pub_bytes ?eI) init_sym) = (p1, s1)"
    by fastforce
  obtain cs2 s2 where s2: "sym_encrypt (pub_bytes ?sR)
      (sym_mix_key (dh_shared ?eI (dh_public ?eR)) (sym_mix_hash (pub_bytes ?eR) s1)) = (cs2, s2)"
    by fastforce
  obtain p2 s3 where s3: "sym_encrypt [] (sym_mix_key (dh_shared ?eI (dh_public ?sR)) s2) = (p2, s3)"
    by fastforce
  obtain cs3 s4 where s4: "sym_encrypt (pub_bytes ?sI) s3 = (cs3, s4)" by fastforce
  obtain p3 s5 where s5: "sym_encrypt [] (sym_mix_key (dh_shared ?eR (dh_public ?sI)) s4) = (p3, s5)"
    by fastforce
  obtain k1 n1 k2 n2 where c: "sym_split s5 = ((k1, n1), (k2, n2))" by (metis surj_pair)
  note m1 = xx_first_message [OF s1]
  note m2 = xx_second_message [OF m1(3) s2 s3]
  note m3 = xx_third_message [OF m2(3,4) s4 s5 c]
  show "\<exists>m1 i1 p1 r1 m2 r2 p2 i2 m3 i3 p3 r3 c1 c2 d1 d2.
        nz_WriteMessage noise_chacha i0 [] = (Inr (m1, None, None), i1) \<and>
        nz_ReadMessage noise_chacha r0 m1 = (Inr (p1, None, None), r1) \<and>
        nz_WriteMessage noise_chacha r1 [] = (Inr (m2, None, None), r2) \<and>
        nz_ReadMessage noise_chacha i1 m2 = (Inr (p2, None, None), i2) \<and>
        nz_WriteMessage noise_chacha i2 [] = (Inr (m3, Some c1, Some c2), i3) \<and>
        nz_ReadMessage noise_chacha r2 m3 = (Inr (p3, Some d1, Some d2), r3) \<and>
        cs_paired c1 d1 \<and> cs_paired d2 c2"
    unfolding i0 r0 using m1(1,2) m2(1,2) m3 sym_split_paired [OF c]
    by (simp add: noise_chacha_def)
qed

section \<open>Properties\<close>

text \<open>
  C5. The Noise handshake completes and gives a working channel: with any library that behaves as
  documented, the client and the server run against each other (each side's input is what the other
  writes) both return a session, and whatever either side then encrypts, the other decrypts in
  order to the same plaintexts.
\<close>

theorem noise_handshake_delivers:
  assumes "noise_xx N paired"
    and "nz_NewHandshakeState N True kI rI = Inr i0" and "nz_NewHandshakeState N False kR rR = Inr r0"
  shows "\<exists>m1 m2 m3 c s.
    ClientHandshake N kI rI pipe_read pipe_write \<lparr>incoming = [m2], outgoing = []\<rparr>
      = (Inr c, \<lparr>incoming = [], outgoing = [m1, m3]\<rparr>) \<and>
    ServerHandshake N kR rR pipe_read pipe_write \<lparr>incoming = [m1, m3], outgoing = []\<rparr>
      = (Inr s, \<lparr>incoming = [], outgoing = [m2]\<rparr>) \<and>
    (\<forall>ps cts c'. encrypt_all N c ps = (Inr cts, c') \<longrightarrow> (\<exists>s'. decrypt_all N s cts = (Inr ps, s'))) \<and>
    (\<forall>ps cts s'. encrypt_all N s ps = (Inr cts, s') \<longrightarrow> (\<exists>c'. decrypt_all N c cts = (Inr ps, c')))"
proof -
  have cipher: "noise_cipher N paired" using assms(1) by (rule noise_xx.axioms)
  obtain m1 m2 m3 c s where hs:
    "ClientHandshake N kI rI pipe_read pipe_write \<lparr>incoming = [m2], outgoing = []\<rparr>
      = (Inr c, \<lparr>incoming = [], outgoing = [m1, m3]\<rparr>)"
    "ServerHandshake N kR rR pipe_read pipe_write \<lparr>incoming = [m1, m3], outgoing = []\<rparr>
      = (Inr s, \<lparr>incoming = [], outgoing = [m2]\<rparr>)" "mirrored paired c s"
    using noise_xx.handshake_completes [OF assms] by blast
  have swap: "mirrored paired s c" using hs(3) by (simp add: mirrored_def)
  show ?thesis
    using hs noise_cipher.sessions_sync [OF cipher hs(3)] noise_cipher.sessions_sync [OF cipher swap] by blast
qed

theorem noise_handshake_delivers_witness:
  "\<exists>m1 m2 m3 c s.
    ClientHandshake noise_chacha \<lparr>Private = [1], Public = [2]\<rparr> [3] pipe_read pipe_write
      \<lparr>incoming = [m2], outgoing = []\<rparr> = (Inr c, \<lparr>incoming = [], outgoing = [m1, m3]\<rparr>) \<and>
    ServerHandshake noise_chacha \<lparr>Private = [4], Public = [5]\<rparr> [6] pipe_read pipe_write
      \<lparr>incoming = [m1, m3], outgoing = []\<rparr> = (Inr s, \<lparr>incoming = [], outgoing = [m2]\<rparr>)"
proof -
  have new: "\<exists>i. nz_NewHandshakeState noise_chacha b k r = Inr i" for b k r
    by (simp add: noise_chacha_def xx_new_def)
  obtain i0 r0 where
    "nz_NewHandshakeState noise_chacha True \<lparr>Private = [1], Public = [2]\<rparr> [3] = Inr i0"
    "nz_NewHandshakeState noise_chacha False \<lparr>Private = [4], Public = [5]\<rparr> [6] = Inr r0"
    using new by blast
  from noise_handshake_delivers [OF nxx.noise_xx_axioms this] show ?thesis by blast
qed

text \<open>
  A packet decrypts to what was encrypted under the same session identifier and sequence number,
  with any AEAD that opens what it seals, and the ciphertext is 16 bytes longer; a key of another
  size than 32 bytes is refused.
\<close>

lemma aead_packet_roundtrip:
  assumes "aead_cipher C"
  shows "(NewAEAD key = Inr k \<longrightarrow>
      DecryptAEAD C k sid seq (EncryptAEAD C k sid seq p) = Inr p \<and>
      length (EncryptAEAD C k sid seq p) = length p + 16) \<and>
    (length key \<noteq> 32 \<longrightarrow> (\<exists>e. NewAEAD key = Inl e))"
  using aead_cipher.DecryptAEAD_EncryptAEAD [OF assms] aead_cipher.length_EncryptAEAD [OF assms]
  by (simp add: NewAEAD_def KeySize_def)

lemma aead_packet_roundtrip_instance:
  "DecryptAEAD chacha20poly1305 (replicate 32 7) [1, 2] 5 (EncryptAEAD chacha20poly1305 (replicate 32 7) [1, 2] 5 [9, 9])
     = Inr [9, 9]"
  using aead_packet_roundtrip [OF chacha.aead_cipher_axioms, of "replicate 32 7" "replicate 32 7"]
  by (simp add: KeySize_def)

text \<open>
  No two packets share a nonce: the 12-byte nonce determines the 64-bit sequence number, and the
  additional data determines both the session identifier, whatever its length, and the sequence number.
\<close>

lemma nonce_and_aad_unique:
  "length (BuildNonce a) = 12 \<and> (BuildNonce a = BuildNonce b \<longleftrightarrow> a = b) \<and>
   (BuildAAD s a = BuildAAD t b \<longleftrightarrow> s = t \<and> a = b)"
  by (simp add: NonceSize_def)

end
