(* ===== verification/Gateway.thy ===== *)
theory Gateway
  imports Dispatcher Noise_XX Go_Json
begin

text \<open>
  \<open>server/cmd/gateway/main.go\<close>: what the gateway does with a connection, and the smaller servers built on the same
  packages, \<open>server/cmd/echo-server\<close>, \<open>starters/go\<close> and \<open>starters/interop\<close>.  A connection is a state with a reader
  and a writer, as for the handshakes; the dispatcher client and the protobuf runtime are parameters.  Tracing and
  logging are left out; the counters the gateway keeps are part of its state.
\<close>

section \<open>The gateway\<close>

record ('h, 'c, 'io, 'd, 'e) gateway_env =
  ge_noise :: "('h, 'c) noise_ops"
  ge_read :: "'io reader"
  ge_write :: "'io writer"
  ge_RemoteAddr :: string
  ge_UnmarshalFrame :: "bytes \<Rightarrow> goerr + Frame"
  ge_Unmarshal :: "bytes \<Rightarrow> goerr + AppMessage"
  ge_Marshal :: "AppMessage \<Rightarrow> goerr + bytes"
  ge_dispatcher :: "('d \<Rightarrow> DispatchRequest \<Rightarrow> 'd \<times> ('e + DispatchResponse)) option"

text \<open>The connection, the dispatcher's state and the gateway's metrics.\<close>

record ('io, 'd) gateway =
  gw_io :: 'io
  gw_disp :: 'd
  gw_ActiveConnections :: int
  gw_MessagesReceived :: int
  gw_MessagesSent :: int
  gw_HandshakeDuration :: "duration list"

datatype ('a, 'b) iteration = Return 'a | Continue 'b

definition echo_response :: "bytes \<Rightarrow> bytes" where
  "echo_response pt = string_to_bytes ''echo: '' @ pt"

text \<open>The dispatch request of a decrypted message, if it is a frame that carries an application message.\<close>

definition dispatch_request :: "('h, 'c, 'io, 'd, 'e) gateway_env \<Rightarrow> bytes \<Rightarrow> DispatchRequest option" where
  "dispatch_request E pt =
     (case ge_UnmarshalFrame E pt of Inl _ \<Rightarrow> None
      | Inr frame \<Rightarrow>
          if slice_len (fr_EncryptedPayload frame) > 0
          then (case ge_Unmarshal E (slice_bytes (fr_EncryptedPayload frame)) of Inl _ \<Rightarrow> None
                | Inr appMsg \<Rightarrow> Some \<lparr>dr_SessionId = Some (string_to_bytes (ge_RemoteAddr E)),
                    dr_SenderId = fr_SessionId frame, dr_Message = Some appMsg\<rparr>)
          else None)"

definition Ack_RECEIVED :: int32 where "Ack_RECEIVED = 1"

definition ack_message :: "DispatchResponse \<Rightarrow> AppMessage" where
  "ack_message resp = \<lparr>am_MessageId = ds_AckMessageId resp, am_Timestamp = None,
     am_Body = Some (AppMessage_Ack (Some \<lparr>ak_AckMessageId = ds_AckMessageId resp, ak_Status = Ack_RECEIVED\<rparr>))\<rparr>"

text \<open>The error of \<open>proto.Marshal\<close> is dropped, and the bytes it returns with one are nil.\<close>

definition ack_bytes :: "('h, 'c, 'io, 'd, 'e) gateway_env \<Rightarrow> DispatchResponse \<Rightarrow> bytes" where
  "ack_bytes E resp = (case ge_Marshal E (ack_message resp) of Inl _ \<Rightarrow> [] | Inr b \<Rightarrow> b)"

definition gw_echo ::
  "('h, 'c, 'io, 'd, 'e) gateway_env \<Rightarrow> 'c NoiseSession \<Rightarrow> ('io, 'd) gateway \<Rightarrow> bytes
     \<Rightarrow> (('io, 'd) gateway, ('io, 'd) gateway \<times> 'c NoiseSession) iteration" where
  "gw_echo E session g pt =
     (case NoiseSession_Encrypt (ge_noise E) session (echo_response pt) of
        (Inl _, session) \<Rightarrow> Return g
      | (Inr enc, session) \<Rightarrow>
          (case ge_write E enc (gw_io g) of
             (Some _, io) \<Rightarrow> Return (g\<lparr>gw_io := io\<rparr>)
           | (None, io) \<Rightarrow> Continue (g\<lparr>gw_io := io, gw_MessagesSent := gw_MessagesSent g + 1\<rparr>, session)))"

definition gw_ack ::
  "('h, 'c, 'io, 'd, 'e) gateway_env \<Rightarrow> 'c NoiseSession \<Rightarrow> ('io, 'd) gateway \<Rightarrow> DispatchResponse
     \<Rightarrow> (('io, 'd) gateway, ('io, 'd) gateway \<times> 'c NoiseSession) iteration" where
  "gw_ack E session g resp =
     (let g = g\<lparr>gw_MessagesSent := gw_MessagesSent g + 1\<rparr> in
      case NoiseSession_Encrypt (ge_noise E) session (ack_bytes E resp) of
        (Inl _, session) \<Rightarrow> Continue (g, session)
      | (Inr enc, session) \<Rightarrow> Continue (g\<lparr>gw_io := snd (ge_write E enc (gw_io g))\<rparr>, session))"

text \<open>One turn of the loop.  A dispatch that fails is logged and the message is echoed.\<close>

definition gw_iter ::
  "('h, 'c, 'io, 'd, 'e) gateway_env \<Rightarrow> 'c NoiseSession \<Rightarrow> ('io, 'd) gateway
     \<Rightarrow> (('io, 'd) gateway, ('io, 'd) gateway \<times> 'c NoiseSession) iteration" where
  "gw_iter E session g =
     (case ge_read E (gw_io g) of
        (Inl _, io) \<Rightarrow> Return (g\<lparr>gw_io := io\<rparr>)
      | (Inr ct, io) \<Rightarrow>
          (let g = g\<lparr>gw_io := io, gw_MessagesReceived := gw_MessagesReceived g + 1\<rparr> in
           case NoiseSession_Decrypt (ge_noise E) session ct of
             (Inl _, session) \<Rightarrow> Return g
           | (Inr pt, session) \<Rightarrow>
               (case ge_dispatcher E of None \<Rightarrow> gw_echo E session g pt
                | Some dispatch \<Rightarrow>
                    (case dispatch_request E pt of None \<Rightarrow> gw_echo E session g pt
                     | Some req \<Rightarrow>
                         (case dispatch (gw_disp g) req of
                            (d, Inl _) \<Rightarrow> gw_echo E session (g\<lparr>gw_disp := d\<rparr>) pt
                          | (d, Inr resp) \<Rightarrow> gw_ack E session (g\<lparr>gw_disp := d\<rparr>) resp)))))"

text \<open>\<open>None\<close> when the connection never ends.\<close>

partial_function (option) gw_loop ::
  "('h, 'c, 'io, 'd, 'e) gateway_env \<Rightarrow> 'c NoiseSession \<Rightarrow> ('io, 'd) gateway \<Rightarrow> ('io, 'd) gateway option" where
  "gw_loop E session g =
     (case gw_iter E session g of Return g \<Rightarrow> Some g | Continue (g, session) \<Rightarrow> gw_loop E session g)"

definition handleConn ::
  "('h, 'c, 'io, 'd, 'e) gateway_env \<Rightarrow> KeyPair \<Rightarrow> bytes \<Rightarrow> duration \<Rightarrow> ('io, 'd) gateway
     \<Rightarrow> ('io, 'd) gateway option" where
  "handleConn E serverKey rnd hsDuration g =
     (let g = g\<lparr>gw_ActiveConnections := gw_ActiveConnections g + 1\<rparr>;
          (r, io) = ServerHandshake (ge_noise E) serverKey rnd (ge_read E) (ge_write E) (gw_io g);
          g = g\<lparr>gw_io := io, gw_HandshakeDuration := gw_HandshakeDuration g @ [hsDuration]\<rparr>;
          close = (\<lambda>g. g\<lparr>gw_ActiveConnections := gw_ActiveConnections g - 1\<rparr>)
      in case r of Inl _ \<Rightarrow> Some (close g) | Inr session \<Rightarrow> map_option close (gw_loop E session g))"

section \<open>The echo servers\<close>

text \<open>
  The loop the three share; \<open>reply\<close> is what they answer to the message with that number.
\<close>

partial_function (option) serve_loop ::
  "('h, 'c) noise_ops \<Rightarrow> 'io reader \<Rightarrow> 'io writer \<Rightarrow> (nat \<Rightarrow> bytes \<Rightarrow> bytes) \<Rightarrow> nat \<Rightarrow> 'c NoiseSession \<Rightarrow> 'io
     \<Rightarrow> 'io option" where
  "serve_loop N read write reply k session io =
     (case read io of
        (Inl _, io) \<Rightarrow> Some io
      | (Inr ct, io) \<Rightarrow>
          (case NoiseSession_Decrypt N session ct of
             (Inl _, session) \<Rightarrow> Some io
           | (Inr pt, session) \<Rightarrow>
               (case NoiseSession_Encrypt N session (reply k pt) of
                  (Inl _, session) \<Rightarrow> Some io
                | (Inr enc, session) \<Rightarrow>
                    (case write enc io of
                       (Some _, io) \<Rightarrow> Some io
                     | (None, io) \<Rightarrow> serve_loop N read write reply (Suc k) session io))))"

definition serve ::
  "('h, 'c) noise_ops \<Rightarrow> (nat \<Rightarrow> bytes \<Rightarrow> bytes) \<Rightarrow> KeyPair \<Rightarrow> bytes \<Rightarrow> 'io reader \<Rightarrow> 'io writer \<Rightarrow> 'io
     \<Rightarrow> 'io option" where
  "serve N reply serverKey rnd read write io =
     (case ServerHandshake N serverKey rnd read write io of
        (Inl _, io) \<Rightarrow> Some io
      | (Inr session, io) \<Rightarrow> serve_loop N read write reply 0 session io)"

definition echo_handleConnection ::
  "('h, 'c) noise_ops \<Rightarrow> KeyPair \<Rightarrow> bytes \<Rightarrow> 'io reader \<Rightarrow> 'io writer \<Rightarrow> 'io \<Rightarrow> 'io option" where
  "echo_handleConnection N = serve N (\<lambda>_. echo_response)"

definition interop_handler ::
  "('h, 'c) noise_ops \<Rightarrow> KeyPair \<Rightarrow> bytes \<Rightarrow> 'io reader \<Rightarrow> 'io writer \<Rightarrow> 'io \<Rightarrow> 'io option" where
  "interop_handler N = serve N (\<lambda>_ pt. pt)"

text \<open>The starter's server answers a JSON object; \<open>clock k\<close> is the time in milliseconds at the \<open>k\<close>-th answer.\<close>

definition starter_reply :: "(nat \<Rightarrow> int) \<Rightarrow> nat \<Rightarrow> bytes \<Rightarrow> bytes" where
  "starter_reply clock k pt = string_to_bytes (json_print
     (JObj [(''echo'', JStr (bytes_to_string pt)), (''timestamp'', JNum (show_int (clock k)))]))"

definition starter_runServer ::
  "('h, 'c) noise_ops \<Rightarrow> (nat \<Rightarrow> int) \<Rightarrow> KeyPair \<Rightarrow> bytes \<Rightarrow> 'io reader \<Rightarrow> 'io writer \<Rightarrow> 'io \<Rightarrow> 'io option" where
  "starter_runServer N clock = serve N (starter_reply clock)"

text \<open>
  The starter's client on an open connection: the error it exits with, if any, the texts it logged, and the
  connection.
\<close>

definition starter_messages :: "string list" where
  "starter_messages = [''Hello FProto!'', ''Encrypted message'', ''Goodbye!'']"

fun client_messages ::
  "('h, 'c) noise_ops \<Rightarrow> 'io reader \<Rightarrow> 'io writer \<Rightarrow> 'c NoiseSession \<Rightarrow> string list \<Rightarrow> 'io
     \<Rightarrow> goerr option \<times> string list \<times> 'io" where
  "client_messages N read write session [] io = (None, [], io)"
| "client_messages N read write session (msg # msgs) io =
     (case NoiseSession_Encrypt N session (string_to_bytes msg) of
        (Inl e, session) \<Rightarrow> (Some (''encrypt: '' @ e), [], io)
      | (Inr ct, session) \<Rightarrow>
     (case write ct io of (Some e, io) \<Rightarrow> (Some (''write: '' @ e), [], io)
      | (None, io) \<Rightarrow>
     (case read io of (Inl e, io) \<Rightarrow> (Some (''read: '' @ e), [], io)
      | (Inr replyCT, io) \<Rightarrow>
     (case NoiseSession_Decrypt N session replyCT of (Inl e, session) \<Rightarrow> (Some (''decrypt: '' @ e), [], io)
      | (Inr replyPT, session) \<Rightarrow>
          (case client_messages N read write session msgs io of (err, log, io) \<Rightarrow>
             (err, bytes_to_string replyPT # log, io))))))"

definition starter_runClient ::
  "('h, 'c) noise_ops \<Rightarrow> KeyPair \<Rightarrow> bytes \<Rightarrow> 'io reader \<Rightarrow> 'io writer \<Rightarrow> 'io \<Rightarrow> goerr option \<times> string list \<times> 'io" where
  "starter_runClient N clientKey rnd read write io =
     (case ClientHandshake N clientKey rnd read write io of
        (Inl e, io) \<Rightarrow> (Some (''handshake: '' @ e), [], io)
      | (Inr session, io) \<Rightarrow> client_messages N read write session starter_messages io)"

section \<open>Sessions over pipes\<close>

lemma Encrypt_Recv:
  "NoiseSession_Encrypt N s p = (r, s') \<Longrightarrow> NoiseSession_Encrypt N (s\<lparr>Recv := x\<rparr>) p = (r, s'\<lparr>Recv := x\<rparr>)"
  by (cases s) (auto simp: NoiseSession_Encrypt_def split: prod.splits)

lemma encrypt_all_Recv:
  "encrypt_all N s ps = (r, s') \<Longrightarrow> encrypt_all N (s\<lparr>Recv := x\<rparr>) ps = (r, s'\<lparr>Recv := x\<rparr>)"
proof (induction ps arbitrary: s s' r)
  case (Cons p ps)
  obtain q s1 where q: "NoiseSession_Encrypt N s p = (q, s1)" by fastforce
  note q' = Encrypt_Recv [OF q, of x]
  obtain r1 s2 where r1: "encrypt_all N s1 ps = (r1, s2)" by fastforce
  show ?case
    using Cons.prems Cons.IH [OF r1] by (simp add: q q' r1 split: sum.splits) auto
qed simp

text \<open>One direction of a session is enough to deliver in it.\<close>

lemma half_sync:
  assumes "noise_cipher N paired" "paired (Send a) (Recv b)" "NoiseSession_Encrypt N a p = (Inr ct, a')"
  shows "\<exists>x. NoiseSession_Decrypt N b ct = (Inr p, b\<lparr>Recv := x\<rparr>) \<and> paired (Send a') x"
proof -
  obtain y where "nz_Encrypt N (Send a) p = (Inr ct, y)" "a' = a\<lparr>Send := y\<rparr>"
    using assms(3) by (auto simp: NoiseSession_Encrypt_def split: prod.splits)
  with noise_cipher.cipher_sync [OF assms(1,2)] show ?thesis
    by (fastforce simp: NoiseSession_Decrypt_def)
qed

lemma encrypt_all_Cons:
  "encrypt_all N s (p # ps) = (Inr es, s') \<longleftrightarrow>
     (\<exists>e s1 es'. NoiseSession_Encrypt N s p = (Inr e, s1) \<and> encrypt_all N s1 ps = (Inr es', s') \<and> es = e # es')"
  by (auto split: prod.splits sum.splits)

lemma half_sessions_sync:
  assumes "noise_cipher N paired" "paired (Send a) (Recv b)" "encrypt_all N a ps = (Inr cts, a')"
  shows "\<exists>b'. decrypt_all N b cts = (Inr ps, b')"
  using assms(2,3)
proof (induction ps arbitrary: a b cts)
  case (Cons p ps)
  obtain ct a1 cts' where ct: "NoiseSession_Encrypt N a p = (Inr ct, a1)"
    "encrypt_all N a1 ps = (Inr cts', a')" "cts = ct # cts'"
    using Cons.prems(2) unfolding encrypt_all_Cons by blast
  obtain x where "NoiseSession_Decrypt N b ct = (Inr p, b\<lparr>Recv := x\<rparr>)" "paired (Send a1) x"
    using half_sync [OF assms(1) Cons.prems(1) ct(1)] by blast
  with Cons.IH [of a1 "b\<lparr>Recv := x\<rparr>", OF _ ct(2)] show ?case by (auto simp: ct(3))
qed simp

lemma encrypt_all_keeps: "encrypt_all N s ps = (r, s') \<Longrightarrow> Recv s' = Recv s"
  by (induction N s ps arbitrary: r rule: encrypt_all.induct)
    (fastforce simp: NoiseSession_Encrypt_def split: prod.splits sum.splits)+

lemma handshake_pipe:
  assumes "noise_xx N paired"
    and "nz_NewHandshakeState N True kI rI = Inr i0" "nz_NewHandshakeState N False kR rR = Inr r0"
  shows "\<exists>m1 m2 m3 c s.
    (\<forall>rest. ClientHandshake N kI rI pipe_read pipe_write \<lparr>incoming = m2 # rest, outgoing = []\<rparr>
      = (Inr c, \<lparr>incoming = rest, outgoing = [m1, m3]\<rparr>)) \<and>
    (\<forall>rest. ServerHandshake N kR rR pipe_read pipe_write \<lparr>incoming = m1 # m3 # rest, outgoing = []\<rparr>
      = (Inr s, \<lparr>incoming = rest, outgoing = [m2]\<rparr>)) \<and> mirrored paired c s"
proof -
  obtain m1 i1 p1 r1 m2 r2 p2 i2 m3 i3 p3 r3 c1 c2 d1 d2 where facts:
    "nz_WriteMessage N i0 [] = (Inr (m1, None, None), i1)"
    "nz_ReadMessage N r0 m1 = (Inr (p1, None, None), r1)"
    "nz_WriteMessage N r1 [] = (Inr (m2, None, None), r2)"
    "nz_ReadMessage N i1 m2 = (Inr (p2, None, None), i2)"
    "nz_WriteMessage N i2 [] = (Inr (m3, Some c1, Some c2), i3)"
    "nz_ReadMessage N r2 m3 = (Inr (p3, Some d1, Some d2), r3)"
    "paired c1 d1" "paired d2 c2"
    using noise_xx.xx [OF assms] by blast
  show ?thesis
    by (rule exI [of _ m1], rule exI [of _ m2], rule exI [of _ m3], rule exI [of _ "\<lparr>Send = c1, Recv = c2\<rparr>"],
        rule exI [of _ "\<lparr>Send = d2, Recv = d1\<rparr>"])
      (simp add: ClientHandshake_def ServerHandshake_def pipe_read_def pipe_write_def assms facts mirrored_def)
qed

lemma pipe_steps [simp]:
  "pipe_read \<lparr>incoming = m # ms, outgoing = out\<rparr> = (Inr m, \<lparr>incoming = ms, outgoing = out\<rparr>)"
  "pipe_read \<lparr>incoming = [], outgoing = out\<rparr> = (Inl ''EOF'', \<lparr>incoming = [], outgoing = out\<rparr>)"
  "pipe_write m \<lparr>incoming = ms, outgoing = out\<rparr> = (None, \<lparr>incoming = ms, outgoing = out @ [m]\<rparr>)"
  by (simp_all add: pipe_read_def pipe_write_def)

text \<open>What the gateway answers to a list of messages, and the state the dispatcher ends in.\<close>

definition gw_reply :: "('h, 'c, 'io, 'd, 'e) gateway_env \<Rightarrow> 'd \<Rightarrow> bytes \<Rightarrow> bytes \<times> 'd" where
  "gw_reply E d pt =
     (case (ge_dispatcher E, dispatch_request E pt) of
        (Some dispatch, Some req) \<Rightarrow>
          (case dispatch d req of (d', Inl _) \<Rightarrow> (echo_response pt, d') | (d', Inr resp) \<Rightarrow> (ack_bytes E resp, d'))
      | _ \<Rightarrow> (echo_response pt, d))"

fun gw_replies :: "('h, 'c, 'io, 'd, 'e) gateway_env \<Rightarrow> 'd \<Rightarrow> bytes list \<Rightarrow> bytes list \<times> 'd" where
  "gw_replies E d [] = ([], d)"
| "gw_replies E d (p # ps) =
     (let (r, d1) = gw_reply E d p; (rs, d2) = gw_replies E d1 ps in (r # rs, d2))"

lemma gw_iter_message:
  assumes E: "ge_read E = pipe_read" "ge_write E = pipe_write"
    and dec: "NoiseSession_Decrypt (ge_noise E) s ct = (Inr pt, s1)"
    and rep: "gw_reply E (gw_disp g) pt = (r, d)"
    and enc: "NoiseSession_Encrypt (ge_noise E) s1 r = (Inr e, s2)"
    and io: "gw_io g = \<lparr>incoming = ct # rest, outgoing = out\<rparr>"
  shows "gw_iter E s g = Continue (g\<lparr>gw_io := \<lparr>incoming = rest, outgoing = out @ [e]\<rparr>, gw_disp := d,
      gw_MessagesReceived := gw_MessagesReceived g + 1, gw_MessagesSent := gw_MessagesSent g + 1\<rparr>, s2)"
  using rep enc
  by (auto simp: gw_iter_def gw_reply_def gw_echo_def gw_ack_def E dec io Let_def split: option.splits prod.splits sum.splits)

lemma gw_loop_pipe:
  assumes N: "noise_cipher (ge_noise E) paired"
    and E: "ge_read E = pipe_read" "ge_write E = pipe_write"
    and m: "paired (Send c) (Recv s)"
    and cts: "encrypt_all (ge_noise E) c ps = (Inr cts, c')"
    and rs: "gw_replies E (gw_disp g) ps = (rs, d)" "encrypt_all (ge_noise E) s rs = (Inr es, s')"
    and io: "gw_io g = \<lparr>incoming = cts, outgoing = out\<rparr>"
  shows "gw_loop E s g = Some (g\<lparr>gw_io := \<lparr>incoming = [], outgoing = out @ es\<rparr>, gw_disp := d,
      gw_MessagesReceived := gw_MessagesReceived g + int (length ps),
      gw_MessagesSent := gw_MessagesSent g + int (length ps)\<rparr>)"
  using m cts rs io
proof (induction ps arbitrary: c s s' cts rs es out g)
  case Nil
  then show ?case
    by (subst gw_loop.simps) (simp add: gw_iter_def E)
next
  case (Cons p ps)
  obtain ct c1 cts' where ct: "NoiseSession_Encrypt (ge_noise E) c p = (Inr ct, c1)"
    "encrypt_all (ge_noise E) c1 ps = (Inr cts', c')" "cts = ct # cts'"
    using Cons.prems(2) unfolding encrypt_all_Cons by blast
  obtain x where x: "NoiseSession_Decrypt (ge_noise E) s ct = (Inr p, s\<lparr>Recv := x\<rparr>)" "paired (Send c1) x"
    using half_sync [OF N Cons.prems(1) ct(1)] by blast
  obtain r d1 where r: "gw_reply E (gw_disp g) p = (r, d1)" by fastforce
  obtain rs' where rs': "gw_replies E d1 ps = (rs', d)" "rs = r # rs'"
    using Cons.prems(3) by (auto simp: r split: prod.splits)
  obtain e s2 es' where e: "NoiseSession_Encrypt (ge_noise E) s r = (Inr e, s2)"
    "encrypt_all (ge_noise E) s2 rs' = (Inr es', s')" "es = e # es'"
    using Cons.prems(4) unfolding rs'(2) encrypt_all_Cons by blast
  let ?g = "g\<lparr>gw_io := \<lparr>incoming = cts', outgoing = out @ [e]\<rparr>, gw_disp := d1,
      gw_MessagesReceived := gw_MessagesReceived g + 1, gw_MessagesSent := gw_MessagesSent g + 1\<rparr>"
  have step: "gw_iter E s g = Continue (?g, s2\<lparr>Recv := x\<rparr>)"
    using gw_iter_message [OF E x(1) r Encrypt_Recv [OF e(1)]] Cons.prems(5) ct(3) by simp
  have "gw_loop E (s2\<lparr>Recv := x\<rparr>) ?g = Some (?g\<lparr>gw_io := \<lparr>incoming = [], outgoing = (out @ [e]) @ es'\<rparr>, gw_disp := d,
      gw_MessagesReceived := gw_MessagesReceived ?g + int (length ps),
      gw_MessagesSent := gw_MessagesSent ?g + int (length ps)\<rparr>)"
    by (rule Cons.IH [OF _ ct(2) _ encrypt_all_Recv [OF e(2)]]) (simp_all add: x(2) rs'(1))
  then show ?case
    by (subst gw_loop.simps) (simp add: step e(3) algebra_simps)
qed

text \<open>The same for the echo servers, and the starter's client against them.\<close>

definition replies :: "(nat \<Rightarrow> bytes \<Rightarrow> bytes) \<Rightarrow> nat \<Rightarrow> bytes list \<Rightarrow> bytes list" where
  "replies reply k ps = map2 reply [k..<k + length ps] ps"

lemma replies_Cons: "replies reply k (p # ps) = reply k p # replies reply (Suc k) ps"
  by (simp add: replies_def upt_rec [of k] del: upt_Suc)

lemma serve_loop_pipe:
  assumes N: "noise_cipher N paired"
    and m: "paired (Send c) (Recv s)"
    and cts: "encrypt_all N c ps = (Inr cts, c')"
    and rs: "encrypt_all N s (replies reply k ps) = (Inr es, s')"
  shows "serve_loop N pipe_read pipe_write reply k s \<lparr>incoming = cts, outgoing = out\<rparr>
    = Some \<lparr>incoming = [], outgoing = out @ es\<rparr>"
  using m cts rs
proof (induction ps arbitrary: c s s' cts es out k)
  case Nil
  then show ?case by (subst serve_loop.simps) (simp add: replies_def)
next
  case (Cons p ps)
  obtain ct c1 cts' where ct: "NoiseSession_Encrypt N c p = (Inr ct, c1)"
    "encrypt_all N c1 ps = (Inr cts', c')" "cts = ct # cts'"
    using Cons.prems(2) unfolding encrypt_all_Cons by blast
  obtain x where x: "NoiseSession_Decrypt N s ct = (Inr p, s\<lparr>Recv := x\<rparr>)" "paired (Send c1) x"
    using half_sync [OF N Cons.prems(1) ct(1)] by blast
  obtain e s2 es' where e: "NoiseSession_Encrypt N s (reply k p) = (Inr e, s2)"
    "encrypt_all N s2 (replies reply (Suc k) ps) = (Inr es', s')" "es = e # es'"
    using Cons.prems(3) unfolding replies_Cons encrypt_all_Cons by blast
  have "serve_loop N pipe_read pipe_write reply (Suc k) (s2\<lparr>Recv := x\<rparr>) \<lparr>incoming = cts', outgoing = out @ [e]\<rparr>
    = Some \<lparr>incoming = [], outgoing = (out @ [e]) @ es'\<rparr>"
    by (rule Cons.IH [OF _ ct(2) encrypt_all_Recv [OF e(2)]]) (simp add: x(2))
  then show ?case
    by (subst serve_loop.simps) (simp add: ct(3) x(1) Encrypt_Recv [OF e(1)] e(3))
qed

lemma client_messages_pipe:
  assumes N: "noise_cipher N paired"
    and m: "paired (Send s) (Recv c)"
    and cts: "encrypt_all N c (map string_to_bytes msgs) = (Inr cts, c')"
    and rs: "encrypt_all N s rs = (Inr es, s')" "length rs = length msgs"
  shows "client_messages N pipe_read pipe_write c msgs \<lparr>incoming = es, outgoing = out\<rparr>
    = (None, map bytes_to_string rs, \<lparr>incoming = [], outgoing = out @ cts\<rparr>)"
  using m cts rs
proof (induction msgs arbitrary: c c' s cts rs es out)
  case Nil
  then show ?case by simp
next
  case (Cons msg msgs)
  obtain ct c1 cts' where ct: "NoiseSession_Encrypt N c (string_to_bytes msg) = (Inr ct, c1)"
    "encrypt_all N c1 (map string_to_bytes msgs) = (Inr cts', c')" "cts = ct # cts'"
    using Cons.prems(2) unfolding list.map encrypt_all_Cons by blast
  obtain r rs' where rs': "rs = r # rs'" using Cons.prems(4) by (cases rs) auto
  obtain e s1 es' where e: "NoiseSession_Encrypt N s r = (Inr e, s1)" "encrypt_all N s1 rs' = (Inr es', s')" "es = e # es'"
    using Cons.prems(3) unfolding rs' encrypt_all_Cons by blast
  have recv: "Recv c1 = Recv c" using ct(1) by (auto simp: NoiseSession_Encrypt_def split: prod.splits)
  obtain x where x: "NoiseSession_Decrypt N c1 e = (Inr r, c1\<lparr>Recv := x\<rparr>)" "paired (Send s1) x"
    using half_sync [OF N _ e(1), of c1] Cons.prems(1) recv by auto
  have "client_messages N pipe_read pipe_write (c1\<lparr>Recv := x\<rparr>) msgs \<lparr>incoming = es', outgoing = out @ [ct]\<rparr>
    = (None, map bytes_to_string rs', \<lparr>incoming = [], outgoing = (out @ [ct]) @ cts'\<rparr>)"
    using Cons.prems(4) by (intro Cons.IH [OF _ encrypt_all_Recv [OF ct(2)] e(2)]) (simp_all add: x(2) rs')
  then show ?case by (simp add: ct(1,3) e(3) x(1) rs')
qed

section \<open>Properties\<close>


definition sample_env :: "(hs_state, cipher_state, pipe, ob_db, goerr grpc_status) gateway_env" where
  "sample_env = \<lparr>ge_noise = noise_chacha, ge_read = pipe_read, ge_write = pipe_write, ge_RemoteAddr = ''10.0.0.1:5000'',
     ge_UnmarshalFrame = (\<lambda>b. Inr \<lparr>fr_SessionId = Some [1], fr_Seq = 0, fr_Ack = 0, fr_EncryptedPayload = Some b\<rparr>),
     ge_Unmarshal = wire_Unmarshal, ge_Marshal = wire_Marshal,
     ge_dispatcher = Some (Dispatcher_GRPC_Dispatch wire_Marshal)\<rparr>"

definition sample_gateway :: "bytes list \<Rightarrow> bytes list \<Rightarrow> duration list \<Rightarrow> (pipe, ob_db) gateway" where
  "sample_gateway inc out ds = \<lparr>gw_io = \<lparr>incoming = inc, outgoing = out\<rparr>,
     gw_disp = \<lparr>pg_faults = [], pg_now = 0, pg_tab = None\<rparr>, gw_ActiveConnections = 0, gw_MessagesReceived = 0,
     gw_MessagesSent = 0, gw_HandshakeDuration = ds\<rparr>"


text \<open>
  The starter's client against each of the three echo servers, over any Noise library with the XX contract: the
  handshake completes, the client sends its three messages, gets an answer to each, logs exactly what that server
  answers and exits without an error, and the server's handler returns after the connection ends.
\<close>

lemma starter_session:
  assumes "noise_xx N paired" "nz_NewHandshakeState N True kI rI = Inr i0" "nz_NewHandshakeState N False kR rR = Inr r0"
    and "(server, reply) \<in> {(echo_handleConnection N, \<lambda>_. echo_response), (interop_handler N, \<lambda>_ pt. pt),
      (starter_runServer N clock, starter_reply clock)}"
  shows "\<exists>m1 m2 m3 c s. \<forall>rs cts c' es s'. rs = map2 reply [0..<3] (map string_to_bytes starter_messages) \<and>
    encrypt_all N c (map string_to_bytes starter_messages) = (Inr cts, c') \<and> encrypt_all N s rs = (Inr es, s') \<longrightarrow>
    server kR rR pipe_read pipe_write \<lparr>incoming = m1 # m3 # cts, outgoing = []\<rparr>
      = Some \<lparr>incoming = [], outgoing = m2 # es\<rparr> \<and>
    starter_runClient N kI rI pipe_read pipe_write \<lparr>incoming = m2 # es, outgoing = []\<rparr>
      = (None, map bytes_to_string rs, \<lparr>incoming = [], outgoing = m1 # m3 # cts\<rparr>)"
proof -
  have N: "noise_cipher N paired" using assms(1) by (rule noise_xx.axioms)
  have server: "server = serve N reply"
    using assms(4) by (auto simp: echo_handleConnection_def interop_handler_def starter_runServer_def)
  obtain m1 m2 m3 c s where hs:
    "\<forall>rest. ClientHandshake N kI rI pipe_read pipe_write \<lparr>incoming = m2 # rest, outgoing = []\<rparr>
      = (Inr c, \<lparr>incoming = rest, outgoing = [m1, m3]\<rparr>)"
    "\<forall>rest. ServerHandshake N kR rR pipe_read pipe_write \<lparr>incoming = m1 # m3 # rest, outgoing = []\<rparr>
      = (Inr s, \<lparr>incoming = rest, outgoing = [m2]\<rparr>)" "mirrored paired c s"
    using handshake_pipe [OF assms(1-3)] by blast
  let ?ps = "map string_to_bytes starter_messages"
  let ?rs = "map2 reply [0..<3] ?ps"
  have rs: "?rs = replies reply 0 ?ps" by (simp add: replies_def starter_messages_def upt_conv_Cons numeral_3_eq_3)
  have run: "server kR rR pipe_read pipe_write \<lparr>incoming = m1 # m3 # cts, outgoing = []\<rparr>
      = Some \<lparr>incoming = [], outgoing = m2 # es\<rparr> \<and>
    starter_runClient N kI rI pipe_read pipe_write \<lparr>incoming = m2 # es, outgoing = []\<rparr>
      = (None, map bytes_to_string ?rs, \<lparr>incoming = [], outgoing = m1 # m3 # cts\<rparr>)"
    if cts: "encrypt_all N c ?ps = (Inr cts, c')" and es: "encrypt_all N s ?rs = (Inr es, s')" for cts c' es s'
    using serve_loop_pipe [OF N _ cts, of s reply 0] client_messages_pipe [OF N _ cts es] es hs
    by (simp add: server serve_def starter_runClient_def mirrored_def rs [symmetric]) (simp add: starter_messages_def)
  show ?thesis
    by (rule exI [of _ m1], rule exI [of _ m2], rule exI [of _ m3], rule exI [of _ c], rule exI [of _ s]) (use run in blast)
qed

lemma starter_session_instance:
  "\<exists>m1 m2 m3 c s. \<forall>rs cts c' es s'. rs = map2 (\<lambda>_. echo_response) [0..<3] (map string_to_bytes starter_messages) \<and>
    encrypt_all noise_chacha c (map string_to_bytes starter_messages) = (Inr cts, c') \<and>
    encrypt_all noise_chacha s rs = (Inr es, s') \<longrightarrow>
    echo_handleConnection noise_chacha \<lparr>Private = [4], Public = [5]\<rparr> [6] pipe_read pipe_write
      \<lparr>incoming = m1 # m3 # cts, outgoing = []\<rparr> = Some \<lparr>incoming = [], outgoing = m2 # es\<rparr> \<and>
    starter_runClient noise_chacha \<lparr>Private = [1], Public = [2]\<rparr> [3] pipe_read pipe_write
      \<lparr>incoming = m2 # es, outgoing = []\<rparr>
      = (None, map bytes_to_string rs, \<lparr>incoming = [], outgoing = m1 # m3 # cts\<rparr>)"
proof -
  obtain i0 r0 where new: "nz_NewHandshakeState noise_chacha True \<lparr>Private = [1], Public = [2]\<rparr> [3] = Inr i0"
    "nz_NewHandshakeState noise_chacha False \<lparr>Private = [4], Public = [5]\<rparr> [6] = Inr r0"
    by (simp add: noise_chacha_def xx_new_def)
  have "(echo_handleConnection noise_chacha, \<lambda>_. echo_response) \<in>
      {(echo_handleConnection noise_chacha, \<lambda>_. echo_response), (interop_handler noise_chacha, \<lambda>_ pt. pt),
       (starter_runServer noise_chacha (\<lambda>_. 0), starter_reply (\<lambda>_. 0))}" by simp
  from starter_session [OF nxx.noise_xx_axioms new this] show ?thesis .
qed

end
