(* ===== verification/Sha256.thy ===== *)
theory Sha256
  imports ChaCha20_Poly1305
begin

text \<open>
  \<open>crypto/sha256\<close> and \<open>crypto/hmac\<close> of the Go standard library, which the sender key ratchet calls: SHA-256 as
  FIPS 180-4 defines it, over 32-bit words, and HMAC over it.
\<close>

section \<open>SHA-256\<close>

text \<open>
  The constants are those of the standard by its own rule: the first 32 bits of the fractional parts of the cube
  roots of the first 64 primes, and of the square roots of the first eight.  \<open>root_bits k n b a\<close> finds the integer
  \<open>k\<close>-th root of \<open>n\<close> bit by bit; the integer part of a root falls off when it is taken to 32 bits.
\<close>

definition sha_primes :: "int list" where
  "sha_primes = [2, 3, 5, 7, 11, 13, 17, 19, 23, 29, 31, 37, 41, 43, 47, 53, 59, 61, 67, 71, 73, 79,
     83, 89, 97, 101, 103, 107, 109, 113, 127, 131, 137, 139, 149, 151, 157, 163, 167, 173, 179, 181, 191, 193,
     197, 199, 211, 223, 227, 229, 233, 239, 241, 251, 257, 263, 269, 271, 277, 281, 283, 293, 307, 311]"

definition frac_root :: "nat \<Rightarrow> int \<Rightarrow> uint32" where
  "frac_root k p = of_int (root_bits k (p * 2 ^ (32 * k)) 37 0)"

definition sha_k :: "uint32 list" where
  "sha_k = map (frac_root 3) sha_primes"

definition sha_init :: "uint32 list" where
  "sha_init = map (frac_root 2) (take 8 sha_primes)"

lemma length_sha_primes: "length sha_primes = 64"
  by (simp add: sha_primes_def)

lemma frac_root_two: "frac_root 3 2 = 1116352408 \<and> frac_root 2 2 = 1779033703"
  by (simp add: frac_root_def root_bits_numeral)

text \<open>A one bit, zeroes up to 56 bytes modulo 64, and the length in bits.\<close>

definition sha_pad :: "bytes \<Rightarrow> bytes" where
  "sha_pad bs = bs @ [0x80] @ replicate ((119 - length bs mod 64) mod 64) 0 @ rev (nat_le_bytes 8 (8 * length bs))"

fun be_words :: "bytes \<Rightarrow> uint32 list" where
  "be_words (a # b # c # d # bs) = of_be32 [a, b, c, d] # be_words bs"
| "be_words _ = []"

fun sha_schedule :: "nat \<Rightarrow> uint32 list \<Rightarrow> uint32 list" where
  "sha_schedule 0 w = w"
| "sha_schedule (Suc n) w =
     (let i = length w; a = w ! (i - 15); b = w ! (i - 2);
          s0 = word_rotr 7 a XOR word_rotr 18 a XOR drop_bit 3 a;
          s1 = word_rotr 17 b XOR word_rotr 19 b XOR drop_bit 10 b
      in sha_schedule n (w @ [w ! (i - 16) + s0 + w ! (i - 7) + s1]))"

type_synonym sha_state = "uint32 \<times> uint32 \<times> uint32 \<times> uint32 \<times> uint32 \<times> uint32 \<times> uint32 \<times> uint32"

fun sha_round :: "uint32 \<times> uint32 \<Rightarrow> sha_state \<Rightarrow> sha_state" where
  "sha_round (k, w) (a, b, c, d, e, f, g, h) =
     (let s1 = word_rotr 6 e XOR word_rotr 11 e XOR word_rotr 25 e;
          ch = (e AND f) XOR (NOT e AND g);
          t1 = h + s1 + ch + k + w;
          s0 = word_rotr 2 a XOR word_rotr 13 a XOR word_rotr 22 a;
          maj = (a AND b) XOR (a AND c) XOR (b AND c)
      in (t1 + (s0 + maj), a, b, c, d + t1, e, f, g))"

fun sha_list :: "sha_state \<Rightarrow> uint32 list" where
  "sha_list (a, b, c, d, e, f, g, h) = [a, b, c, d, e, f, g, h]"

fun sha_tuple :: "uint32 list \<Rightarrow> sha_state" where
  "sha_tuple hs = (hs ! 0, hs ! 1, hs ! 2, hs ! 3, hs ! 4, hs ! 5, hs ! 6, hs ! 7)"

definition sha_block :: "uint32 list \<Rightarrow> bytes \<Rightarrow> uint32 list" where
  "sha_block hs blk =
     map2 (+) hs (sha_list (fold sha_round (zip sha_k (sha_schedule 48 (be_words blk))) (sha_tuple hs)))"

fun sha_blocks :: "nat \<Rightarrow> uint32 list \<Rightarrow> bytes \<Rightarrow> uint32 list" where
  "sha_blocks 0 hs bs = hs"
| "sha_blocks (Suc n) hs bs = sha_blocks n (sha_block hs (take 64 bs)) (drop 64 bs)"

definition sha256 :: "bytes \<Rightarrow> bytes" where
  "sha256 bs = (let p = sha_pad bs in concat (map be32 (sha_blocks (length p div 64) sha_init p)))"

lemma length_sha_list [simp]: "length (sha_list st) = 8"
  by (cases st rule: sha_list.cases) simp

lemma length_sha_block [simp]: "length hs = 8 \<Longrightarrow> length (sha_block hs blk) = 8"
  by (simp add: sha_block_def)

lemma length_sha_blocks [simp]: "length hs = 8 \<Longrightarrow> length (sha_blocks n hs bs) = 8"
  by (induction n arbitrary: hs bs) simp_all

lemma length_sha256 [simp]: "length (sha256 bs) = 32"
proof -
  have "length (concat (map be32 ws)) = 4 * length ws" for ws by (induction ws) simp_all
  then show ?thesis by (simp add: sha256_def Let_def sha_init_def length_sha_primes)
qed

section \<open>HMAC\<close>

definition hmac_key :: "bytes \<Rightarrow> bytes" where
  "hmac_key k = (let k' = if length k > 64 then sha256 k else k in k' @ replicate (64 - length k') 0)"

definition hmac_sha256 :: "bytes \<Rightarrow> bytes \<Rightarrow> bytes" where
  "hmac_sha256 k d =
     (let k' = hmac_key k
      in sha256 (map (\<lambda>b. b XOR 0x5c) k' @ sha256 (map (\<lambda>b. b XOR 0x36) k' @ d)))"

lemma length_hmac_sha256 [simp]: "length (hmac_sha256 k d) = 32"
  by (simp add: hmac_sha256_def Let_def)

end
