(* ===== verification/Sender_Keys.thy ===== *)
theory Sender_Keys
  imports Sha256 Noise_XX Redis_Service Go_Json Proto_Messages
begin

text \<open>
  \<open>server/internal/senderkeys\<close>: group encryption with a hash ratchet, signed ciphertexts and a Redis cache of the
  distributed keys. ChaCha20-Poly1305 and Ed25519 are arguments; what the code relies on is \<open>aead_cipher\<close> and
  \<open>signature_scheme\<close>. Both \<open>Verify\<close> and \<open>Open\<close> panic on arguments of a wrong length, so a call returns or panics.
\<close>

section \<open>The signature scheme\<close>

text \<open>\<open>crypto/ed25519\<close>: keys from a seed of 32 random bytes, signing, verification.\<close>

record ed25519_ops =
  ed_Public :: "bytes \<Rightarrow> bytes"
  ed_Private :: "bytes \<Rightarrow> bytes"
  ed_Sign :: "bytes \<Rightarrow> bytes \<Rightarrow> bytes"
  ed_Verify :: "bytes \<Rightarrow> bytes \<Rightarrow> bytes \<Rightarrow> bool"

locale signature_scheme =
  fixes E :: ed25519_ops
  assumes verify_sign: "length seed = 32 \<Longrightarrow> ed_Verify E (ed_Public E seed) m (ed_Sign E (ed_Private E seed) m)"
    and public_length: "length seed = 32 \<Longrightarrow> length (ed_Public E seed) = 32"
    and private_length: "length seed = 32 \<Longrightarrow> length (ed_Private E seed) = 64"

section \<open>keypair.go\<close>

record SenderKey =
  sn_KeyID :: uint32
  sn_ChainKey :: slice
  sn_SigningKey :: slice
  sn_PublicKey :: slice

text \<open>\<open>chain\<close> and \<open>seed\<close> are what the two reads of the random source give.\<close>

definition GenerateSenderKey :: "ed25519_ops \<Rightarrow> goerr + bytes \<Rightarrow> goerr + bytes \<Rightarrow> uint32 \<Rightarrow> goerr + SenderKey" where
  "GenerateSenderKey E chain seed keyID =
     (case chain of Inl e \<Rightarrow> Inl (''generate chain_key: '' @ e)
      | Inr ck \<Rightarrow>
          (case seed of Inl e \<Rightarrow> Inl (''generate ed25519: '' @ e)
           | Inr s \<Rightarrow> Inr \<lparr>sn_KeyID = keyID, sn_ChainKey = Some ck, sn_SigningKey = Some (ed_Private E s),
               sn_PublicKey = Some (ed_Public E s)\<rparr>))"

definition PublicMaterial :: "SenderKey \<Rightarrow> slice \<times> slice" where
  "PublicMaterial sk = (sn_ChainKey sk, sn_PublicKey sk)"

section \<open>ratchet.go\<close>

definition hmacSHA256 :: "slice \<Rightarrow> bytes \<Rightarrow> bytes" where
  "hmacSHA256 key d = hmac_sha256 (slice_bytes key) d"

definition Ratchet :: "slice \<Rightarrow> bytes \<times> bytes" where
  "Ratchet chainKey =
     (hmacSHA256 chainKey (string_to_bytes ''ratchet''), hmacSHA256 chainKey (string_to_bytes ''message''))"

text \<open>\<open>RatchetN\<close>; \<open>make\<close> panics on a negative length.\<close>

fun ratchet_steps :: "nat \<Rightarrow> slice \<Rightarrow> slice \<times> bytes list" where
  "ratchet_steps 0 current = (current, [])"
| "ratchet_steps (Suc n) current =
     (let (next', mk) = Ratchet current; (final, mks) = ratchet_steps n (Some next') in (final, mk # mks))"

definition RatchetN :: "slice \<Rightarrow> int \<Rightarrow> (slice \<times> bytes list) call" where
  "RatchetN chainKey n = (if n < 0 then Panic ''makeslice: len out of range'' else Returns (ratchet_steps (nat n) chainKey))"

section \<open>encrypt.go\<close>

record EncryptedMessage =
  em_KeyID :: uint32
  em_Ciphertext :: slice
  em_Nonce :: slice
  em_Signature :: slice

text \<open>\<open>nonce\<close> is what the random source gives.\<close>

definition SK_Encrypt ::
  "aead_ops \<Rightarrow> ed25519_ops \<Rightarrow> goerr + bytes \<Rightarrow> slice \<Rightarrow> slice \<Rightarrow> uint32 \<Rightarrow> bytes \<Rightarrow> (goerr + EncryptedMessage \<times> bytes) call" where
  "SK_Encrypt C E nonce chainKey signingKey keyID plaintext =
     (let (nextChain, messageKey) = Ratchet chainKey in
      if length messageKey \<noteq> KeySize then Returns (Inl ''chacha20poly1305: chacha20poly1305: bad key length'')
      else
        (case nonce of Inl e \<Rightarrow> Returns (Inl (''nonce: '' @ e))
         | Inr n \<Rightarrow>
             (let ciphertext = aead_Seal C messageKey n plaintext [] in
              if slice_len signingKey \<noteq> 64 then Panic ''ed25519: bad private key length''
              else Returns (Inr (\<lparr>em_KeyID = keyID, em_Ciphertext = Some ciphertext, em_Nonce = Some n,
                em_Signature = Some (ed_Sign E (slice_bytes signingKey) ciphertext)\<rparr>, nextChain)))))"

section \<open>decrypt.go\<close>

definition SK_Decrypt ::
  "aead_ops \<Rightarrow> ed25519_ops \<Rightarrow> slice \<Rightarrow> slice \<Rightarrow> EncryptedMessage \<Rightarrow> (goerr + bytes \<times> bytes) call" where
  "SK_Decrypt C E chainKey publicKey msg =
     (if slice_len publicKey \<noteq> 32 then Panic ''ed25519: bad public key length''
      else if \<not> ed_Verify E (slice_bytes publicKey) (slice_bytes (em_Ciphertext msg)) (slice_bytes (em_Signature msg))
      then Returns (Inl ''invalid signature'')
      else
        (let (nextChain, messageKey) = Ratchet chainKey in
         if length messageKey \<noteq> KeySize then Returns (Inl ''chacha20poly1305: chacha20poly1305: bad key length'')
         else if slice_len (em_Nonce msg) \<noteq> NonceSize then Panic ''chacha20poly1305: bad nonce length passed to Open''
         else
           (case aead_Open C messageKey (slice_bytes (em_Nonce msg)) (slice_bytes (em_Ciphertext msg)) [] of
              Inl e \<Rightarrow> Returns (Inl (''decrypt: '' @ e))
            | Inr plaintext \<Rightarrow> Returns (Inr (plaintext, nextChain)))))"

section \<open>distribution.go\<close>

definition ToDistribution :: "slice \<Rightarrow> slice \<Rightarrow> SenderKey \<Rightarrow> SenderKeyDistribution" where
  "ToDistribution groupID senderID sk = \<lparr>sk_GroupId = groupID, sk_SenderId = senderID, sk_KeyId = sn_KeyID sk,
     sk_ChainKey = sn_ChainKey sk, sk_SigningKey = sn_PublicKey sk\<rparr>"

definition FromDistribution :: "SenderKeyDistribution \<Rightarrow> uint32 \<times> slice \<times> slice" where
  "FromDistribution dist = (sk_KeyId dist, sk_ChainKey dist, sk_SigningKey dist)"

section \<open>rotation.go\<close>

datatype RotationEvent = RotationMemberRemoved | RotationMemberAdded | RotationTimerExpired

definition NeedsFullRotation :: "RotationEvent \<Rightarrow> bool" where
  "NeedsFullRotation event \<longleftrightarrow> event = RotationMemberRemoved"

definition NeedsDistribution :: "RotationEvent \<Rightarrow> bool" where
  "NeedsDistribution event \<longleftrightarrow> event = RotationMemberAdded"

section \<open>store.go\<close>

definition cacheTTL :: duration where "cacheTTL = 1 * Hour"

record CachedKey =
  ck_KeyID :: uint32
  ck_ChainKey :: slice
  ck_SigningKey :: slice

definition cacheKey :: "slice \<Rightarrow> string" where
  "cacheKey groupID = ''group:'' @ hex_encode (slice_bytes groupID) @ '':sender_keys''"

definition ck_json :: "CachedKey \<Rightarrow> json" where
  "ck_json ck = JObj [(''key_id'', JNum (show_nat (unat (ck_KeyID ck)))), (''chain_key'', json_bytes (ck_ChainKey ck)),
     (''signing_key'', json_bytes (ck_SigningKey ck))]"

definition ck_fields :: "(string \<times> CachedKey field) list" where
  "ck_fields = [(''key_id'', uint_field 32 (\<lambda>k c. c\<lparr>ck_KeyID := of_nat k\<rparr>)),
     (''chain_key'', bytes_field (\<lambda>b c. c\<lparr>ck_ChainKey := b\<rparr>)), (''signing_key'', bytes_field (\<lambda>b c. c\<lparr>ck_SigningKey := b\<rparr>))]"

definition Cache_Set :: "'r redis_ops \<Rightarrow> 'r \<Rightarrow> slice \<Rightarrow> slice \<Rightarrow> CachedKey \<Rightarrow> 'r \<times> goerr option" where
  "Cache_Set R rdb groupID userID ck =
     (let key = cacheKey groupID; fld = hex_encode (slice_bytes userID)
      in rd_Exec R rdb [HSet key [(fld, json_print (ck_json ck))], Expire key cacheTTL])"

definition Cache_Get :: "'r redis_ops \<Rightarrow> 'r \<Rightarrow> slice \<Rightarrow> slice \<Rightarrow> goerr + CachedKey option" where
  "Cache_Get R rdb groupID userID =
     (case rd_HGet R rdb (cacheKey groupID) (hex_encode (slice_bytes userID)) of
        Inr None \<Rightarrow> Inr None
      | Inl e \<Rightarrow> Inl e
      | Inr (Some d) \<Rightarrow>
          (let (ck, bad) = json_unmarshal ck_fields d \<lparr>ck_KeyID = 0, ck_ChainKey = None, ck_SigningKey = None\<rparr>
           in if bad then Inl ''json: cannot unmarshal'' else Inr (Some ck)))"

definition Cache_Delete :: "'r redis_ops \<Rightarrow> 'r \<Rightarrow> slice \<Rightarrow> slice \<Rightarrow> 'r \<times> goerr option" where
  "Cache_Delete R rdb groupID userID = rd_Exec R rdb [HDel (cacheKey groupID) (hex_encode (slice_bytes userID))]"

definition Cache_DeleteAll :: "'r redis_ops \<Rightarrow> 'r \<Rightarrow> slice \<Rightarrow> 'r \<times> goerr option" where
  "Cache_DeleteAll R rdb groupID = rd_Exec R rdb [Del (cacheKey groupID)]"

section \<open>Schnorr signatures modulo a prime\<close>

text \<open>
  The scheme Ed25519 instantiates on a curve, here in the integers modulo \<open>2^255 - 19\<close>: it meets the contract.
\<close>

definition schnorr_sign :: "bytes \<Rightarrow> bytes \<Rightarrow> bytes" where
  "schnorr_sign priv m =
     (let a = of_le (take 32 priv); A = drop 32 priv; r = of_le (sha256 (take 32 priv @ m)); R = pub_bytes r;
          h = of_le (sha256 (R @ A @ m))
      in R @ nat_le_bytes 96 (r + h * a))"

definition schnorr_verify :: "bytes \<Rightarrow> bytes \<Rightarrow> bytes \<Rightarrow> bool" where
  "schnorr_verify A m s =
     (let R = take 32 s; h = of_le (sha256 (R @ A @ m))
      in length s = 128 \<and> 9 ^ of_le (drop 32 s) mod dh_prime = of_le R * of_le A ^ h mod dh_prime)"

definition schnorr :: ed25519_ops where
  "schnorr = \<lparr>ed_Public = (\<lambda>seed. pub_bytes (of_le seed)), ed_Private = (\<lambda>seed. seed @ pub_bytes (of_le seed)),
     ed_Sign = schnorr_sign, ed_Verify = schnorr_verify\<rparr>"

lemma of_le_less: "of_le bs < 256 ^ length bs"
proof (induction bs)
  case (Cons b bs)
  have "unat b \<le> 255" using unat_byte_less [of b] by linarith
  moreover have "of_le bs + 1 \<le> 256 ^ length bs" using Cons by simp
  then have "256 * (of_le bs + 1) \<le> 256 * 256 ^ length bs" by simp
  ultimately show ?case by (simp add: of_le_def)
qed (simp add: of_le_def)

lemma schnorr_verify_sign:
  assumes "length seed = 32"
  shows "schnorr_verify (pub_bytes (of_le seed)) m (schnorr_sign (seed @ pub_bytes (of_le seed)) m)"
proof -
  let ?a = "of_le seed" and ?r = "of_le (sha256 (seed @ m))"
  let ?h = "of_le (sha256 (pub_bytes ?r @ pub_bytes ?a @ m))"
  have b: "?a < 256 ^ 32" "?r < 256 ^ 32" "?h < 256 ^ 32"
    using of_le_less [of seed] of_le_less [of "sha256 _"] assms by simp_all
  have "?h * ?a \<le> 256 ^ 32 * 256 ^ 32" using b by (intro mult_le_mono) simp_all
  then have "?r + ?h * ?a < 256 ^ 96" using b(2) by (simp add: power_add [symmetric])
  then have S: "of_le (nat_le_bytes 96 (?r + ?h * ?a)) = ?r + ?h * ?a" by (rule of_le_nat_le_bytes)
  have "(9 :: nat) ^ (?r + ?h * ?a) mod dh_prime = 9 ^ ?r * (9 ^ ?a) ^ ?h mod dh_prime"
    by (simp add: power_add mult.commute [of ?h] power_mult)
  also have "\<dots> = (9 ^ ?r mod dh_prime) * (9 ^ ?a mod dh_prime) ^ ?h mod dh_prime"
    by (metis mod_mult_left_eq mod_mult_right_eq power_mod)
  finally show ?thesis
    using S assms by (simp add: schnorr_verify_def schnorr_sign_def Let_def dh_public_def)
qed

interpretation schnorr: signature_scheme schnorr
  by unfold_locales (simp_all add: schnorr_def schnorr_verify_sign)

section \<open>A group conversation\<close>

text \<open>The sender encrypts a list of messages in turn; the receiver decrypts what it gets in turn.\<close>

fun encrypt_seq ::
  "aead_ops \<Rightarrow> ed25519_ops \<Rightarrow> slice \<Rightarrow> uint32 \<Rightarrow> slice \<Rightarrow> (bytes \<times> bytes) list \<Rightarrow> (EncryptedMessage list \<times> slice) option" where
  "encrypt_seq C E signingKey keyID chain [] = Some ([], chain)"
| "encrypt_seq C E signingKey keyID chain ((nonce, p) # ps) =
     (case SK_Encrypt C E (Inr nonce) chain signingKey keyID p of
        Returns (Inr (m, chain')) \<Rightarrow>
          map_option (\<lambda>(ms, c). (m # ms, c)) (encrypt_seq C E signingKey keyID (Some chain') ps)
      | _ \<Rightarrow> None)"

fun decrypt_seq :: "aead_ops \<Rightarrow> ed25519_ops \<Rightarrow> slice \<Rightarrow> slice \<Rightarrow> EncryptedMessage list \<Rightarrow> (bytes list \<times> slice) option" where
  "decrypt_seq C E publicKey chain [] = Some ([], chain)"
| "decrypt_seq C E publicKey chain (m # ms) =
     (case SK_Decrypt C E chain publicKey m of
        Returns (Inr (p, chain')) \<Rightarrow> map_option (\<lambda>(ps, c). (p # ps, c)) (decrypt_seq C E publicKey (Some chain') ms)
      | _ \<Rightarrow> None)"

lemma length_Ratchet [simp]: "length (fst (Ratchet c)) = 32" "length (snd (Ratchet c)) = 32"
  by (simp_all add: Ratchet_def hmacSHA256_def)

lemma seq_roundtrip:
  assumes "aead_cipher C" "signature_scheme E" "length seed = 32"
  shows "\<forall>n \<in> fst ` set ps. length n = NonceSize \<Longrightarrow>
    \<exists>ms. encrypt_seq C E (Some (ed_Private E seed)) keyID chain ps = Some (ms, fst (ratchet_steps (length ps) chain)) \<and>
      decrypt_seq C E (Some (ed_Public E seed)) chain ms = Some (map snd ps, fst (ratchet_steps (length ps) chain))"
proof (induction ps arbitrary: chain)
  case (Cons np ps)
  obtain n p where np: "np = (n, p)" "length n = NonceSize" using Cons.prems by (cases np) auto
  let ?mk = "snd (Ratchet chain)"
  let ?ct = "aead_Seal C ?mk n p []"
  obtain ms where ms: "encrypt_seq C E (Some (ed_Private E seed)) keyID (Some (fst (Ratchet chain))) ps
        = Some (ms, fst (ratchet_steps (length ps) (Some (fst (Ratchet chain)))))"
      "decrypt_seq C E (Some (ed_Public E seed)) (Some (fst (Ratchet chain))) ms
        = Some (map snd ps, fst (ratchet_steps (length ps) (Some (fst (Ratchet chain)))))"
    using Cons.IH [of "Some (fst (Ratchet chain))"] Cons.prems by auto
  have lens: "length (ed_Private E seed) = 64" "length (ed_Public E seed) = 32"
    "ed_Verify E (ed_Public E seed) ?ct (ed_Sign E (ed_Private E seed) ?ct)"
    using signature_scheme.private_length [OF assms(2,3)] signature_scheme.public_length [OF assms(2,3)]
      signature_scheme.verify_sign [OF assms(2,3)] by simp_all
  have op: "aead_Open C ?mk n ?ct [] = Inr p"
    using aead_cipher.open_seal [OF assms(1)] np(2) by (simp add: KeySize_def)
  show ?case
    using ms lens op np
    by (simp add: SK_Encrypt_def SK_Decrypt_def Let_def split_beta KeySize_def)
qed simp


section \<open>Properties\<close>

text \<open>
  C12. Group messages.  A member who got the sender's distribution decrypts, in order, exactly the messages the sender
  encrypted with the generated key, whatever the messages and the random nonces, and both end with the same chain key,
  the one \<open>RatchetN\<close> computes; over any AEAD cipher and signature scheme with the documented contracts.
\<close>

theorem group_messages_roundtrip:
  assumes "aead_cipher C" "signature_scheme E" "length ck = 32" "length seed = 32"
    and "GenerateSenderKey E (Inr ck) (Inr seed) keyID = Inr sk" "\<forall>n \<in> fst ` set ps. length n = NonceSize"
    and "FromDistribution (ToDistribution g u sk) = (kid, chain, pub)"
  shows "kid = keyID \<and> (\<exists>ms final mks. RatchetN chain (int (length ps)) = Returns (final, mks) \<and>
    encrypt_seq C E (sn_SigningKey sk) keyID (sn_ChainKey sk) ps = Some (ms, final) \<and>
    decrypt_seq C E pub chain ms = Some (map snd ps, final))"
proof -
  have sk: "sk = \<lparr>sn_KeyID = keyID, sn_ChainKey = Some ck, sn_SigningKey = Some (ed_Private E seed),
      sn_PublicKey = Some (ed_Public E seed)\<rparr>" using assms(5) by (simp add: GenerateSenderKey_def)
  have pub: "kid = keyID" "chain = Some ck" "pub = Some (ed_Public E seed)"
    using assms(7) by (simp_all add: FromDistribution_def ToDistribution_def sk)
  obtain final mks where steps: "ratchet_steps (length ps) chain = (final, mks)" by (rule prod.exhaust)
  then have "RatchetN chain (int (length ps)) = Returns (final, mks)" by (simp add: RatchetN_def)
  with steps seq_roundtrip [OF assms(1,2,4,6), of keyID chain] show ?thesis by (auto simp: sk pub)
qed

theorem group_messages_roundtrip_witness:
  "\<exists>ms final. encrypt_seq chacha20poly1305 schnorr (Some (replicate 32 2 @ pub_bytes (of_le (replicate 32 2)))) 7
      (Some (replicate 32 1)) [(replicate 12 0, [1, 2, 3])] = Some (ms, final) \<and>
    decrypt_seq chacha20poly1305 schnorr (Some (pub_bytes (of_le (replicate 32 2)))) (Some (replicate 32 1)) ms
      = Some ([[1, 2, 3]], final)"
  using group_messages_roundtrip [OF chacha.aead_cipher_axioms schnorr.signature_scheme_axioms, of "replicate 32 1" "replicate 32 2" 7
      "\<lparr>sn_KeyID = 7, sn_ChainKey = Some (replicate 32 1), sn_SigningKey = Some (replicate 32 2 @ pub_bytes (of_le (replicate 32 2))),
        sn_PublicKey = Some (pub_bytes (of_le (replicate 32 2)))\<rparr>" "[(replicate 12 0, [1, 2, 3])]" None None 7
      "Some (replicate 32 1)" "Some (pub_bytes (of_le (replicate 32 2)))"]
  by (auto simp: GenerateSenderKey_def schnorr_def NonceSize_def FromDistribution_def ToDistribution_def)

text \<open>
  The signature does not cover the nonce.  Whoever replaces the nonce of a message with a valid signature by one
  of another length makes the receiver panic: the check passes and \<open>Open\<close> is called with it.
\<close>

lemma unsigned_nonce_panics:
  assumes "slice_len pub = 32" "SK_Decrypt C E chain pub msg = Returns (Inr (p, chain'))" "slice_len nonce \<noteq> NonceSize"
  shows "\<exists>why. SK_Decrypt C E chain pub (msg\<lparr>em_Nonce := nonce\<rparr>) = Panic why"
  using assms by (auto simp: SK_Decrypt_def Let_def split_beta KeySize_def split: if_splits sum.splits)

lemma unsigned_nonce_panics_instance:
  "\<exists>ms m why. encrypt_seq chacha20poly1305 schnorr (Some (replicate 32 2 @ pub_bytes (of_le (replicate 32 2)))) 7
      (Some (replicate 32 1)) [(replicate 12 0, [1])] = Some (ms, fst (ratchet_steps 1 (Some (replicate 32 1)))) \<and> ms = [m] \<and>
    SK_Decrypt chacha20poly1305 schnorr (Some (replicate 32 1)) (Some (pub_bytes (of_le (replicate 32 2)))) (m\<lparr>em_Nonce := None\<rparr>) = Panic why"
proof -
  let ?pub = "pub_bytes (of_le (replicate 32 2))"
  obtain ms where ms: "encrypt_seq chacha20poly1305 schnorr (Some (replicate 32 2 @ ?pub)) 7
      (Some (replicate 32 1)) [(replicate 12 0, [1])] = Some (ms, fst (ratchet_steps 1 (Some (replicate 32 1))))"
      "decrypt_seq chacha20poly1305 schnorr (Some ?pub) (Some (replicate 32 1)) ms = Some ([[1]], fst (ratchet_steps 1 (Some (replicate 32 1))))"
    using seq_roundtrip [OF chacha.aead_cipher_axioms schnorr.signature_scheme_axioms, of "replicate 32 2"
        "[(replicate 12 0, [1])]" 7 "Some (replicate 32 1)"] by (auto simp: schnorr_def NonceSize_def)
  then obtain m where m: "ms = [m]" by (auto split: call.splits sum.splits)
  with ms(2) obtain p c where "SK_Decrypt chacha20poly1305 schnorr (Some (replicate 32 1)) (Some ?pub) m = Returns (Inr (p, c))"
    by (auto split: call.splits sum.splits)
  from unsigned_nonce_panics [OF _ this, of None] ms(1) m show ?thesis by (auto simp: NonceSize_def)
qed

lemma ck_json_ok: "json_ok (ck_json ck)"
  by (simp add: ck_json_def code_def)

lemma ck_roundtrip: "json_unmarshal ck_fields (json_print (ck_json ck)) s = (ck, False)"
proof -
  have "json_unmarshal ck_fields (json_print (ck_json ck)) s = decode_members ck_fields [(''key_id'', JNum (show_nat (unat (ck_KeyID ck)))), (''chain_key'', json_bytes (ck_ChainKey ck)),
     (''signing_key'', json_bytes (ck_SigningKey ck))] s"
    using ck_json_ok [of ck] unfolding ck_json_def by (rule json_unmarshal_print)
  moreover have "unat (ck_KeyID ck) < 2 ^ 32" using unsigned_less [of "ck_KeyID ck"] by simp
  ultimately show ?thesis by (simp add: ck_fields_def)
qed

context redis_service
begin

lemma hget_total: "avail r \<Longrightarrow> hash_key (view r) k \<Longrightarrow> rd_HGet R r k f = Inr (v_hash (view r) k f)"
  using hget_avail hget by metis

lemma Cache_Get_view:
  "avail r \<Longrightarrow> hash_key (view r) (cacheKey g) \<Longrightarrow>
     Cache_Get R r g u = (case v_hash (view r) (cacheKey g) (hex_encode (slice_bytes u)) of None \<Rightarrow> Inr None
       | Some d \<Rightarrow> (let (ck, bad) = json_unmarshal ck_fields d \<lparr>ck_KeyID = 0, ck_ChainKey = None, ck_SigningKey = None\<rparr>
           in if bad then Inl ''json: cannot unmarshal'' else Inr (Some ck)))"
  by (auto simp: Cache_Get_def hget_total split: option.split)

lemma Cache_Set_view:
  assumes "avail r" "hash_key (view r) (cacheKey g)"
  obtains r' where "Cache_Set R r g u ck = (r', None)" "avail r'" "hash_key (view r') (cacheKey g)"
    "v_hash (view r') (cacheKey g) = (v_hash (view r) (cacheKey g))(hex_encode (slice_bytes u) \<mapsto> json_print (ck_json ck))"
proof -
  let ?k = "cacheKey g" and ?f = "hex_encode (slice_bytes u)"
  let ?cs = "[HSet ?k [(?f, json_print (ck_json ck))], Expire ?k cacheTTL]"
  have "cmds_typed ?cs (view r)" using assms(2) by simp
  from exec_view [OF assms(1) this] obtain r' where r': "rd_Exec R r ?cs = (r', None)" "avail r'"
    "view r' = fold cmd_effect ?cs (view r)" .
  show thesis
  proof (rule that)
    show "Cache_Set R r g u ck = (r', None)" using r'(1) by (simp add: Cache_Set_def)
    show "hash_key (view r') ?k" "v_hash (view r') ?k = (v_hash (view r) ?k)(?f \<mapsto> json_print (ck_json ck))"
      using assms(2) by (simp_all add: r'(3) hash_key_def expire_seconds_def cacheTTL_def Hour_def Minute_def Second_def)
  qed (rule r'(2))
qed

lemma Cache_Delete_view:
  assumes "avail r" "hash_key (view r) (cacheKey g)"
  obtains r' where "Cache_Delete R r g u = (r', None)" "avail r'" "hash_key (view r') (cacheKey g)"
    "v_hash (view r') (cacheKey g) = (v_hash (view r) (cacheKey g))(hex_encode (slice_bytes u) := None)"
proof -
  have "cmds_typed [HDel (cacheKey g) (hex_encode (slice_bytes u))] (view r)" using assms(2) by simp
  from exec_view [OF assms(1) this] obtain r' where r': "Cache_Delete R r g u = (r', None)" "avail r'"
    "view r' = cmd_effect (HDel (cacheKey g) (hex_encode (slice_bytes u))) (view r)" by (auto simp: Cache_Delete_def)
  show thesis using that [OF r'(1,2)] assms(2) by (simp add: r'(3) hash_key_def)
qed

lemma Cache_DeleteAll_view:
  assumes "avail r"
  obtains r' where "Cache_DeleteAll R r g = (r', None)" "avail r'" "hash_key (view r') (cacheKey g)"
    "v_hash (view r') (cacheKey g) = Map.empty"
proof -
  have "cmds_typed [Del (cacheKey g)] (view r)" by simp
  from exec_view [OF assms this] obtain r' where r': "Cache_DeleteAll R r g = (r', None)" "avail r'"
    "view r' = view_del (cacheKey g) (view r)" by (auto simp: Cache_DeleteAll_def)
  show thesis using that [OF r'(1,2)] by (simp add: r'(3) hash_key_def)
qed

lemma Cache_roundtrip:
  assumes "avail r" "hash_key (view r) (cacheKey g)"
  shows "\<exists>r'. Cache_Set R r g u ck = (r', None) \<and> Cache_Get R r' g u = Inr (Some ck) \<and>
    (\<forall>v. slice_bytes v \<noteq> slice_bytes u \<longrightarrow> Cache_Get R r' g v = Cache_Get R r g v) \<and>
    (\<exists>r''. Cache_Delete R r' g u = (r'', None) \<and> Cache_Get R r'' g u = Inr None) \<and>
    (\<exists>r''. Cache_DeleteAll R r' g = (r'', None) \<and> (\<forall>v. Cache_Get R r'' g v = Inr None))"
proof -
  obtain r' where r': "Cache_Set R r g u ck = (r', None)" "avail r'" "hash_key (view r') (cacheKey g)"
    "v_hash (view r') (cacheKey g) = (v_hash (view r) (cacheKey g))(hex_encode (slice_bytes u) \<mapsto> json_print (ck_json ck))"
    using Cache_Set_view [OF assms] .
  obtain r1 where r1: "Cache_Delete R r' g u = (r1, None)" "avail r1" "hash_key (view r1) (cacheKey g)"
    "v_hash (view r1) (cacheKey g) = (v_hash (view r') (cacheKey g))(hex_encode (slice_bytes u) := None)"
    using Cache_Delete_view [OF r'(2,3)] .
  obtain r2 where r2: "Cache_DeleteAll R r' g = (r2, None)" "avail r2" "hash_key (view r2) (cacheKey g)"
    "v_hash (view r2) (cacheKey g) = Map.empty" using Cache_DeleteAll_view [OF r'(2)] .
  have "Cache_Get R r' g u = Inr (Some ck)" by (simp add: Cache_Get_view [OF r'(2,3)] r'(4) ck_roundtrip)
  moreover have "Cache_Get R r' g v = Cache_Get R r g v" if "slice_bytes v \<noteq> slice_bytes u" for v
    using that by (simp add: Cache_Get_view [OF r'(2,3)] Cache_Get_view [OF assms] r'(4))
  moreover have "Cache_Get R r1 g u = Inr None" by (simp add: Cache_Get_view [OF r1(2,3)] r1(4))
  moreover have "Cache_Get R r2 g v = Inr None" for v by (simp add: Cache_Get_view [OF r2(2,3)] r2(4))
  ultimately show ?thesis using r'(1) r1(1) r2(1) by blast
qed

end

text \<open>
  The key cache.  Over any Redis that keeps its contract, a stored key is read back as it was stored, other users'
  keys are not disturbed, a deleted one is absent, and \<open>DeleteAll\<close> leaves none of the group's.
\<close>

lemma sender_key_cache:
  assumes "redis_service R view avail advance" "avail r" "hash_key (view r) (cacheKey g)"
  shows "\<exists>r'. Cache_Set R r g u ck = (r', None) \<and> Cache_Get R r' g u = Inr (Some ck) \<and>
    (\<forall>v. slice_bytes v \<noteq> slice_bytes u \<longrightarrow> Cache_Get R r' g v = Cache_Get R r g v) \<and>
    (\<exists>r''. Cache_Delete R r' g u = (r'', None) \<and> Cache_Get R r'' g u = Inr None) \<and>
    (\<exists>r''. Cache_DeleteAll R r' g = (r'', None) \<and> (\<forall>v. Cache_Get R r'' g v = Inr None))"
  using redis_service.Cache_roundtrip [OF assms] .

lemma sender_key_cache_instance:
  "\<exists>r'. Cache_Set mem_ops mem_start (Some [1]) (Some [2]) \<lparr>ck_KeyID = 3, ck_ChainKey = Some [4], ck_SigningKey = None\<rparr> = (r', None) \<and>
    Cache_Get mem_ops r' (Some [1]) (Some [2]) = Inr (Some \<lparr>ck_KeyID = 3, ck_ChainKey = Some [4], ck_SigningKey = None\<rparr>)"
proof -
  have "mem_up mem_start" "hash_key (mem_view mem_start) k" for k
    by (simp_all add: mem_start_def mem_view_def hash_key_def mem_get_def mem_hash_def mem_set_def)
  from sender_key_cache [OF mem.redis_service_axioms this] show ?thesis by blast
qed

end
