(* ===== verification/Go_Float.thy ===== *)
theory Go_Float
  imports FProto_Prelude "HOL-Library.Log_Nat"
begin

text \<open>
  Go's \<open>float64\<close> as far as the sources compute with it: the finite values are rationals, and an operation gives the
  exact result rounded to 53 significant bits, to nearest and ties to even. The exponent range is not bounded, so
  overflow to infinity and gradual underflow are not modelled. What the proofs use of the rounding is the locale
  \<open>float_rounding\<close>.
\<close>

type_synonym float64 = rat

section \<open>Rounding\<close>

text \<open>\<open>expo x\<close>: the exponent of the leading bit of a positive number.\<close>

definition expo :: "rat \<Rightarrow> int" where
  "expo x = (case quotient_of x of (p, q) \<Rightarrow>
     (let k = bitlen p - bitlen q in if power_int 2 k \<le> x then k else k - 1))"

definition round_even :: "rat \<Rightarrow> int" where
  "round_even x =
     (let f = \<lfloor>x\<rfloor>; d = x - of_int f
      in if d < 1 / 2 then f else if d > 1 / 2 then f + 1 else if even f then f else f + 1)"

definition fl :: "rat \<Rightarrow> float64" where
  "fl x = (if x = 0 then 0
     else let e = expo \<bar>x\<bar>; m = round_even (\<bar>x\<bar> * power_int 2 (52 - e))
          in sgn x * of_int m * power_int 2 (e - 52))"

text \<open>
  Conversion to \<open>int64\<close> truncates; a value that does not fit gives the smallest integer, as on amd64.
\<close>

definition to_int64 :: "float64 \<Rightarrow> int" where
  "to_int64 x = (let n = (if x < 0 then \<lceil>x\<rceil> else \<lfloor>x\<rfloor>)
     in if - (2 ^ 63) \<le> n \<and> n < 2 ^ 63 then n else - (2 ^ 63))"

section \<open>What the proofs rely on\<close>

locale float_rounding =
  fixes rd :: "rat \<Rightarrow> rat"
  assumes rel_error: "\<bar>rd x - x\<bar> \<le> \<bar>x\<bar> / 2 ^ 53"
    and exact_int: "\<bar>n\<bar> \<le> 2 ^ 53 \<Longrightarrow> rd (of_int n) = of_int n"
begin

lemma error_bound: "\<bar>x\<bar> \<le> b \<Longrightarrow> x - b / 2 ^ 53 \<le> rd x \<and> rd x \<le> x + b / 2 ^ 53"
proof -
  assume "\<bar>x\<bar> \<le> b"
  then have "\<bar>rd x - x\<bar> \<le> b / 2 ^ 53" using rel_error [of x] by (simp add: field_simps)
  then show ?thesis unfolding abs_le_iff by linarith
qed

lemma nonneg: "0 \<le> x \<Longrightarrow> 0 \<le> rd x"
  using error_bound [of x x] by simp

text \<open>
  The computation of a jittered value between \<open>d - d * j\<close> and \<open>d + d * j\<close> stays within it up to one.
\<close>

lemma jitter_bounds:
  fixes d :: int and j r :: rat
  assumes d: "0 \<le> d" "d \<le> 2 ^ 45" and j: "0 \<le> j" "j \<le> 1" and r: "0 \<le> r" "r \<le> 1"
  defines "delta \<equiv> rd (rd (of_int d) * j)"
  defines "lo \<equiv> rd (rd (of_int d) - delta)"
  defines "hi \<equiv> rd (rd (of_int d) + delta)"
  defines "y \<equiv> rd (lo + rd (r * rd (hi - lo)))"
  shows "of_int d - of_int d * j - 1 / 2 \<le> y" "y \<le> of_int d + of_int d * j + 1 / 2"
proof -
  define D :: rat where "D = of_int d"
  have D: "rd D = D" "0 \<le> D" "D \<le> 2 ^ 45"
    using exact_int [of d] d by (simp_all add: D_def)
  define t where "t = D * j"
  have t: "0 \<le> t" "t \<le> D" using D j by (simp_all add: t_def mult_left_le)
  have u: "b / 2 ^ 53 \<le> 1 / 64" if "b \<le> 2 ^ 47" for b :: rat using that by simp
  have err: "x - 1 / 64 \<le> rd x \<and> rd x \<le> x + 1 / 64" if "- (2 ^ 47) \<le> x" "x \<le> 2 ^ 47" for x :: rat
    using error_bound [of x "2 ^ 47"] that by (simp add: abs_le_iff)
  have delta: "t - 1 / 64 \<le> delta \<and> delta \<le> t + 1 / 64"
    using err [of t] t D by (simp add: delta_def D_def [symmetric] t_def)
  have lo: "D - delta - 1 / 64 \<le> lo \<and> lo \<le> D - delta + 1 / 64"
    using err [of "D - delta"] t D delta by (simp add: lo_def D_def [symmetric])
  have hi: "D + delta - 1 / 64 \<le> hi \<and> hi \<le> D + delta + 1 / 64"
    using err [of "D + delta"] t D delta by (simp add: hi_def D_def [symmetric])
  define M where "M = rd (hi - lo)"
  have M: "hi - lo - 1 / 64 \<le> M \<and> M \<le> hi - lo + 1 / 64"
    using err [of "hi - lo"] t D delta lo hi by (simp add: M_def)
  define w where "w = r * M"
  have w: "0 \<le> M \<longrightarrow> 0 \<le> w \<and> w \<le> M" "M < 0 \<longrightarrow> M \<le> w \<and> w \<le> 0"
    using r by (auto simp: w_def mult_left_le_one_le mult_le_0_iff)
  define v where "v = rd w"
  have v: "w - 1 / 64 \<le> v \<and> v \<le> w + 1 / 64"
    using err [of w] t D delta lo hi M w by (cases "0 \<le> M") (simp_all add: v_def)
  have "- (2 ^ 47) \<le> lo + v \<and> lo + v \<le> 2 ^ 47"
    using t D delta lo hi M w v by (cases "0 \<le> M") simp_all
  then have y: "lo + v - 1 / 64 \<le> y \<and> y \<le> lo + v + 1 / 64"
    using err [of "lo + v"] by (simp add: y_def v_def w_def M_def)
  have "D - t - 1 / 2 \<le> y \<and> y \<le> D + t + 1 / 2"
    using D(2,3) t delta lo hi M w v y by (cases "0 \<le> M") simp_all
  then show "of_int d - of_int d * j - 1 / 2 \<le> y" "y \<le> of_int d + of_int d * j + 1 / 2"
    by (simp_all add: D_def t_def)
qed

end

section \<open>Rounding to 53 bits\<close>

lemma power_int_bound: "0 < q \<Longrightarrow> power_int 2 (bitlen q - 1) \<le> rat_of_int q \<and> rat_of_int q < power_int 2 (bitlen q)"
proof -
  assume q: "0 < q"
  then have "1 \<le> bitlen q" using bitlen_eq_zero_iff [of q] bitlen_nonneg [of q] by linarith
  moreover have "rat_of_int (2 ^ nat (bitlen q - 1)) \<le> of_int q" "rat_of_int q < of_int (2 ^ nat (bitlen q))"
    using bitlen_bounds [OF q] by (simp_all only: of_int_le_iff of_int_less_iff)
  ultimately show ?thesis by (simp add: power_int_def)
qed

lemma expo_bounds:
  assumes "0 < x"
  shows "power_int 2 (expo x) \<le> x" "x < power_int 2 (expo x + 1)"
proof -
  obtain p q where pq: "quotient_of x = (p, q)" by fastforce
  have q: "0 < q" using quotient_of_denom_pos [OF pq] .
  have x: "x = of_int p / of_int q" using quotient_of_div [OF pq] .
  have p: "0 < p" using assms x q by (simp add: zero_less_divide_iff)
  let ?k = "bitlen p - bitlen q"
  have "x < power_int 2 (?k + 1)"
  proof -
    have "rat_of_int p < power_int 2 (bitlen p)" "power_int 2 (bitlen q - 1) \<le> rat_of_int q"
      using power_int_bound [OF p] power_int_bound [OF q] by simp_all
    then have "of_int p / of_int q < power_int 2 (bitlen p) / power_int (2 :: rat) (bitlen q - 1)"
      using q p by (intro frac_less) simp_all
    then show ?thesis by (simp add: x power_int_diff [symmetric] algebra_simps)
  qed
  moreover have "power_int 2 (?k - 1) \<le> x"
  proof -
    have "power_int 2 (bitlen p - 1) \<le> rat_of_int p" "rat_of_int q < power_int 2 (bitlen q)"
      using power_int_bound [OF p] power_int_bound [OF q] by simp_all
    then have "power_int 2 (bitlen p - 1) / power_int (2 :: rat) (bitlen q) \<le> of_int p / of_int q"
      using q p by (intro frac_le) simp_all
    then show ?thesis by (simp add: x power_int_diff [symmetric] algebra_simps)
  qed
  ultimately show "power_int 2 (expo x) \<le> x" "x < power_int 2 (expo x + 1)"
    by (auto simp: expo_def pq Let_def)
qed

lemma round_even_error: "\<bar>of_int (round_even x) - x\<bar> \<le> 1 / 2"
proof -
  have "of_int \<lfloor>x\<rfloor> \<le> x" "x < of_int \<lfloor>x\<rfloor> + 1" by linarith+
  then show ?thesis by (auto simp: round_even_def Let_def abs_le_iff)
qed

lemma round_even_int [simp]: "round_even (of_int n) = n"
  by (simp add: round_even_def Let_def)

lemma fl_minus: "fl (- x) = - fl x"
  by (simp add: fl_def Let_def)

lemma rescale_error:
  fixes R a s t :: rat
  assumes "\<bar>R - a * s\<bar> \<le> a * s / K" "s * t = 1" "0 < t"
  shows "\<bar>R * t - a\<bar> \<le> a / K"
proof -
  have "R * t - a = (R - a * s) * t" using assms(2) by (simp add: algebra_simps)
  then have "\<bar>R * t - a\<bar> = \<bar>R - a * s\<bar> * t" using assms(3) by (simp add: abs_mult)
  also have "\<dots> \<le> a * s / K * t" by (rule mult_right_mono) (use assms(1,3) in simp_all)
  also have "\<dots> = a / K" using assms(2) by (metis mult.assoc mult.commute mult.right_neutral times_divide_eq_left)
  finally show ?thesis .
qed

lemma fl_error: "\<bar>fl x - x\<bar> \<le> \<bar>x\<bar> / 2 ^ 53"
proof (cases "x = 0")
  case False
  let ?a = "\<bar>x\<bar>" and ?e = "expo \<bar>x\<bar>"
  let ?m = "?a * power_int 2 (52 - ?e)"
  have scale: "power_int (2 :: rat) (52 - ?e) * power_int 2 (?e - 52) = 1"
    by (simp add: power_int_add [symmetric])
  have "power_int 2 ?e * power_int (2 :: rat) (52 - ?e) \<le> ?m"
    using expo_bounds(1) [of ?a] False by (intro mult_right_mono) simp_all
  then have m: "2 ^ 52 \<le> ?m" by (simp add: power_int_add [symmetric])
  have "\<bar>of_int (round_even ?m) - ?m\<bar> \<le> ?m / 2 ^ 53"
    using round_even_error [of ?m] m by (simp add: field_simps)
  then have "\<bar>of_int (round_even ?m) * power_int 2 (?e - 52) - ?a\<bar> \<le> ?a / 2 ^ 53"
    by (rule rescale_error [OF _ scale]) simp
  then show ?thesis
    using False by (cases "0 < x") (simp_all add: fl_def Let_def abs_if split: if_splits)
qed (simp add: fl_def)

lemma fl_int_pos: "0 < n \<Longrightarrow> n \<le> 2 ^ 53 \<Longrightarrow> fl (of_int n) = of_int n"
proof -
  assume n: "0 < n" "n \<le> 2 ^ 53"
  let ?e = "expo (rat_of_int n)"
  have e: "power_int 2 ?e \<le> rat_of_int n" "rat_of_int n < power_int 2 (?e + 1)"
    using expo_bounds [of "rat_of_int n"] n by simp_all
  have "\<exists>k. rat_of_int n * power_int 2 (52 - ?e) = of_int k"
  proof (cases "?e \<le> 52")
    case True
    then have "rat_of_int n * power_int 2 (52 - ?e) = of_int (n * 2 ^ nat (52 - ?e))" by (simp add: power_int_def)
    then show ?thesis by blast
  next
    case False
    have "power_int 2 ?e \<le> power_int (2 :: rat) 53"
      using e(1) n(2) by (metis (mono_tags) of_int_le_iff of_int_numeral of_int_power order_trans power_int_numeral)
    then have "?e = 53" using False power_int_strict_increasing [of 53 ?e "2 :: rat"] by (cases "?e = 53") simp_all
    moreover have "n = 2 ^ 53"
      using e(1) n(2) \<open>?e = 53\<close> by (metis (mono_tags) of_int_le_iff of_int_numeral of_int_power order_antisym power_int_numeral)
    ultimately have "rat_of_int n * power_int 2 (52 - ?e) = of_int (2 ^ 52)" by simp
    then show ?thesis by blast
  qed
  then obtain k where k: "rat_of_int n * power_int 2 (52 - ?e) = of_int k" ..
  have "rat_of_int k * power_int 2 (?e - 52) = rat_of_int n * (power_int 2 (52 - ?e) * power_int 2 (?e - 52))"
    by (simp add: k [symmetric])
  also have "\<dots> = of_int n" by (simp add: power_int_add [symmetric])
  finally show ?thesis using n by (simp add: fl_def Let_def k)
qed

lemma fl_int: "\<bar>n\<bar> \<le> 2 ^ 53 \<Longrightarrow> fl (of_int n) = of_int n"
  using fl_int_pos [of n] fl_int_pos [of "- n"] fl_minus [of "of_int n"]
  by (cases "n = 0"; cases "0 < n") (simp_all add: fl_def)

interpretation ieee: float_rounding fl
  by unfold_locales (rule fl_error, rule fl_int)

end
