(* ===== verification/Go_Float64.thy ===== *)
theory Go_Float64
  imports Go_Float Go_Json
begin

text \<open>
  \<open>float64\<close> with its range, and its JSON form in \<open>encoding/json\<close>.  A value is finite, an infinity or NaN; the sign of
  zero is not kept, since no source divides by one and every value they print starts from a positive zero.  An
  operation rounds the exact result to the 53 bits, gradual underflow included, and overflows to an infinity.  A finite
  value is printed with the fewest digits that read back to it, and the round trip is proved here: seventeen are
  always enough.
\<close>

datatype f64 = Fin rat | Inf bool | NaN

section \<open>Arithmetic\<close>

text \<open>\<open>grid x\<close>: the exponent of the last place of the numbers near the positive number \<open>x\<close>.\<close>

definition grid :: "rat \<Rightarrow> int" where
  "grid x = max (expo x) (- 1022) - 52"

definition fl64 :: "rat \<Rightarrow> f64" where
  "fl64 x = (if x = 0 then Fin 0
     else let q = grid \<bar>x\<bar>; y = of_int (round_even (\<bar>x\<bar> / power_int 2 q)) * power_int 2 q
          in if 2 ^ 1024 \<le> y then Inf (0 < x) else Fin (sgn x * y))"

fun f64_add :: "f64 \<Rightarrow> f64 \<Rightarrow> f64" where
  "f64_add (Fin a) (Fin b) = fl64 (a + b)"
| "f64_add (Inf s) (Inf t) = (if s = t then Inf s else NaN)"
| "f64_add (Inf s) (Fin b) = Inf s"
| "f64_add (Fin a) (Inf t) = Inf t"
| "f64_add _ _ = NaN"

fun f64_minus :: "f64 \<Rightarrow> f64" where
  "f64_minus (Fin a) = Fin (- a)"
| "f64_minus (Inf s) = Inf (\<not> s)"
| "f64_minus NaN = NaN"

definition f64_sub :: "f64 \<Rightarrow> f64 \<Rightarrow> f64" where
  "f64_sub x y = f64_add x (f64_minus y)"

fun f64_mul :: "f64 \<Rightarrow> f64 \<Rightarrow> f64" where
  "f64_mul (Fin a) (Fin b) = fl64 (a * b)"
| "f64_mul (Inf s) (Inf t) = Inf (s = t)"
| "f64_mul (Inf s) (Fin b) = (if b = 0 then NaN else Inf (s = (0 < b)))"
| "f64_mul (Fin a) (Inf t) = (if a = 0 then NaN else Inf ((0 < a) = t))"
| "f64_mul _ _ = NaN"

text \<open>A root lies in the range of normal numbers; its 53 bits are the integer root of the scaled argument, rounded.\<close>

fun f64_sqrt :: "f64 \<Rightarrow> f64" where
  "f64_sqrt (Fin x) =
     (if x < 0 then NaN else if x = 0 then Fin 0
      else let q = expo x div 2 - 52; z = x / power_int 4 q; r = root_bits 2 \<lfloor>z\<rfloor> 54 0;
               mid = (of_int r + 1 / 2) ^ 2;
               r = (if mid < z \<or> mid = z \<and> odd r then r + 1 else r)
           in Fin (of_int r * power_int 2 q))"
| "f64_sqrt (Inf s) = (if s then Inf True else NaN)"
| "f64_sqrt NaN = NaN"

fun f64_less :: "f64 \<Rightarrow> f64 \<Rightarrow> bool" where
  "f64_less (Fin a) (Fin b) \<longleftrightarrow> a < b"
| "f64_less (Inf s) (Fin b) \<longleftrightarrow> \<not> s"
| "f64_less (Fin a) (Inf t) \<longleftrightarrow> t"
| "f64_less (Inf s) (Inf t) \<longleftrightarrow> \<not> s \<and> t"
| "f64_less _ _ \<longleftrightarrow> False"

section \<open>Printing and reading\<close>

text \<open>The exponent of the leading decimal digit of a positive number.\<close>

definition dec_expo :: "rat \<Rightarrow> int" where
  "dec_expo x = (if 1 \<le> x then int (length (show_nat (nat \<lfloor>x\<rfloor>))) - 1
     else - int (length (show_nat (nat (\<lceil>1 / x\<rceil> - 1)))))"

text \<open>
  The multiples of \<open>10 ^ q\<close> next to \<open>x\<close>, the nearer first, and the first of them that reads back as \<open>x\<close>.
\<close>

definition dec_near :: "rat \<Rightarrow> int \<Rightarrow> int" where
  "dec_near x q = round_even (x / power_int 10 q)"

definition dec_far :: "rat \<Rightarrow> int \<Rightarrow> int" where
  "dec_far x q = (if x / power_int 10 q < of_int (dec_near x q) then dec_near x q - 1 else dec_near x q + 1)"

definition reads_back :: "rat \<Rightarrow> int \<Rightarrow> int \<Rightarrow> bool" where
  "reads_back x q n \<longleftrightarrow> fl64 (of_int n * power_int 10 q) = Fin x"

primrec dec_search :: "rat \<Rightarrow> nat \<Rightarrow> int \<Rightarrow> int \<times> int" where
  "dec_search x 0 q = (dec_near x q, q)"
| "dec_search x (Suc n) q =
     (if reads_back x q (dec_near x q) then (dec_near x q, q)
      else if reads_back x q (dec_far x q) then (dec_far x q, q)
      else dec_search x n (q - 1))"

fun strip_zeros :: "nat \<Rightarrow> int \<Rightarrow> nat \<times> int" where
  "strip_zeros m q = (if m \<noteq> 0 \<and> m mod 10 = 0 then strip_zeros (m div 10) (q + 1) else (m, q))"

declare strip_zeros.simps [simp del]

text \<open>The shortest digits of a positive number, and the exponent they are scaled by.\<close>

definition shortest :: "rat \<Rightarrow> nat \<times> int" where
  "shortest x = (case dec_search x 16 (dec_expo x) of (n, q) \<Rightarrow> strip_zeros (nat n) q)"

text \<open>\<open>pad_digits n r\<close>: the last \<open>n\<close> digits of \<open>r\<close>; \<open>fixed_text m n\<close>: the number \<open>m / 10 ^ n\<close> with \<open>n\<close> decimals.\<close>

primrec pad_digits :: "nat \<Rightarrow> nat \<Rightarrow> string" where
  "pad_digits 0 r = []"
| "pad_digits (Suc n) r = pad_digits n (r div 10) @ [digit_char (r mod 10)]"

definition fixed_text :: "nat \<Rightarrow> nat \<Rightarrow> string" where
  "fixed_text m n = show_nat (m div 10 ^ n) @ (if n = 0 then [] else CHR ''.'' # pad_digits n (m mod 10 ^ n))"

definition exp_text :: "int \<Rightarrow> string" where
  "exp_text k = CHR ''e'' # (if k < 0 then CHR ''-'' else CHR ''+'') # show_nat (nat \<bar>k\<bar>)"

text \<open>\<open>floatEncoder\<close>: the format \<open>%e\<close> below \<open>1e-6\<close> and from \<open>1e21\<close> on, with the exponent's leading zero dropped.\<close>

definition pos_text :: "rat \<Rightarrow> string" where
  "pos_text x = (case shortest x of (m, q) \<Rightarrow>
     if x < fl (1 / 10 ^ 6) \<or> 10 ^ 21 \<le> x
     then let n = length (show_nat m) - 1 in fixed_text m n @ exp_text (q + int n)
     else if 0 \<le> q then show_nat (m * 10 ^ nat q) else fixed_text m (nat (- q)))"

definition float_text :: "rat \<Rightarrow> string" where
  "float_text x = (if x = 0 then ''0'' else if x < 0 then CHR ''-'' # pos_text (- x) else pos_text x)"

definition json_float :: "f64 \<Rightarrow> json option" where
  "json_float x = (case x of Fin r \<Rightarrow> Some (JNum (float_text r)) | _ \<Rightarrow> None)"

text \<open>\<open>ParseFloat\<close> on a number of the JSON grammar; a value out of range is an error.\<close>

definition digits_val :: "string \<Rightarrow> nat" where
  "digits_val s = (case read_digits 0 s of Some n \<Rightarrow> n | None \<Rightarrow> 0)"

definition exp_val :: "string \<Rightarrow> int" where
  "exp_val s = (case s of [] \<Rightarrow> 0
     | _ # t \<Rightarrow> (case t of [] \<Rightarrow> 0
         | c # u \<Rightarrow> if c = CHR ''-'' then - int (digits_val u) else if c = CHR ''+'' then int (digits_val u)
             else int (digits_val t)))"

definition num_value :: "string \<Rightarrow> rat" where
  "num_value s =
     (let (sg, s1) = num_sign s; i = takeWhile is_digit s1; s2 = dropWhile is_digit s1;
          dot = (s2 \<noteq> [] \<and> hd s2 = CHR ''.'');
          f = (if dot then takeWhile is_digit (tl s2) else []);
          s3 = (if dot then dropWhile is_digit (tl s2) else s2)
      in (if sg = [] then 1 else - 1) * of_nat (digits_val (i @ f)) * power_int 10 (exp_val s3 - int (length f)))"

definition float_field :: "(f64 \<Rightarrow> 's \<Rightarrow> 's) \<Rightarrow> 's field" where
  "float_field upd j s = (case j of JNull \<Rightarrow> Some s
     | JNum n \<Rightarrow> (case fl64 (num_value n) of Fin x \<Rightarrow> Some (upd (Fin x) s) | _ \<Rightarrow> None) | _ \<Rightarrow> None)"

section \<open>Seventeen digits are enough\<close>

lemma powi_less_iff [simp]: "1 < (b :: rat) \<Longrightarrow> power_int b i < power_int b j \<longleftrightarrow> i < j"
  using power_int_strict_increasing [of i j b] power_int_increasing [of j i b] by (meson leD leI less_imp_le)

lemma powi_le_iff [simp]: "1 < (b :: rat) \<Longrightarrow> power_int b i \<le> power_int b j \<longleftrightarrow> i \<le> j"
  using powi_less_iff [of b j i] by (simp add: not_less [symmetric] del: powi_less_iff)

lemma expo_unique: "0 < x \<Longrightarrow> power_int 2 k \<le> x \<Longrightarrow> x < power_int 2 (k + 1) \<Longrightarrow> expo x = k"
proof -
  assume x: "0 < x" "power_int 2 k \<le> x" "x < power_int 2 (k + 1)"
  have "power_int (2 :: rat) (expo x) < power_int 2 (k + 1)" "power_int (2 :: rat) k < power_int 2 (expo x + 1)"
    using expo_bounds [OF x(1)] x by linarith+
  then have "expo x < k + 1" "k < expo x + 1" by simp_all
  then show ?thesis by linarith
qed

lemma round_even_eq: "\<bar>x - of_int n\<bar> < 1 / 2 \<Longrightarrow> round_even x = n"
proof -
  assume "\<bar>x - of_int n\<bar> < 1 / 2"
  then have "\<bar>of_int (round_even x) - of_int n\<bar> < (1 :: rat)" using round_even_error [of x] by linarith
  then have "\<bar>round_even x - n\<bar> < 1" by (metis of_int_1_less_iff of_int_abs of_int_diff of_int_less_1_iff)
  then show ?thesis by linarith
qed

text \<open>What \<open>fl64 x = Fin x\<close> says of a positive number.\<close>

lemma fl64_fixed:
  assumes "0 < x" "fl64 x = Fin x"
  obtains n where "x = of_int n * power_int 2 (grid x)" "x < 2 ^ 1024" "n < 2 ^ 53" "0 < n"
proof -
  let ?g = "power_int (2 :: rat) (grid x)" and ?n = "round_even (x / power_int 2 (grid x))"
  have x: "x = of_int ?n * ?g" "x < 2 ^ 1024" using assms by (auto simp: fl64_def Let_def split: if_splits)
  have "x < power_int 2 (max (expo x) (- 1022) + 1)"
    by (rule less_le_trans [OF expo_bounds(2) [OF assms(1)]]) simp
  also have "\<dots> = 2 ^ 53 * ?g" by (simp add: grid_def add.commute power_int_add [symmetric] flip: power_int_numeral)
  finally have "of_int ?n * ?g < 2 ^ 53 * ?g" using x(1) by simp
  then have "rat_of_int ?n < of_int (2 ^ 53)" by simp
  then have n: "?n < 2 ^ 53" by (simp only: of_int_less_iff)
  have "0 < of_int ?n * ?g" using x(1) assms(1) by simp
  then have "0 < rat_of_int ?n" by (rule zero_less_mult_pos2) simp
  then have "0 < ?n" by simp
  with x n that show ?thesis by blast
qed


lemma fl64_pos: "0 < y \<Longrightarrow> round_even (y / power_int 2 (grid y)) = n \<Longrightarrow> of_int n * power_int 2 (grid y) < (2 :: rat) ^ 1024 \<Longrightarrow>
    fl64 y = Fin (of_int n * power_int 2 (grid y))"
  by (simp add: fl64_def Let_def not_le)

lemma fl64_close:
  assumes x: "0 < x" "fl64 x = Fin x" and y: "\<bar>y - x\<bar> * (2 * 10 ^ 16) \<le> x"
  shows "fl64 y = Fin x"
proof -
  define e where "e = max (expo x) (- 1022)"
  define g :: rat where "g = power_int 2 (e - 52)"
  obtain n where n: "x = of_int n * g" "x < 2 ^ 1024" "n < 2 ^ 53" "0 < n"
    using fl64_fixed [OF x] by (auto simp: grid_def e_def g_def)
  have g: "0 < g" by (simp add: g_def)
  have pow: "power_int (2 :: rat) e = 2 ^ 52 * g" "power_int (2 :: rat) (e + 1) = 2 ^ 53 * g"
    "power_int (2 :: rat) (e - 1) = 2 ^ 51 * g"
    by (simp_all add: g_def add.commute power_int_add [symmetric] flip: power_int_numeral)
  have "rat_of_int n \<le> of_int (2 ^ 53 - 1)" using n(3) by (simp only: of_int_le_iff)
  then have nx: "x \<le> (2 ^ 53 - 1) * g" using n(1) g by simp
  have d: "\<bar>y - x\<bar> < g / 2" using y nx g by simp
  have gx: "g \<le> x" using n(1,4) g by simp
  have ypos: "0 < y" using d gx g unfolding abs_less_iff by linarith
  have ylt: "y < power_int 2 (e + 1)" using d nx g unfolding pow abs_less_iff by simp
  show ?thesis
  proof (cases "e = - 1022 \<or> power_int 2 e \<le> y")
    case True
    have "expo y \<le> e" using expo_bounds(1) [OF ypos] ylt powi_less_iff [of 2 "expo y" "e + 1"] by linarith
    moreover have "power_int 2 e \<le> y \<Longrightarrow> expo y = e" using expo_unique [OF ypos _ ylt] .
    ultimately have "grid y = e - 52" using True by (auto simp: grid_def e_def)
    moreover have "round_even (y / g) = n"
      using d g n(1) by (intro round_even_eq) (simp add: field_simps abs_less_iff)
    ultimately show ?thesis using fl64_pos [OF ypos, of n] n(1,2) by (simp add: g_def)
  next
    case False
    have e: "e = expo x" "- 1022 < e" using False by (auto simp: e_def max_def split: if_splits)
    have "2 ^ 52 * g \<le> x" using expo_bounds(1) [OF x(1)] e(1) pow(1) by simp
    then have "2 ^ 52 \<le> rat_of_int n" using n(1) g by simp
    moreover have "rat_of_int n < 2 ^ 52 + 1" 
    proof (rule ccontr)
      assume "\<not> ?thesis"
      then have "(2 ^ 52 + 1) * g \<le> of_int n * g" using g by (intro mult_right_mono) simp_all
      with False d g show False unfolding pow abs_less_iff n(1) [symmetric] by simp
    qed
    ultimately have "of_int (2 ^ 52) \<le> rat_of_int n" "rat_of_int n < of_int (2 ^ 52 + 1)" by simp_all
    then have "n = 2 ^ 52" unfolding of_int_le_iff of_int_less_iff by linarith
    then have xe: "x = 2 ^ 52 * g" using n(1) by simp
    have d': "x - y < g / 4" using y False g unfolding xe pow by simp
    have "expo y = e - 1" using d' False g by (intro expo_unique [OF ypos]) (simp_all add: pow xe)
    then have q: "grid y = e - 53" using e(2) by (simp add: grid_def)
    have h: "power_int 2 (e - 53) = g / 2"
      using power_int_diff [of "2 :: rat" "e - 52" 1] by (simp add: g_def)
    have "round_even (y / (g / 2)) = 2 ^ 53"
      using d' False g by (intro round_even_eq) (simp add: field_simps abs_less_iff pow xe)
    then show ?thesis using fl64_pos [OF ypos, of "2 ^ 53"] n(2) by (simp add: q h xe)
  qed
qed

lemma show_nat_bounds: "n < 10 ^ length (show_nat n) \<and> (0 < n \<longrightarrow> 10 ^ (length (show_nat n) - 1) \<le> n)"
proof (induction n rule: show_nat.induct)
  case (1 n)
  show ?case
  proof (cases "n < 10")
    case False
    let ?l = "length (show_nat (n div 10))"
    have l: "length (show_nat n) = Suc ?l" "0 < ?l" using False by (simp_all add: show_nat.simps [of n])
    have "n div 10 < 10 ^ ?l" "10 ^ (?l - 1) \<le> n div 10" using 1 False by simp_all
    then have "n < 10 * 10 ^ ?l" "10 * 10 ^ (?l - 1) \<le> n" by linarith+
    then show ?thesis using l(2) by (simp add: l(1) power_eq_if)
  qed (simp add: show_nat.simps)
qed

lemma dec_expo_le: "0 < x \<Longrightarrow> power_int 10 (dec_expo x) \<le> x"
proof (cases "1 \<le> x")
  case True
  let ?n = "nat \<lfloor>x\<rfloor>"
  have "0 < ?n" using True by simp
  with show_nat_bounds [of ?n] have "10 ^ (length (show_nat ?n) - 1) \<le> ?n" by simp
  then have "rat_of_nat (10 ^ (length (show_nat ?n) - 1)) \<le> of_nat ?n" by (simp only: of_nat_le_iff)
  also have "\<dots> \<le> x" using True by simp
  finally have "10 ^ (length (show_nat ?n) - 1) \<le> x" by simp
  moreover have "nat (int (length (show_nat ?n)) - 1) = length (show_nat ?n) - 1" by linarith
  moreover have "0 \<le> int (length (show_nat ?n)) - 1" by (simp add: Suc_leI)
  ultimately show ?thesis using True by (simp add: dec_expo_def power_int_def)
next
  case False
  assume x: "0 < x"
  let ?n = "nat (\<lceil>1 / x\<rceil> - 1)"
  have "1 < 1 / x" using False x by simp
  then have "1 \<le> \<lceil>1 / x\<rceil> - 1" by linarith
  then have "rat_of_nat ?n = of_int (\<lceil>1 / x\<rceil> - 1)" by (intro of_nat_nat) linarith
  then have "1 / x \<le> of_nat ?n + 1" using le_of_int_ceiling [of "1 / x"] by simp
  also have "?n + 1 \<le> 10 ^ length (show_nat ?n)" using show_nat_bounds [of ?n] by (simp only: Suc_eq_plus1 [symmetric] Suc_le_eq)
  then have "rat_of_nat (?n + 1) \<le> of_nat (10 ^ length (show_nat ?n))" by (simp only: of_nat_le_iff)
  then have "rat_of_nat ?n + 1 \<le> 10 ^ length (show_nat ?n)" by simp
  finally have "1 \<le> x * 10 ^ length (show_nat ?n)" using x by (simp add: field_simps)
  then show ?thesis using False by (simp add: dec_expo_def power_int_minus field_simps)
qed

lemma dec_near_last:
  assumes "0 < x" "fl64 x = Fin x"
  shows "reads_back x (dec_expo x - 16) (dec_near x (dec_expo x - 16))"
proof -
  let ?t = "power_int (10 :: rat) (dec_expo x - 16)" and ?n = "dec_near x (dec_expo x - 16)"
  have t: "0 < ?t" "?t * 10 ^ 16 \<le> x"
    using dec_expo_le [OF assms(1)] by (simp_all add: power_int_diff)
  have "\<bar>of_int ?n - x / ?t\<bar> \<le> 1 / 2" using round_even_error [of "x / ?t"] by (simp add: dec_near_def)
  then have "\<bar>of_int ?n - x / ?t\<bar> * ?t \<le> 1 / 2 * ?t" using t(1) by (intro mult_right_mono) simp_all
  moreover have "\<bar>of_int ?n - x / ?t\<bar> * ?t = \<bar>(of_int ?n - x / ?t) * ?t\<bar>" using t(1) by (simp add: abs_mult)
  moreover have "(of_int ?n - x / ?t) * ?t = of_int ?n * ?t - x" using t(1) by (simp add: left_diff_distrib)
  ultimately have "\<bar>of_int ?n * ?t - x\<bar> * (2 * 10 ^ 16) \<le> x" using t by simp
  from fl64_close [OF assms this] show ?thesis by (simp add: reads_back_def)
qed

lemma dec_search_reads_back:
  assumes "0 < x" "fl64 x = Fin x" "dec_search x n q = (m, q')" "q - int n = dec_expo x - 16"
  shows "reads_back x q' m"
  using assms(3,4)
proof (induction n arbitrary: q)
  case (Suc n)
  then show ?case using Suc.IH [of "q - 1"] by (auto split: if_splits)
next
  case 0
  then have "q = dec_expo x - 16" by simp
  with 0 dec_near_last [OF assms(1,2)] show ?case by auto
qed

lemma strip_zeros_value: "strip_zeros m q = (m', q') \<Longrightarrow> rat_of_nat m' * power_int 10 q' = of_nat m * power_int 10 q"
proof (induction m q rule: strip_zeros.induct)
  case (1 m q)
  show ?case
  proof (cases "m \<noteq> 0 \<and> m mod 10 = 0")
    case True
    then have "m = 10 * (m div 10)" by presburger
    then have "rat_of_nat m = 10 * of_nat (m div 10)" by (metis of_nat_mult of_nat_numeral)
    with 1 True show ?thesis by (simp add: strip_zeros.simps [of m] power_int_add)
  qed (use 1 in \<open>auto simp: strip_zeros.simps [of m]\<close>)
qed

lemma round_even_nonneg: "0 \<le> x \<Longrightarrow> 0 \<le> round_even x"
proof -
  assume "0 \<le> x"
  then have "- 1 < rat_of_int (round_even x)" using round_even_error [of x] by linarith
  then show ?thesis by linarith
qed

lemma fl64_nonpos: "y \<le> 0 \<Longrightarrow> fl64 y = Fin z \<Longrightarrow> z \<le> 0"
proof (cases "y = 0")
  case False
  assume y: "y \<le> 0" "fl64 y = Fin z"
  have "0 \<le> rat_of_int (round_even (\<bar>y\<bar> / power_int 2 (grid \<bar>y\<bar>))) * power_int 2 (grid \<bar>y\<bar>)"
    using round_even_nonneg [of "\<bar>y\<bar> / power_int 2 (grid \<bar>y\<bar>)"] by simp
  with y False show ?thesis by (auto simp: fl64_def Let_def simp del: mult_minus_left split: if_splits)
qed (simp add: fl64_def)

lemma shortest_reads_back:
  assumes "0 < x" "fl64 x = Fin x" "shortest x = (m, q)"
  shows "fl64 (of_nat m * power_int 10 q) = Fin x"
proof -
  obtain n q0 where s: "dec_search x 16 (dec_expo x) = (n, q0)" by fastforce
  then have rb: "fl64 (of_int n * power_int 10 q0) = Fin x"
    using dec_search_reads_back [OF assms(1,2) s] by (simp add: reads_back_def)
  have "0 < of_int n * power_int (10 :: rat) q0" using fl64_nonpos [OF _ rb] assms(1) by linarith
  then have "0 < rat_of_int n" by (rule zero_less_mult_pos2) simp
  then have "rat_of_nat (nat n) = of_int n" by simp
  with rb s assms(3) strip_zeros_value [of "nat n" q0] show ?thesis by (simp add: shortest_def)
qed


section \<open>The text of a number\<close>

lemma is_digit_digit_char [simp]: "d < 10 \<Longrightarrow> is_digit (digit_char d)"
  by (simp add: is_digit_def)

lemma pad_digits_facts: "length (pad_digits n r) = n \<and> (\<forall>c \<in> set (pad_digits n r). is_digit c)"
  by (induction n arbitrary: r) auto

lemma read_pad_digits: "r < 10 ^ n \<Longrightarrow> read_digits a (pad_digits n r) = Some (a * 10 ^ n + r)"
proof (induction n arbitrary: r)
  case (Suc n)
  then have "read_digits a (pad_digits n (r div 10)) = Some (a * 10 ^ n + r div 10)" by (simp add: less_mult_imp_div_less mult.commute)
  then show ?case by (simp add: read_digits_append algebra_simps)
qed simp

text \<open>What follows the digits of a number: nothing, a point or an exponent.\<close>

definition no_digit :: "string \<Rightarrow> bool" where
  "no_digit r \<longleftrightarrow> r = [] \<or> \<not> is_digit (hd r)"

lemma takeWhile_digits:
  assumes "\<forall>c \<in> set s. is_digit c" "no_digit r"
  shows "takeWhile is_digit (s @ r) = s" "dropWhile is_digit (s @ r) = r"
  using assms by (cases r; simp add: no_digit_def takeWhile_append dropWhile_append takeWhile_eq_all_conv)+

lemma no_digit_simps [simp]:
  "no_digit []" "no_digit (CHR ''.'' # r)" "no_digit (exp_text k)" "no_digit (CHR ''e'' # r)"
  by (simp_all add: no_digit_def exp_text_def is_digit_def digit_val_def)

lemma hd_fixed_text [simp]: "fixed_text m n \<noteq> []" "hd (fixed_text m n @ r) \<noteq> CHR ''-''"
  by (simp_all add: fixed_text_def hd_append)

lemma digits_val_show_nat [simp]: "digits_val (show_nat n) = n"
  by (simp add: digits_val_def)

lemma digits_val_fixed: "digits_val (show_nat (m div 10 ^ n) @ pad_digits n (m mod 10 ^ n)) = m"
  by (simp only: digits_val_def read_digits_append read_digits_show_nat option.case read_pad_digits mod_less_divisor
      zero_less_power zero_less_numeral div_mult_mod_eq)

lemma exp_val_text [simp]: "exp_val [] = 0" "exp_val (exp_text k) = k"
  by (simp_all add: exp_val_def exp_text_def)

lemma num_value_parts:
  assumes i: "\<forall>c \<in> set i. is_digit c" and f: "\<forall>c \<in> set f. is_digit c" and e: "no_digit e" "e = [] \<or> hd e \<noteq> CHR ''.''"
    and s: "s = i @ (if f = [] then e else CHR ''.'' # f @ e)" "s \<noteq> []" "hd s \<noteq> CHR ''-''"
  shows "num_value s = of_nat (digits_val (i @ f)) * power_int 10 (exp_val e - int (length f))"
    "num_value (CHR ''-'' # s) = - of_nat (digits_val (i @ f)) * power_int 10 (exp_val e - int (length f))"
proof -
  have sign: "num_sign s = ([], s)" "num_sign (CHR ''-'' # s) = ([CHR ''-''], s)" using s(2,3) by (simp_all add: num_sign_def)
  have tw: "takeWhile is_digit s = i" "dropWhile is_digit s = (if f = [] then e else CHR ''.'' # f @ e)"
    unfolding s(1) by (simp_all only: takeWhile_digits [OF i] e no_digit_simps split: if_split) (simp_all add: e takeWhile_digits [OF i])
  let ?s2 = "dropWhile is_digit s"
  have dot: "(?s2 \<noteq> [] \<and> hd ?s2 = CHR ''.'') = (f \<noteq> [])" unfolding tw using e(2) by auto
  have frac: "(if f \<noteq> [] then takeWhile is_digit (tl ?s2) else []) = f" "(if f \<noteq> [] then dropWhile is_digit (tl ?s2) else ?s2) = e"
    unfolding tw using takeWhile_digits [OF f e(1)] by simp_all
  show "num_value s = of_nat (digits_val (i @ f)) * power_int 10 (exp_val e - int (length f))"
    "num_value (CHR ''-'' # s) = - of_nat (digits_val (i @ f)) * power_int 10 (exp_val e - int (length f))"
    by (simp_all only: num_value_def Let_def sign prod.case dot frac tw(1)) simp_all
qed

lemma num_value_fixed:
  assumes "e = [] \<or> e = exp_text k"
  shows "num_value (fixed_text m n @ e) = of_nat m * power_int 10 (exp_val e - int n)"
    "num_value (CHR ''-'' # fixed_text m n @ e) = - of_nat m * power_int 10 (exp_val e - int n)"
proof -
  let ?i = "show_nat (m div 10 ^ n)" and ?f = "pad_digits n (m mod 10 ^ n)"
  have e: "no_digit e" "e = [] \<or> hd e \<noteq> CHR ''.''" using assms by (auto simp: exp_text_def)
  have f: "length ?f = n" "\<forall>c \<in> set ?f. is_digit c" using pad_digits_facts by blast+
  then have "?f = [] \<longleftrightarrow> n = 0" by (metis length_0_conv)
  then have s: "fixed_text m n @ e = ?i @ (if ?f = [] then e else CHR ''.'' # ?f @ e)" by (simp add: fixed_text_def)
  have ne: "fixed_text m n @ e \<noteq> []" by simp
  note parts = num_value_parts [OF all_digits_show_nat f(2) e s ne hd_fixed_text(2), unfolded f(1) digits_val_fixed]
  show "num_value (fixed_text m n @ e) = of_nat m * power_int 10 (exp_val e - int n)"
    "num_value (CHR ''-'' # fixed_text m n @ e) = - of_nat m * power_int 10 (exp_val e - int n)"
    by (rule parts)+
qed

lemma num_int_show_nat: "no_digit r \<Longrightarrow> num_int (show_nat n @ r) = Some (show_nat n, r)"
proof (cases "hd (show_nat n) = CHR ''0''")
  case True
  then have "n = 0" by (rule hd_show_nat_zero)
  then have "show_nat n = ''0''" by (simp add: show_nat.simps digit_char_def char_zero)
  then show ?thesis by (simp add: num_int_def is_digit_def digit_val_def)
next
  case False
  assume "no_digit r"
  with False hd_show_nat_digit [of n] takeWhile_digits [OF all_digits_show_nat, of r n] show ?thesis
    by (simp add: num_int_def is_digit_def hd_append)
qed

lemma num_frac_digits:
  "\<forall>c \<in> set f. is_digit c \<Longrightarrow> no_digit e \<Longrightarrow> f \<noteq> [] \<Longrightarrow> num_frac (CHR ''.'' # f @ e) = Some (CHR ''.'' # f, e)"
  using takeWhile_digits [of f e] by (simp add: num_frac_def Let_def)

lemma takeWhile_show_nat [simp]: "takeWhile is_digit (show_nat n) = show_nat n" "dropWhile is_digit (show_nat n) = []"
  using all_digits_show_nat by (simp_all add: takeWhile_eq_all_conv)

lemma num_exp_text [simp]: "num_exp [] = Some ([], [])" "num_exp (exp_text k) = Some (exp_text k, [])"
  by (simp_all add: num_exp_def exp_text_def Let_def)

lemma parse_number_fixed:
  assumes "e = [] \<or> e = exp_text k"
  shows "(case num_int (fixed_text m n @ e) of None \<Rightarrow> None
     | Some (i, s2) \<Rightarrow> (case num_frac s2 of None \<Rightarrow> None
         | Some (f, s3) \<Rightarrow> (case num_exp s3 of None \<Rightarrow> None
             | Some (e, s4) \<Rightarrow> Some (sg @ i @ f @ e, s4)))) = Some (sg @ fixed_text m n @ e, [])"
proof -
  have e: "no_digit e" "num_exp e = Some (e, [])" "num_frac e = Some ([], e)"
    using assms num_exp_text(2) by (auto simp: num_frac_def exp_text_def)
  have "pad_digits n (m mod 10 ^ n) = [] \<longleftrightarrow> n = 0" using pad_digits_facts by (metis length_0_conv)
  with e show ?thesis
    using num_frac_digits [OF conjunct2 [OF pad_digits_facts] e(1), of n "m mod 10 ^ n"]
    by (simp add: fixed_text_def num_int_show_nat)
qed

lemma num_lit_fixed:
  assumes "e = [] \<or> e = exp_text k"
  shows "num_lit (fixed_text m n @ e)" "num_lit (CHR ''-'' # fixed_text m n @ e)"
  using hd_fixed_text(2) [of m n e] parse_number_fixed [OF assms, where m = m and n = n and sg = "[]"]
    parse_number_fixed [OF assms, where m = m and n = n and sg = "''-''"]
  by (simp_all add: num_lit_def parse_number_def num_sign_def)

lemma fl64_minus: "fl64 (- x) = f64_minus (fl64 x)"
  by (cases "x = 0") (auto simp: fl64_def Let_def sgn_minus)

lemma pos_text_form:
  assumes "shortest x = (m, q)"
  shows "\<exists>m' n e k. pos_text x = fixed_text m' n @ e \<and> (e = [] \<or> e = exp_text k) \<and>
    rat_of_nat m' * power_int 10 (exp_val e - int n) = of_nat m * power_int 10 q"
proof -
  let ?n = "length (show_nat m) - 1"
  consider "pos_text x = fixed_text m ?n @ exp_text (q + int ?n)" | "0 \<le> q" "pos_text x = fixed_text (m * 10 ^ nat q) 0 @ []"
    | "q < 0" "pos_text x = fixed_text m (nat (- q)) @ []"
  proof (cases "x < fl (1 / 10 ^ 6) \<or> 10 ^ 21 \<le> x")
    case False
    have "fixed_text (m * 10 ^ nat q) 0 = show_nat (m * 10 ^ nat q)" by (simp add: fixed_text_def)
    with False assms that(2,3) show thesis by (cases "0 \<le> q") (simp_all add: pos_text_def)
  qed (use assms that(1) in \<open>simp add: pos_text_def Let_def\<close>)
  then show ?thesis
  proof cases
    case 1
    then show ?thesis by (intro exI [of _ m] exI [of _ ?n] exI [of _ "exp_text (q + int ?n)"]) auto
  next
    case 2
    then show ?thesis by (intro exI [of _ "m * 10 ^ nat q"] exI [of _ 0] exI [of _ "[]"]) (auto simp: power_int_def)
  next
    case 3
    then show ?thesis by (intro exI [of _ m] exI [of _ "nat (- q)"] exI [of _ "[]"]) auto
  qed
qed

lemma float_text_reads_back:
  assumes "fl64 x = Fin x"
  shows "num_lit (float_text x)" "fl64 (num_value (float_text x)) = Fin x"
proof -
  have pos: "num_lit (pos_text y) \<and> num_lit (CHR ''-'' # pos_text y) \<and> fl64 (num_value (pos_text y)) = Fin y \<and>
      num_value (CHR ''-'' # pos_text y) = - num_value (pos_text y)" if y: "0 < y" "fl64 y = Fin y" for y
  proof -
    obtain m q where s: "shortest y = (m, q)" by fastforce
    obtain m' n e k where f: "pos_text y = fixed_text m' n @ e" "e = [] \<or> e = exp_text k"
        "rat_of_nat m' * power_int 10 (exp_val e - int n) = of_nat m * power_int 10 q"
      using pos_text_form [OF s] by blast
    show ?thesis
      using num_lit_fixed [OF f(2), of m' n] num_value_fixed [OF f(2), of m' n] shortest_reads_back [OF y s]
      by (simp add: f(1,3))
  qed
  have zero: "num_lit ''0''" "num_value ''0'' = 0"
    by (simp_all add: num_lit_def parse_number_def num_sign_def num_int_def num_frac_def num_exp_def is_digit_def digit_val_def
        num_value_def digits_val_def)
  have "num_lit (float_text x) \<and> fl64 (num_value (float_text x)) = Fin x"
  proof (cases "x < 0")
    case True
    then have "0 < - x" "fl64 (- x) = Fin (- x)" using assms by (simp_all add: fl64_minus)
    from pos [OF this] True show ?thesis by (simp add: float_text_def fl64_minus)
  qed (use pos [of x] assms zero in \<open>auto simp: float_text_def\<close>)
  then show "num_lit (float_text x)" "fl64 (num_value (float_text x)) = Fin x" by simp_all
qed

lemma json_float_field:
  assumes "fl64 x = Fin x"
  shows "json_float (Fin x) = Some (JNum (float_text x))" "json_ok (JNum (float_text x))"
    "float_field upd (JNum (float_text x)) s = Some (upd (Fin x) s)"
  by (simp_all add: json_float_def float_field_def float_text_reads_back [OF assms])

text \<open>Rounding is idempotent: what an operation returns is a \<open>float64\<close>.\<close>

definition is_f64 :: "f64 \<Rightarrow> bool" where
  "is_f64 v \<longleftrightarrow> (case v of Fin x \<Rightarrow> fl64 x = Fin x | _ \<Rightarrow> True)"

lemma fl64_integral:
  assumes "0 < y" "y = of_int k * power_int 2 (grid y)" "y < 2 ^ 1024"
  shows "fl64 y = Fin y"
proof -
  have "y / power_int 2 (grid y) = of_int k" using assms(2) by (metis nonzero_mult_div_cancel_right power_int_not_zero zero_neq_numeral)
  then show ?thesis using fl64_pos [OF assms(1), of k] assms(2,3) by simp
qed

lemma fl64_idem_pos:
  assumes "0 < x" "fl64 x = Fin y"
  shows "fl64 y = Fin y"
proof -
  define e where "e = max (expo x) (- 1022)"
  define g :: rat where "g = power_int 2 (e - 52)"
  define n where "n = round_even (x / g)"
  have g: "0 < g" by (simp add: g_def)
  have pow: "power_int (2 :: rat) (e + 1) = 2 ^ 53 * g"
    by (simp add: g_def add.commute power_int_add [symmetric] flip: power_int_numeral)
  have y: "y = of_int n * g" "y < 2 ^ 1024"
    using assms by (auto simp: fl64_def Let_def grid_def e_def g_def n_def split: if_splits)
  have "x < power_int 2 (e + 1)" by (rule less_le_trans [OF expo_bounds(2) [OF assms(1)]]) (simp add: e_def)
  then have "x / g < 2 ^ 53" using g unfolding pow by (simp add: pos_divide_less_eq)
  then have "rat_of_int n < 2 ^ 53 + 1" using round_even_error [of "x / g"] unfolding n_def by linarith
  then have "rat_of_int n < of_int (2 ^ 53 + 1)" by simp
  then have n: "n < 2 ^ 53 + 1" by (simp only: of_int_less_iff)
  have n0: "0 \<le> n" using round_even_nonneg [of "x / g"] assms(1) g by (simp add: n_def)
  consider "n = 0" | "n = 2 ^ 53" | "0 < n" "n < 2 ^ 53" using n n0 by linarith
  then show ?thesis
  proof cases
    case 2
    then have y2: "y = power_int 2 (e + 1)" using y(1) pow by simp
    then have "expo y = e + 1" using y2 by (intro expo_unique) simp_all
    then have q: "grid y = e - 51" by (simp add: grid_def e_def)
    have "power_int (2 :: rat) (e + 1) = of_int (2 ^ 52) * power_int 2 (e - 51)"
      using power_int_add [of "2 :: rat" 52 "e - 51"] by (simp add: add.commute)
    then have "y = of_int (2 ^ 52) * power_int 2 (grid y)" using y2 q by metis
    moreover have "0 < y" using y2 by simp
    ultimately show ?thesis using fl64_integral y(2) by blast
  next
    case 3
    then have ypos: "0 < y" using y(1) g by simp
    have "rat_of_int n < of_int (2 ^ 53)" using 3(2) by (simp only: of_int_less_iff)
    then have "y < power_int 2 (e + 1)" using g y(1) pow by simp
    then have "expo y < e + 1" using expo_bounds(1) [OF ypos] powi_less_iff [of 2 "expo y" "e + 1"] by linarith
    then have q: "grid y \<le> e - 52" by (auto simp: grid_def e_def)
    then have "g = 2 ^ nat (e - 52 - grid y) * power_int 2 (grid y)"
      by (simp add: g_def power_int_add [symmetric] flip: power_int_of_nat)
    then have "y = of_int (n * 2 ^ nat (e - 52 - grid y)) * power_int 2 (grid y)" using y(1) by simp
    from fl64_integral [OF ypos this y(2)] show ?thesis .
  qed (use y(1) in \<open>simp add: fl64_def\<close>)
qed

lemma is_f64_fl64 [simp]: "is_f64 (fl64 x)"
proof (cases "fl64 x")
  case (Fin y)
  show ?thesis
  proof (cases "x < 0")
    case True
    then have "fl64 (- x) = Fin (- y)" by (simp add: fl64_minus Fin)
    from fl64_idem_pos [OF _ this] True have "fl64 (- y) = Fin (- y)" by simp
    then have "fl64 y = Fin y" using fl64_minus [of "- y"] by simp
    then show ?thesis by (simp add: is_f64_def Fin)
  next
    case False
    then show ?thesis using fl64_idem_pos [OF _ Fin] Fin by (cases "x = 0") (auto simp: is_f64_def fl64_def)
  qed
qed (simp_all add: is_f64_def)

lemma f64_ops_closed [simp]: "is_f64 (f64_add a b)" "is_f64 (f64_mul a b)"
  by (cases a; cases b; simp; simp add: is_f64_def)+

end
