(* ===== verification/App_Frames.thy ===== *)
theory App_Frames
  imports Gateway Sender_Keys Go_Float64 "HOL-Library.List_Lexorder" "HOL-Library.Char_ord"
begin

text \<open>
  What the four programs under \<open>examples\<close> share: their frames, a type byte, a length in four bytes and a JSON payload;
  the loop of a server over one Noise session; the loop of the clients that wait for an answer to each message.  A
  slice expression out of range panics, so decoding returns a \<open>call\<close>.  Logging is left out.
\<close>

section \<open>Frames\<close>

definition app_frame :: "byte \<Rightarrow> bytes \<Rightarrow> bytes" where
  "app_frame msgType payload = msgType # be32 (of_nat (length payload)) @ payload"

text \<open>\<open>data[lo:hi]\<close> of a slice whose capacity is its length.\<close>

definition go_slice :: "bytes \<Rightarrow> nat \<Rightarrow> nat \<Rightarrow> bytes call" where
  "go_slice data lo hi =
     (if lo \<le> hi \<and> hi \<le> length data then Returns (take (hi - lo) (drop lo data))
      else Panic ''runtime error: slice bounds out of range'')"

definition payload_len :: "bytes \<Rightarrow> uint32" where
  "payload_len data = of_be32 (take 4 (drop 1 data))"

definition decodeFrame :: "bytes \<Rightarrow> (goerr + byte \<times> bytes) call" where
  "decodeFrame data =
     (if length data < 5 then Returns (Inl ''frame too short'')
      else if length data - 5 < unat (payload_len data) then Returns (Inl ''payload overflow'')
      else case go_slice data 5 (unat (5 + payload_len data)) of
          Panic e \<Rightarrow> Panic e | Returns p \<Rightarrow> Returns (Inr (data ! 0, p)))"

lemma app_frame_facts [simp]:
  "length (app_frame t p) = 5 + length p" "app_frame t p ! 0 = t" "drop 5 (app_frame t p) = p"
  "payload_len (app_frame t p) = of_nat (length p)"
  by (simp_all add: app_frame_def payload_len_def)

lemma unat_five_plus: "5 + n < 2 ^ 32 \<Longrightarrow> unat (5 + of_nat n :: uint32) = 5 + n"
  using unat_of_nat [of "5 + n", where ?'a = 32] by simp

lemma decodeFrame_frame: "5 + length p < 2 ^ 32 \<Longrightarrow> decodeFrame (app_frame t p) = Returns (Inr (t, p))"
  by (simp add: decodeFrame_def go_slice_def unat_five_plus unat_of_nat)

text \<open>The check on the length keeps \<open>decodeFrame\<close> from panicking, on anything shorter than four gigabytes.\<close>

lemma decodeFrame_returns:
  assumes "length data < 2 ^ 32"
  shows "\<exists>r. decodeFrame data = Returns r"
proof -
  let ?n = "unat (payload_len data)"
  consider "length data < 5" | "length data - 5 < ?n" | "5 + ?n \<le> length data" by linarith
  then show ?thesis
  proof cases
    case 3
    then have "unat (5 + payload_len data) = 5 + ?n" using unat_five_plus [of ?n] assms by simp
    with 3 show ?thesis by (simp add: decodeFrame_def go_slice_def)
  qed (simp_all add: decodeFrame_def)
qed

section \<open>Servers\<close>

text \<open>
  The loop of a handler.  \<open>handle\<close> takes the server's state and a decrypted message and returns the new state and
  what is answered, if anything is; the errors of \<open>Encrypt\<close> and of the writer are dropped, and the nil slice that comes
  with an error is written as an empty message.  \<open>None\<close> when the connection never ends.
\<close>

partial_function (option) app_loop ::
  "('h, 'c) noise_ops \<Rightarrow> 'io reader \<Rightarrow> 'io writer \<Rightarrow> ('s \<Rightarrow> bytes \<Rightarrow> ('s \<times> bytes option) call) \<Rightarrow> 'c NoiseSession \<Rightarrow> 's \<Rightarrow> 'io
     \<Rightarrow> ('s \<times> 'io) call option" where
  "app_loop N read write handle session s io =
     (case read io of
        (Inl _, io) \<Rightarrow> Some (Returns (s, io))
      | (Inr ct, io) \<Rightarrow>
          (case NoiseSession_Decrypt N session ct of
             (Inl _, session) \<Rightarrow> Some (Returns (s, io))
           | (Inr pt, session) \<Rightarrow>
               (case handle s pt of
                  Panic e \<Rightarrow> Some (Panic e)
                | Returns (s, None) \<Rightarrow> app_loop N read write handle session s io
                | Returns (s, Some answer) \<Rightarrow>
                    (let (r, session) = NoiseSession_Encrypt N session answer;
                         enc = (case r of Inl _ \<Rightarrow> [] | Inr e \<Rightarrow> e)
                     in app_loop N read write handle session s (snd (write enc io))))))"

definition app_serve ::
  "('h, 'c) noise_ops \<Rightarrow> ('s \<Rightarrow> 's) \<Rightarrow> ('s \<Rightarrow> bytes \<Rightarrow> ('s \<times> bytes option) call) \<Rightarrow> KeyPair \<Rightarrow> bytes \<Rightarrow> 'io reader \<Rightarrow> 'io writer
     \<Rightarrow> 's \<Rightarrow> 'io \<Rightarrow> ('s \<times> 'io) call option" where
  "app_serve N join handle key rnd read write s io =
     (case ServerHandshake N key rnd read write io of
        (Inl _, io) \<Rightarrow> Some (Returns (s, io))
      | (Inr session, io) \<Rightarrow> app_loop N read write handle session (join s) io)"

text \<open>What the handler makes of a list of messages.\<close>

fun app_run :: "('s \<Rightarrow> bytes \<Rightarrow> ('s \<times> bytes option) call) \<Rightarrow> 's \<Rightarrow> bytes list \<Rightarrow> ('s \<times> bytes list) call" where
  "app_run handle s [] = Returns (s, [])"
| "app_run handle s (p # ps) =
     (case handle s p of Panic e \<Rightarrow> Panic e
      | Returns (s, r) \<Rightarrow>
          (case app_run handle s ps of Panic e \<Rightarrow> Panic e
           | Returns (s, rs) \<Rightarrow> Returns (s, (case r of None \<Rightarrow> rs | Some a \<Rightarrow> a # rs))))"

lemma app_loop_pipe:
  assumes N: "noise_cipher N paired"
  shows "paired (Send c) (Recv s) \<Longrightarrow> encrypt_all N c ps = (Inr cts, c') \<Longrightarrow> app_run handle st ps = Returns (st', rs) \<Longrightarrow>
    encrypt_all N s rs = (Inr es, s') \<Longrightarrow>
    app_loop N pipe_read pipe_write handle s st \<lparr>incoming = cts, outgoing = out\<rparr>
      = Some (Returns (st', \<lparr>incoming = [], outgoing = out @ es\<rparr>))"
proof (induction ps arbitrary: c s s' st cts rs es out)
  case Nil
  then show ?case by (subst app_loop.simps) simp
next
  case (Cons p ps)
  obtain ct c1 cts' where ct: "NoiseSession_Encrypt N c p = (Inr ct, c1)"
    "encrypt_all N c1 ps = (Inr cts', c')" "cts = ct # cts'"
    using Cons.prems(2) unfolding encrypt_all_Cons by blast
  obtain x where x: "NoiseSession_Decrypt N s ct = (Inr p, s\<lparr>Recv := x\<rparr>)" "paired (Send c1) x"
    using half_sync [OF N Cons.prems(1) ct(1)] by blast
  obtain st1 r rs1 where r: "handle st p = Returns (st1, r)" "app_run handle st1 ps = Returns (st', rs1)"
      "rs = (case r of None \<Rightarrow> rs1 | Some a \<Rightarrow> a # rs1)"
    using Cons.prems(3) by (auto split: call.splits prod.splits)
  show ?case
  proof (cases r)
    case None
    have "app_loop N pipe_read pipe_write handle (s\<lparr>Recv := x\<rparr>) st1 \<lparr>incoming = cts', outgoing = out\<rparr>
        = Some (Returns (st', \<lparr>incoming = [], outgoing = out @ es\<rparr>))"
      by (rule Cons.IH [OF _ ct(2) r(2) encrypt_all_Recv]) (use x(2) Cons.prems(4) r(3) None in auto)
    then show ?thesis by (subst app_loop.simps) (simp add: ct(3) x(1) r(1) None)
  next
    case (Some a)
    obtain e s2 es' where e: "NoiseSession_Encrypt N s a = (Inr e, s2)" "encrypt_all N s2 rs1 = (Inr es', s')" "es = e # es'"
      using Cons.prems(4) unfolding r(3) Some option.case encrypt_all_Cons by blast
    have "app_loop N pipe_read pipe_write handle (s2\<lparr>Recv := x\<rparr>) st1 \<lparr>incoming = cts', outgoing = out @ [e]\<rparr>
        = Some (Returns (st', \<lparr>incoming = [], outgoing = (out @ [e]) @ es'\<rparr>))"
      by (rule Cons.IH [OF _ ct(2) r(2) encrypt_all_Recv [OF e(2)]]) (simp add: x(2))
    then show ?thesis
      by (subst app_loop.simps) (simp add: ct(3) x(1) r(1) Some Encrypt_Recv [OF e(1)] e(3))
  qed
qed

text \<open>
  The messages of a handshake between a client and a server, and the two sessions it gives them.
\<close>

definition app_link ::
  "('c \<Rightarrow> 'c \<Rightarrow> bool) \<Rightarrow> ('h, 'c) noise_ops \<Rightarrow> KeyPair \<Rightarrow> bytes \<Rightarrow> KeyPair \<Rightarrow> bytes \<Rightarrow> bytes \<Rightarrow> bytes \<Rightarrow> bytes
     \<Rightarrow> 'c NoiseSession \<Rightarrow> 'c NoiseSession \<Rightarrow> bool" where
  "app_link paired N kI rI kR rR m1 m2 m3 c s \<longleftrightarrow>
     (\<forall>rest. ClientHandshake N kI rI pipe_read pipe_write \<lparr>incoming = m2 # rest, outgoing = []\<rparr>
       = (Inr c, \<lparr>incoming = rest, outgoing = [m1, m3]\<rparr>)) \<and>
     (\<forall>rest. ServerHandshake N kR rR pipe_read pipe_write \<lparr>incoming = m1 # m3 # rest, outgoing = []\<rparr>
       = (Inr s, \<lparr>incoming = rest, outgoing = [m2]\<rparr>)) \<and> mirrored paired c s"

lemma app_link_exists:
  assumes "noise_xx N paired" "nz_NewHandshakeState N True kI rI = Inr i0" "nz_NewHandshakeState N False kR rR = Inr r0"
  obtains m1 m2 m3 c s where "app_link paired N kI rI kR rR m1 m2 m3 c s"
  using handshake_pipe [OF assms] unfolding app_link_def by blast

text \<open>Over such a link the client decrypts what the handler answered to its messages, or the handler panics.\<close>

lemma app_link_run:
  assumes "noise_xx N paired" "app_link paired N kI rI kR rR m1 m2 m3 c s" "encrypt_all N c ps = (Inr cts, c')"
    and "app_run handle (join st) ps = Returns (st', rs)" "encrypt_all N s rs = (Inr es, s')"
  shows "app_serve N join handle kR rR pipe_read pipe_write st \<lparr>incoming = m1 # m3 # cts, outgoing = []\<rparr>
      = Some (Returns (st', \<lparr>incoming = [], outgoing = m2 # es\<rparr>))"
    and "\<exists>c''. decrypt_all N c' es = (Inr rs, c'')"
proof -
  have N: "noise_cipher N paired" using assms(1) by (rule noise_xx.axioms)
  have m: "paired (Send c) (Recv s)" "paired (Send s) (Recv c)" using assms(2) by (simp_all add: app_link_def mirrored_def)
  have "app_loop N pipe_read pipe_write handle s (join st) \<lparr>incoming = cts, outgoing = [m2]\<rparr>
      = Some (Returns (st', \<lparr>incoming = [], outgoing = [m2] @ es\<rparr>))"
    by (rule app_loop_pipe [OF N m(1) assms(3-5)])
  with assms(2) show "app_serve N join handle kR rR pipe_read pipe_write st \<lparr>incoming = m1 # m3 # cts, outgoing = []\<rparr>
      = Some (Returns (st', \<lparr>incoming = [], outgoing = m2 # es\<rparr>))" by (simp add: app_serve_def app_link_def)
  have "Recv c' = Recv c" by (rule encrypt_all_keeps [OF assms(3)])
  with half_sessions_sync [OF N _ assms(5), of c'] m(2) show "\<exists>c''. decrypt_all N c' es = (Inr rs, c'')" by simp
qed

lemma app_link_panic:
  assumes "noise_xx N paired" "app_link paired N kI rI kR rR m1 m2 m3 c s" "NoiseSession_Encrypt N c p = (Inr ct, c')"
    and "handle (join st) p = Panic e"
  shows "app_serve N join handle kR rR pipe_read pipe_write st \<lparr>incoming = m1 # m3 # ct # rest, outgoing = []\<rparr> = Some (Panic e)"
proof -
  have N: "noise_cipher N paired" using assms(1) by (rule noise_xx.axioms)
  have "paired (Send c) (Recv s)" using assms(2) by (simp add: app_link_def mirrored_def)
  from half_sync [OF N this assms(3)] assms(2,4) show ?thesis
    by (auto simp: app_serve_def app_link_def app_loop.simps)
qed

text \<open>A link over the ChaCha instance, whose sessions encrypt their first message.\<close>

lemma xx_fresh:
  "xx_write hs p = (Inr (m, Some c1, Some c2), hs') \<Longrightarrow> snd c1 = 0 \<and> snd c2 = 0"
  "xx_read hs p = (Inr (m, Some c1, Some c2), hs') \<Longrightarrow> snd c1 = 0 \<and> snd c2 = 0"
  by (auto simp: xx_write_def xx_read_def sym_split_def Let_def split: if_splits prod.splits sum.splits)

lemma chacha_fresh:
  "ClientHandshake noise_chacha k r pipe_read pipe_write io = (Inr c, io') \<Longrightarrow> snd (Send c) = 0"
  "ServerHandshake noise_chacha k r pipe_read pipe_write io = (Inr c, io') \<Longrightarrow> snd (Send c) = 0"
  by (auto simp: ClientHandshake_def ServerHandshake_def noise_chacha_def Let_def dest: xx_fresh
      split: sum.splits prod.splits option.splits if_splits)

lemma chacha_encrypts:
  "snd (Send c) = 0 \<Longrightarrow> \<exists>ct c'. NoiseSession_Encrypt noise_chacha c p = (Inr ct, c')"
  by (cases "Send c") (simp add: NoiseSession_Encrypt_def noise_chacha_def cs_encrypt_def)

lemma chacha_link:
  obtains m1 m2 m3 c s where
    "app_link cs_paired noise_chacha \<lparr>Private = [1], Public = [2]\<rparr> [3] \<lparr>Private = [4], Public = [5]\<rparr> [6] m1 m2 m3 c s"
    "snd (Send c) = 0" "snd (Send s) = 0"
proof -
  obtain i0 r0 where new: "nz_NewHandshakeState noise_chacha True \<lparr>Private = [1], Public = [2]\<rparr> [3] = Inr i0"
    "nz_NewHandshakeState noise_chacha False \<lparr>Private = [4], Public = [5]\<rparr> [6] = Inr r0"
    by (simp add: noise_chacha_def xx_new_def)
  from app_link_exists [OF nxx.noise_xx_axioms new] show ?thesis
    using that chacha_fresh unfolding app_link_def by metis
qed

section \<open>Clients\<close>

text \<open>
  A client that sends its messages one by one and waits for the answer to each: the error it exits with, if any, and the
  frames it decoded.  The errors of \<open>Encrypt\<close>, \<open>Decrypt\<close> and \<open>decodeFrame\<close> are dropped with the zero values beside them.
\<close>

fun client_loop ::
  "('h, 'c) noise_ops \<Rightarrow> 'io reader \<Rightarrow> 'io writer \<Rightarrow> (bytes \<Rightarrow> (goerr + byte \<times> bytes) call) \<Rightarrow> 'c NoiseSession \<Rightarrow> bytes list
     \<Rightarrow> 'io \<Rightarrow> (goerr option \<times> (byte \<times> bytes) list \<times> 'io) call" where
  "client_loop N read write decode session [] io = Returns (None, [], io)"
| "client_loop N read write decode session (msg # msgs) io =
     (let (r, session) = NoiseSession_Encrypt N session msg; ct = (case r of Inl _ \<Rightarrow> [] | Inr e \<Rightarrow> e) in
      case write ct io of (Some e, io) \<Rightarrow> Returns (Some (''write: '' @ e), [], io)
      | (None, io) \<Rightarrow>
      (case read io of (Inl e, io) \<Rightarrow> Returns (Some (''read: '' @ e), [], io)
       | (Inr respCT, io) \<Rightarrow>
          (let (r, session) = NoiseSession_Decrypt N session respCT; respPT = (case r of Inl _ \<Rightarrow> [] | Inr p \<Rightarrow> p) in
           case decode respPT of Panic e \<Rightarrow> Panic e
           | Returns resp \<Rightarrow>
               (let frame = (case resp of Inl _ \<Rightarrow> (0, []) | Inr f \<Rightarrow> f) in
                case client_loop N read write decode session msgs io of Panic e \<Rightarrow> Panic e
                | Returns (err, frames, io) \<Rightarrow> Returns (err, frame # frames, io)))))"

definition app_client ::
  "('h, 'c) noise_ops \<Rightarrow> (bytes \<Rightarrow> (goerr + byte \<times> bytes) call) \<Rightarrow> bytes list \<Rightarrow> KeyPair \<Rightarrow> bytes \<Rightarrow> 'io reader \<Rightarrow> 'io writer
     \<Rightarrow> 'io \<Rightarrow> (goerr option \<times> (byte \<times> bytes) list \<times> 'io) call" where
  "app_client N decode msgs key rnd read write io =
     (case ClientHandshake N key rnd read write io of
        (Inl e, io) \<Rightarrow> Returns (Some (''handshake: '' @ e), [], io)
      | (Inr session, io) \<Rightarrow> client_loop N read write decode session msgs io)"

section \<open>Maps in JSON\<close>

text \<open>
  A Go map is its list of entries in the order of its keys, in which \<open>encoding/json\<close> writes them; nil is \<open>None\<close>.
\<close>

definition put_sorted :: "string \<Rightarrow> 'v \<Rightarrow> (string \<times> 'v) list \<Rightarrow> (string \<times> 'v) list" where
  "put_sorted k v m = filter (\<lambda>(x, _). x < k) m @ (k, v) # filter (\<lambda>(x, _). k < x) m"

fun put_members :: "(json \<Rightarrow> 'v option) \<Rightarrow> (string \<times> json) list \<Rightarrow> (string \<times> 'v) list \<Rightarrow> (string \<times> 'v) list option" where
  "put_members rd [] m = Some m"
| "put_members rd ((k, j) # ms) m = (case rd j of None \<Rightarrow> None | Some v \<Rightarrow> put_members rd ms (put_sorted k v m))"

definition map_field ::
  "(json \<Rightarrow> 'v option) \<Rightarrow> ('s \<Rightarrow> (string \<times> 'v) list option) \<Rightarrow> ((string \<times> 'v) list option \<Rightarrow> 's \<Rightarrow> 's) \<Rightarrow> 's field" where
  "map_field rd get upd j s =
     (case j of JNull \<Rightarrow> Some (upd None s)
      | JObj ms \<Rightarrow> map_option (\<lambda>m. upd (Some m) s) (put_members rd ms (case get s of None \<Rightarrow> [] | Some m \<Rightarrow> m))
      | _ \<Rightarrow> None)"

definition float_val :: "json \<Rightarrow> f64 option" where
  "float_val j = float_field (\<lambda>x _. x) j (Fin 0)"

lemma put_sorted_last: "\<forall>x \<in> fst ` set m. x < k \<Longrightarrow> put_sorted k v m = m @ [(k, v)]"
proof -
  assume m: "\<forall>x \<in> fst ` set m. x < k"
  then have "filter (\<lambda>(x, _). x < k) m = m" by (intro filter_True) auto
  moreover have "filter (\<lambda>(x, _). k < x) m = []" using m by (intro filter_False) (auto dest: less_not_sym)
  ultimately show ?thesis by (simp add: put_sorted_def)
qed

lemma put_members_sorted:
  assumes "sorted_wrt (<) (map fst (m @ es))" "\<forall>(k, v) \<in> set es. rd (f v) = Some v"
  shows "put_members rd (map (\<lambda>(k, v). (k, f v)) es) m = Some (m @ es)"
  using assms
proof (induction es arbitrary: m)
  case (Cons e es)
  obtain k v where e: "e = (k, v)" by fastforce
  have "put_sorted k v m = m @ [(k, v)]"
    using Cons.prems(1) by (intro put_sorted_last) (auto simp: e sorted_wrt_append)
  with Cons.IH [of "m @ [(k, v)]"] Cons.prems show ?case by (simp add: e)
qed simp

end
