(* ===== verification/App_Telemetry.thy ===== *)
theory App_Telemetry
  imports App_Frames
begin

text \<open>
  \<open>examples/iot-telemetry\<close>: devices send readings over Noise sessions, the server keeps the last thousand of each device
  and acknowledges every reading.
\<close>

section \<open>messages.go\<close>

definition MsgTelemetry :: byte where "MsgTelemetry = 1"
definition MsgControlCommand :: byte where "MsgControlCommand = 2"

record Telemetry =
  tm_DeviceID :: string
  tm_SensorData :: "(string \<times> f64) list option"
  tm_TimestampMs :: int

record ControlCommand =
  cc_DeviceID :: string
  cc_Action :: string
  cc_Params :: "(string \<times> string) list option"

text \<open>Marshalling fails on a reading that is not finite.\<close>

definition sensor_json :: "(string \<times> f64) list option \<Rightarrow> json option" where
  "sensor_json m = (case m of None \<Rightarrow> Some JNull
     | Some es \<Rightarrow> map_option JObj (those (map (\<lambda>(k, v). map_option (Pair k) (json_float v)) es)))"

definition encodeTelemetry :: "Telemetry \<Rightarrow> goerr + bytes" where
  "encodeTelemetry t =
     (case sensor_json (tm_SensorData t) of None \<Rightarrow> Inl ''json: unsupported value''
      | Some j \<Rightarrow> Inr (app_frame MsgTelemetry (string_to_bytes (json_print (JObj
          [(''device_id'', JStr (tm_DeviceID t)), (''sensor_data'', j), (''timestamp_ms'', JNum (show_int (tm_TimestampMs t)))])))))"

definition encodeCommand :: "ControlCommand \<Rightarrow> goerr + bytes" where
  "encodeCommand c = Inr (app_frame MsgControlCommand (string_to_bytes (json_print (JObj
     ([(''device_id'', JStr (cc_DeviceID c)), (''action'', JStr (cc_Action c))] @
      (case cc_Params c of None \<Rightarrow> [] | Some [] \<Rightarrow> []
       | Some ps \<Rightarrow> [(''params'', JObj (map (\<lambda>(k, v). (k, JStr v)) ps))]))))))"

text \<open>No check on the length: a slice expression out of range panics.\<close>

definition decodeMessage :: "bytes \<Rightarrow> (byte \<times> bytes) call" where
  "decodeMessage data =
     (if length data < 5 then Returns (0, [])
      else case go_slice data 5 (unat (5 + payload_len data)) of
          Panic e \<Rightarrow> Panic e | Returns p \<Rightarrow> Returns (data ! 0, p))"

definition telemetry_fields :: "(string \<times> Telemetry field) list" where
  "telemetry_fields =
     [(''device_id'', str_field (\<lambda>v t. t\<lparr>tm_DeviceID := v\<rparr>)),
      (''sensor_data'', map_field float_val tm_SensorData (\<lambda>m t. t\<lparr>tm_SensorData := m\<rparr>)),
      (''timestamp_ms'', int64_field (\<lambda>v t. t\<lparr>tm_TimestampMs := v\<rparr>))]"

section \<open>server.go\<close>

record telemetryStore =
  ts_records :: "(string \<times> Telemetry list) list"

definition newStore :: telemetryStore where
  "newStore = \<lparr>ts_records = []\<rparr>"

definition store_get :: "telemetryStore \<Rightarrow> string \<Rightarrow> Telemetry list" where
  "store_get s d = (case map_of (ts_records s) d of None \<Rightarrow> [] | Some ts \<Rightarrow> ts)"

definition store_add :: "telemetryStore \<Rightarrow> Telemetry \<Rightarrow> telemetryStore" where
  "store_add s t =
     (let d = tm_DeviceID t; s = s\<lparr>ts_records := AList.update d (store_get s d @ [t]) (ts_records s)\<rparr>;
          n = length (store_get s d)
      in if n > 1000 then s\<lparr>ts_records := AList.update d (drop (n - 1000) (store_get s d)) (ts_records s)\<rparr> else s)"

definition store_count :: "telemetryStore \<Rightarrow> string \<Rightarrow> nat" where
  "store_count s d = length (store_get s d)"

definition telemetry_ack :: "Telemetry \<Rightarrow> ControlCommand" where
  "telemetry_ack t = \<lparr>cc_DeviceID = tm_DeviceID t, cc_Action = ''ack'', cc_Params = Some [(''count'', ''1'')]\<rparr>"

definition empty_telemetry :: Telemetry where
  "empty_telemetry = \<lparr>tm_DeviceID = [], tm_SensorData = None, tm_TimestampMs = 0\<rparr>"

text \<open>The body of the loop of \<open>handleDevice\<close>, after decryption.\<close>

definition device_message :: "telemetryStore \<Rightarrow> bytes \<Rightarrow> (telemetryStore \<times> bytes option) call" where
  "device_message store pt =
     (case decodeMessage pt of Panic e \<Rightarrow> Panic e
      | Returns (msgType, payload) \<Rightarrow>
          if msgType = MsgTelemetry then
            (case json_unmarshal telemetry_fields (bytes_to_string payload) empty_telemetry of
               (t, True) \<Rightarrow> Returns (store, None)
             | (t, False) \<Rightarrow> Returns (store_add store t,
                 Some (case encodeCommand (telemetry_ack t) of Inl _ \<Rightarrow> [] | Inr b \<Rightarrow> b)))
          else Returns (store, None))"

definition handleDevice ::
  "('h, 'c) noise_ops \<Rightarrow> KeyPair \<Rightarrow> bytes \<Rightarrow> 'io reader \<Rightarrow> 'io writer \<Rightarrow> telemetryStore \<Rightarrow> 'io
     \<Rightarrow> (telemetryStore \<times> 'io) call option" where
  "handleDevice N = app_serve N (\<lambda>s. s) device_message"

text \<open>The ten readings of the client, at the times \<open>now\<close>; Go's constants are rounded to \<open>float64\<close>.\<close>

definition client_reading :: "string \<Rightarrow> (nat \<Rightarrow> int) \<Rightarrow> nat \<Rightarrow> Telemetry" where
  "client_reading deviceID now i = \<lparr>tm_DeviceID = deviceID,
     tm_SensorData = Some
       [(''humidity'', f64_sub (Fin 55) (f64_mul (Fin (of_nat i)) (Fin (1 / 2)))),
        (''pressure'', fl64 (101325 / 100)),
        (''temperature'', f64_add (Fin (45 / 2)) (f64_mul (Fin (of_nat i)) (fl64 (1 / 10))))],
     tm_TimestampMs = now i\<rparr>"

definition iot_runClient ::
  "('h, 'c) noise_ops \<Rightarrow> string \<Rightarrow> (nat \<Rightarrow> int) \<Rightarrow> KeyPair \<Rightarrow> bytes \<Rightarrow> 'io reader \<Rightarrow> 'io writer \<Rightarrow> 'io
     \<Rightarrow> (goerr option \<times> (byte \<times> bytes) list \<times> 'io) call" where
  "iot_runClient N deviceID now =
     app_client N (\<lambda>pt. case decodeMessage pt of Panic e \<Rightarrow> Panic e | Returns f \<Rightarrow> Returns (Inr f))
       (map (\<lambda>i. case encodeTelemetry (client_reading deviceID now i) of Inl _ \<Rightarrow> [] | Inr b \<Rightarrow> b) [0..<10])"

section \<open>Frames and readings\<close>

lemma decodeMessage_frame: "5 + length p < 2 ^ 32 \<Longrightarrow> decodeMessage (app_frame t p) = Returns (t, p)"
  by (simp add: decodeMessage_def go_slice_def unat_five_plus)

lemma decodeMessage_short: "length data < 5 \<Longrightarrow> decodeMessage data = Returns (0, [])"
  by (simp add: decodeMessage_def)

definition telemetry_ok :: "Telemetry \<Rightarrow> bool" where
  "telemetry_ok t \<longleftrightarrow> ascii (tm_DeviceID t) \<and> in_int64 (tm_TimestampMs t) \<and>
     (case tm_SensorData t of None \<Rightarrow> True
      | Some m \<Rightarrow> sorted_wrt (<) (map fst m) \<and> (\<forall>(k, v) \<in> set m. ascii k \<and> is_f64 v \<and> (\<exists>x. v = Fin x)))"

definition fin_json :: "f64 \<Rightarrow> json" where
  "fin_json v = (case v of Fin x \<Rightarrow> JNum (float_text x) | _ \<Rightarrow> JNull)"

lemma fin_json_ok:
  "is_f64 (Fin x) \<Longrightarrow> json_float (Fin x) = Some (fin_json (Fin x)) \<and> json_ok (fin_json (Fin x)) \<and> float_val (fin_json (Fin x)) = Some (Fin x)"
  using json_float_field [of x] by (simp add: is_f64_def fin_json_def float_val_def)

lemma those_map_Some: "\<forall>x \<in> set xs. f x = Some (g x) \<Longrightarrow> those (map f xs) = Some (map g xs)"
  by (induction xs) simp_all

lemma sensor_roundtrip:
  assumes "sorted_wrt (<) (map fst m)" "\<forall>(k, v) \<in> set m. ascii k \<and> is_f64 v \<and> (\<exists>x. v = Fin x)"
  shows "sensor_json (Some m) = Some (JObj (map (\<lambda>(k, v). (k, fin_json v)) m))"
    "json_ok (JObj (map (\<lambda>(k, v). (k, fin_json v)) m))"
    "put_members float_val (map (\<lambda>(k, v). (k, fin_json v)) m) [] = Some m"
proof -
  have v: "json_float v = Some (fin_json v) \<and> json_ok (fin_json v) \<and> float_val (fin_json v) = Some v" if "(k, v) \<in> set m" for k v
    using fin_json_ok assms(2) that by fastforce
  show "sensor_json (Some m) = Some (JObj (map (\<lambda>(k, v). (k, fin_json v)) m))"
  proof -
    have "those (map (\<lambda>(k, v). map_option (Pair k) (json_float v)) m) = Some (map (\<lambda>(k, v). (k, fin_json v)) m)"
      by (intro those_map_Some) (use v in auto)
    then show ?thesis by (simp add: sensor_json_def)
  qed
  show "json_ok (JObj (map (\<lambda>(k, v). (k, fin_json v)) m))" using v assms(2) by auto
  show "put_members float_val (map (\<lambda>(k, v). (k, fin_json v)) m) [] = Some m"
    using put_members_sorted [of "[]" m float_val fin_json] assms(1) v by auto
qed

lemma sensor_field:
  assumes "telemetry_ok t"
  shows "\<exists>j. sensor_json (tm_SensorData t) = Some j \<and> json_ok j \<and>
    (\<forall>s :: Telemetry. tm_SensorData s = None \<longrightarrow>
      map_field float_val tm_SensorData (\<lambda>m t. t\<lparr>tm_SensorData := m\<rparr>) j s = Some (s\<lparr>tm_SensorData := tm_SensorData t\<rparr>))"
proof (cases "tm_SensorData t")
  case (Some m)
  then have "sorted_wrt (<) (map fst m)" "\<forall>(k, v) \<in> set m. ascii k \<and> is_f64 v \<and> (\<exists>x. v = Fin x)"
    using assms by (simp_all add: telemetry_ok_def)
  from sensor_roundtrip [OF this] Some show ?thesis by (auto simp: map_field_def)
qed (auto simp: sensor_json_def map_field_def)

lemma telemetry_roundtrip:
  assumes "telemetry_ok t" "encodeTelemetry t = Inr f"
  shows "\<exists>payload. f = app_frame MsgTelemetry payload \<and>
    json_unmarshal telemetry_fields (bytes_to_string payload) empty_telemetry = (t, False)"
proof -
  obtain j where j: "sensor_json (tm_SensorData t) = Some j" "json_ok j"
      "\<forall>s :: Telemetry. tm_SensorData s = None \<longrightarrow>
        map_field float_val tm_SensorData (\<lambda>m t. t\<lparr>tm_SensorData := m\<rparr>) j s = Some (s\<lparr>tm_SensorData := tm_SensorData t\<rparr>)"
    using sensor_field [OF assms(1)] by blast
  let ?ms = "[(''device_id'', JStr (tm_DeviceID t)), (''sensor_data'', j), (''timestamp_ms'', JNum (show_int (tm_TimestampMs t)))]"
  have ok: "json_ok (JObj ?ms)" and ts: "in_int64 (tm_TimestampMs t)"
    using assms(1) j(2) by (simp_all add: telemetry_ok_def ascii_def code_def)
  have "decode_members telemetry_fields ?ms empty_telemetry = (t, False)"
    using j(3) [rule_format, of "\<lparr>tm_DeviceID = tm_DeviceID t, tm_SensorData = None, tm_TimestampMs = 0\<rparr>"] ts
    by (simp add: telemetry_fields_def empty_telemetry_def)
  then have "json_unmarshal telemetry_fields (json_print (JObj ?ms)) empty_telemetry = (t, False)"
    by (simp only: json_unmarshal_print [OF ok])
  with assms(2) j(1) show ?thesis by (auto simp: encodeTelemetry_def simp del: json_print.simps)
qed

text \<open>A run of the server over the readings of a device, or of several: all are stored and acknowledged, in order.\<close>

definition ack_frame :: "Telemetry \<Rightarrow> bytes" where
  "ack_frame t = (case encodeCommand (telemetry_ack t) of Inl _ \<Rightarrow> [] | Inr b \<Rightarrow> b)"

lemma device_message_reading:
  assumes "telemetry_ok t" "encodeTelemetry t = Inr f" "length f < 2 ^ 32"
  shows "device_message store f = Returns (store_add store t, Some (ack_frame t))"
proof -
  obtain p where "f = app_frame MsgTelemetry p" "json_unmarshal telemetry_fields (bytes_to_string p) empty_telemetry = (t, False)"
    using telemetry_roundtrip [OF assms(1,2)] by blast
  with assms(3) show ?thesis by (simp add: device_message_def decodeMessage_frame ack_frame_def)
qed

lemma readings_run:
  assumes "\<forall>t \<in> set ts. telemetry_ok t" "list_all2 (\<lambda>t f. encodeTelemetry t = Inr f \<and> length f < 2 ^ 32) ts fs"
  shows "app_run device_message store fs = Returns (fold (\<lambda>t s. store_add s t) ts store, map ack_frame ts)"
  using assms(2,1)
proof (induction ts fs arbitrary: store rule: list_all2_induct)
  case (Cons t ts f fs)
  then have "device_message store f = Returns (store_add store t, Some (ack_frame t))"
    by (intro device_message_reading) simp_all
  with Cons show ?case by simp
qed simp

text \<open>The store is a window on the list of all readings.\<close>

definition last_n :: "nat \<Rightarrow> 'a list \<Rightarrow> 'a list" where
  "last_n n xs = drop (length xs - n) xs"

lemma store_get_add:
  "store_get (store_add s t) d = (if d = tm_DeviceID t then last_n 1000 (store_get s d @ [t]) else store_get s d)"
  by (auto simp: store_add_def store_get_def Let_def update_conv last_n_def)

lemma last_n_step: "0 < n \<Longrightarrow> last_n n (last_n n xs @ [x]) = last_n n (xs @ [x])"
  by (cases "length xs \<le> n") (simp_all add: last_n_def Suc_diff_le)

lemma fold_store_add:
  "store_get (fold (\<lambda>t s. store_add s t) ts newStore) d = last_n 1000 (filter (\<lambda>t. tm_DeviceID t = d) ts)"
proof (induction ts rule: rev_induct)
  case (snoc t ts)
  then show ?case by (auto simp: store_get_add last_n_step)
qed (simp add: newStore_def store_get_def last_n_def)


lemma decodeMessage_panics:
  assumes "5 \<le> length data" "length data < 2 ^ 32"
  shows "(\<exists>e. decodeMessage data = Panic e) \<longleftrightarrow> length data - 5 < unat (payload_len data)"
proof (cases "5 + unat (payload_len data) < 2 ^ 32")
  case True
  then have "unat (5 + payload_len data) = 5 + unat (payload_len data)" using unat_five_plus [of "unat (payload_len data)"] by simp
  with assms show ?thesis by (auto simp: decodeMessage_def go_slice_def)
next
  case False
  let ?n = "unat (payload_len data)"
  have n: "?n < 2 ^ 32" using unsigned_less [of "payload_len data"] by simp
  have "unat (5 + payload_len data) = (5 + ?n) mod 2 ^ 32" by (simp add: unat_word_ariths)
  also have "\<dots> = 5 + ?n - 2 ^ 32" using False n by (simp add: mod_if)
  finally have "unat (5 + payload_len data) < 5" using n by simp
  with assms False show ?thesis by (simp add: decodeMessage_def go_slice_def)
qed

section \<open>Properties\<close>

text \<open>
  C18. A device's session with the telemetry server.  Whatever readings the device sends, finite values under distinct
  names, the server decodes each to what was sent and acknowledges it, in order, the handler returns when the
  connection ends, and the store then has of every device the last thousand of its readings, oldest first.
\<close>

theorem telemetry_session:
  assumes "noise_xx N paired" "nz_NewHandshakeState N True kI rI = Inr i0" "nz_NewHandshakeState N False kR rR = Inr r0"
    and "\<forall>t \<in> set ts. telemetry_ok t" "list_all2 (\<lambda>t f. encodeTelemetry t = Inr f \<and> length f < 2 ^ 32) ts fs"
  shows "\<exists>m1 m2 m3 c s. app_link paired N kI rI kR rR m1 m2 m3 c s \<and>
    (\<forall>cts c' es s'. encrypt_all N c fs = (Inr cts, c') \<and> encrypt_all N s (map ack_frame ts) = (Inr es, s') \<longrightarrow>
       (\<exists>store. handleDevice N kR rR pipe_read pipe_write newStore \<lparr>incoming = m1 # m3 # cts, outgoing = []\<rparr>
           = Some (Returns (store, \<lparr>incoming = [], outgoing = m2 # es\<rparr>)) \<and>
         (\<forall>d. store_get store d = last_n 1000 (filter (\<lambda>t. tm_DeviceID t = d) ts))) \<and>
       (\<exists>c''. decrypt_all N c' es = (Inr (map ack_frame ts), c'')))"
proof -
  obtain m1 m2 m3 c s where link: "app_link paired N kI rI kR rR m1 m2 m3 c s"
    using app_link_exists [OF assms(1-3)] .
  note run = app_link_run [where join = "\<lambda>s. s", OF assms(1) link _ readings_run [OF assms(4,5)], folded handleDevice_def]
  from link run fold_store_add show ?thesis by blast
qed

definition sample_reading :: Telemetry where
  "sample_reading = \<lparr>tm_DeviceID = ''d'', tm_SensorData = Some [(''t'', Fin 0)], tm_TimestampMs = 7\<rparr>"

lemma sample_reading_text: "fl64 0 = Fin 0" "float_text 0 = ''0''" "show_int 7 = ''7''"
  by (simp add: fl64_def, simp add: float_text_def, code_simp)

lemma sample_reading_facts:
  "telemetry_ok sample_reading" "\<exists>f. encodeTelemetry sample_reading = Inr f \<and> length f < 2 ^ 32"
  using sample_reading_text
  by (simp_all add: sample_reading_def telemetry_ok_def encodeTelemetry_def is_f64_def sensor_json_def json_float_def
      ascii_def code_def in_int64_def int64_min_def int64_max_def json_quote_def quote_body_ascii esc_char_def)

theorem telemetry_session_witness:
  "\<exists>m1 m2 m3 ct e store. handleDevice noise_chacha \<lparr>Private = [4], Public = [5]\<rparr> [6] pipe_read pipe_write newStore
     \<lparr>incoming = [m1, m3, ct], outgoing = []\<rparr> = Some (Returns (store, \<lparr>incoming = [], outgoing = [m2, e]\<rparr>)) \<and>
     store_get store ''d'' = [sample_reading]"
proof -
  obtain f where f: "encodeTelemetry sample_reading = Inr f" "length f < 2 ^ 32" using sample_reading_facts(2) by blast
  obtain i0 r0 where new: "nz_NewHandshakeState noise_chacha True \<lparr>Private = [1], Public = [2]\<rparr> [3] = Inr i0"
    "nz_NewHandshakeState noise_chacha False \<lparr>Private = [4], Public = [5]\<rparr> [6] = Inr r0"
    by (simp add: noise_chacha_def xx_new_def)
  have ok: "\<forall>t \<in> set [sample_reading]. telemetry_ok t"
    "list_all2 (\<lambda>t f. encodeTelemetry t = Inr f \<and> length f < 2 ^ 32) [sample_reading] [f]"
    using sample_reading_facts(1) f by simp_all
  show ?thesis
    using telemetry_session [OF nxx.noise_xx_axioms new ok]
    apply (elim exE conjE)
    subgoal premises run for m1 m2 m3 c s
    proof -
      have "snd (Send c) = 0" "snd (Send s) = 0" using run(1) chacha_fresh unfolding app_link_def by metis+
      then obtain ct c' e s' where "NoiseSession_Encrypt noise_chacha c f = (Inr ct, c')"
          "NoiseSession_Encrypt noise_chacha s (ack_frame sample_reading) = (Inr e, s')"
        using chacha_encrypts by meson
      then have "encrypt_all noise_chacha c [f] = (Inr [ct], c')"
          "encrypt_all noise_chacha s (map ack_frame [sample_reading]) = (Inr [e], s')" by simp_all
      from run(2) [rule_format, OF conjI [OF this]] obtain store where
        store: "handleDevice noise_chacha \<lparr>Private = [4], Public = [5]\<rparr> [6] pipe_read pipe_write newStore
            \<lparr>incoming = [m1, m3, ct], outgoing = []\<rparr> = Some (Returns (store, \<lparr>incoming = [], outgoing = [m2, e]\<rparr>))"
          "\<forall>d. store_get store d = last_n 1000 (filter (\<lambda>t. tm_DeviceID t = d) [sample_reading])" by blast
      then have "store_get store ''d'' = [sample_reading]" by (simp add: last_n_def sample_reading_def)
      with store(1) show ?thesis by blast
    qed
    done
qed

text \<open>
  C38. One frame stops the telemetry server.  A decrypted message of five bytes or more panics in \<open>decodeMessage\<close> exactly
  when it announces more payload than it carries, and so any device that has completed the handshake, which needs no
  credentials, makes the handler panic; the handler is a goroutine without a recover, so the process ends.
\<close>

theorem telemetry_crash:
  assumes "noise_xx N paired" "app_link paired N kI rI kR rR m1 m2 m3 c s" "NoiseSession_Encrypt N c data = (Inr ct, c')"
    and "5 \<le> length data" "length data < 2 ^ 32"
  shows "((\<exists>e. decodeMessage data = Panic e) \<longleftrightarrow> length data - 5 < unat (payload_len data)) \<and>
    (length data - 5 < unat (payload_len data) \<longrightarrow>
      (\<exists>e. handleDevice N kR rR pipe_read pipe_write store \<lparr>incoming = m1 # m3 # ct # rest, outgoing = []\<rparr> = Some (Panic e)))"
proof -
  note pan = decodeMessage_panics [OF assms(4,5)]
  moreover have "\<exists>e. handleDevice N kR rR pipe_read pipe_write store \<lparr>incoming = m1 # m3 # ct # rest, outgoing = []\<rparr>
      = Some (Panic e)" if big: "length data - 5 < unat (payload_len data)"
  proof -
    obtain e where "decodeMessage data = Panic e" using pan big by blast
    then have "device_message store data = Panic e" by (simp add: device_message_def)
    from app_link_panic [where join = "\<lambda>s. s" and handle = device_message and st = store and p = data, OF assms(1-3) this] show ?thesis unfolding handleDevice_def by blast
  qed
  ultimately show ?thesis by blast
qed


theorem telemetry_crash_witness:
  "\<exists>m1 m3 ct e. handleDevice noise_chacha \<lparr>Private = [4], Public = [5]\<rparr> [6] pipe_read pipe_write newStore
     \<lparr>incoming = [m1, m3, ct], outgoing = []\<rparr> = Some (Panic e)"
proof (rule chacha_link)
  fix m1 m2 m3 c s
  assume link: "app_link cs_paired noise_chacha \<lparr>Private = [1], Public = [2]\<rparr> [3] \<lparr>Private = [4], Public = [5]\<rparr> [6] m1 m2 m3 c s"
    "snd (Send c) = 0"
  let ?data = "[1, 0, 0, 0, 1] :: bytes"
  obtain ct c' where ct: "NoiseSession_Encrypt noise_chacha c ?data = (Inr ct, c')" using chacha_encrypts [OF link(2)] by blast
  have "payload_len ?data = 1" by (simp add: payload_len_def of_be32_def)
  with telemetry_crash [OF nxx.noise_xx_axioms link(1) ct] show ?thesis by fastforce
qed

end
