(* ===== verification/App_Orders.thy ===== *)
theory App_Orders
  imports App_Frames
begin

text \<open>
  \<open>examples/finance-orders\<close>: traders send orders signed with Ed25519 over Noise sessions, the server checks the
  signature, books the order and answers.  Ed25519 is a parameter, as in the sender keys; the texts of the errors of
  \<open>encoding/json\<close>, which the server sends back, are the parameter \<open>jerr\<close>.
\<close>

section \<open>messages.go\<close>

definition MsgOrder :: byte where "MsgOrder = 1"
definition MsgOrderResponse :: byte where "MsgOrderResponse = 2"

record Order =
  od_OrderID :: string
  od_Instrument :: string
  od_Side :: string
  od_Quantity :: f64
  od_Price :: f64
  od_TimestampMs :: int

record SignedOrder =
  so_Order :: slice
  so_Signature :: slice
  so_PublicKey :: slice

record OrderResponse =
  op_OrderID :: string
  op_Status :: string
  op_Message :: string

record SigningKey =
  fk_Public :: bytes
  fk_Private :: bytes

definition GenerateSigningKey :: "ed25519_ops \<Rightarrow> goerr + bytes \<Rightarrow> goerr + SigningKey" where
  "GenerateSigningKey E seed =
     (case seed of Inl e \<Rightarrow> Inl (''ed25519 keygen: '' @ e)
      | Inr s \<Rightarrow> Inr \<lparr>fk_Public = ed_Public E s, fk_Private = ed_Private E s\<rparr>)"

definition order_json :: "Order \<Rightarrow> json option" where
  "order_json o' =
     (case (json_float (od_Quantity o'), json_float (od_Price o')) of
        (Some q, Some p) \<Rightarrow> Some (JObj
          [(''order_id'', JStr (od_OrderID o')), (''instrument'', JStr (od_Instrument o')), (''side'', JStr (od_Side o')),
           (''quantity'', q), (''price'', p), (''timestamp_ms'', JNum (show_int (od_TimestampMs o')))])
      | _ \<Rightarrow> None)"

definition signed_json :: "SignedOrder \<Rightarrow> json" where
  "signed_json s = JObj [(''order'', json_bytes (so_Order s)), (''signature'', json_bytes (so_Signature s)),
     (''public_key'', json_bytes (so_PublicKey s))]"

definition signOrder :: "ed25519_ops \<Rightarrow> Order \<Rightarrow> SigningKey \<Rightarrow> (goerr + bytes) call" where
  "signOrder E order key =
     (case order_json order of None \<Rightarrow> Returns (Inl ''json: unsupported value'')
      | Some j \<Rightarrow>
          (let orderBytes = string_to_bytes (json_print j) in
           if length (fk_Private key) \<noteq> 64 then Panic ''ed25519: bad private key length''
           else Returns (Inr (app_frame MsgOrder (string_to_bytes (json_print (signed_json
             \<lparr>so_Order = Some orderBytes, so_Signature = Some (ed_Sign E (fk_Private key) orderBytes),
              so_PublicKey = Some (fk_Public key)\<rparr>)))))))"

definition signed_fields :: "(string \<times> SignedOrder field) list" where
  "signed_fields =
     [(''order'', bytes_field (\<lambda>v s. s\<lparr>so_Order := v\<rparr>)), (''signature'', bytes_field (\<lambda>v s. s\<lparr>so_Signature := v\<rparr>)),
      (''public_key'', bytes_field (\<lambda>v s. s\<lparr>so_PublicKey := v\<rparr>))]"

definition order_fields :: "(string \<times> Order field) list" where
  "order_fields =
     [(''order_id'', str_field (\<lambda>v s. s\<lparr>od_OrderID := v\<rparr>)), (''instrument'', str_field (\<lambda>v s. s\<lparr>od_Instrument := v\<rparr>)),
      (''side'', str_field (\<lambda>v s. s\<lparr>od_Side := v\<rparr>)), (''quantity'', float_field (\<lambda>v s. s\<lparr>od_Quantity := v\<rparr>)),
      (''price'', float_field (\<lambda>v s. s\<lparr>od_Price := v\<rparr>)), (''timestamp_ms'', int64_field (\<lambda>v s. s\<lparr>od_TimestampMs := v\<rparr>))]"

definition empty_order :: Order where
  "empty_order = \<lparr>od_OrderID = [], od_Instrument = [], od_Side = [], od_Quantity = Fin 0, od_Price = Fin 0, od_TimestampMs = 0\<rparr>"

definition empty_signed :: SignedOrder where
  "empty_signed = \<lparr>so_Order = None, so_Signature = None, so_PublicKey = None\<rparr>"

definition verifyOrder :: "ed25519_ops \<Rightarrow> (bytes \<Rightarrow> goerr) \<Rightarrow> bytes \<Rightarrow> (goerr + Order) call" where
  "verifyOrder E jerr signedBytes =
     (case json_unmarshal signed_fields (bytes_to_string signedBytes) empty_signed of
        (_, True) \<Rightarrow> Returns (Inl (''unmarshal signed: '' @ jerr signedBytes))
      | (sgnd, False) \<Rightarrow>
          if slice_len (so_PublicKey sgnd) \<noteq> 32 then Panic ''ed25519: bad public key length''
          else if \<not> ed_Verify E (slice_bytes (so_PublicKey sgnd)) (slice_bytes (so_Order sgnd)) (slice_bytes (so_Signature sgnd))
          then Returns (Inl ''invalid Ed25519 signature'')
          else (case json_unmarshal order_fields (bytes_to_string (slice_bytes (so_Order sgnd))) empty_order of
                  (_, True) \<Rightarrow> Returns (Inl (''unmarshal order: '' @ jerr (slice_bytes (so_Order sgnd))))
                | (order, False) \<Rightarrow> Returns (Inr order)))"

definition encodeResponse :: "OrderResponse \<Rightarrow> goerr + bytes" where
  "encodeResponse r = Inr (app_frame MsgOrderResponse (string_to_bytes (json_print (JObj
     ([(''order_id'', JStr (op_OrderID r)), (''status'', JStr (op_Status r))] @
      (if op_Message r = [] then [] else [(''message'', JStr (op_Message r))]))))))"

section \<open>server.go\<close>

record orderBook =
  bk_orders :: "Order list"
  bk_seq :: "64 word"

definition book_accept :: "orderBook \<Rightarrow> Order \<Rightarrow> orderBook \<times> string" where
  "book_accept b o' = (let seq = bk_seq b + 1 in
     (b\<lparr>bk_orders := bk_orders b @ [o'], bk_seq := seq\<rparr>, ''accepted-'' @ show_int (sint seq)))"

definition book_count :: "orderBook \<Rightarrow> nat" where
  "book_count b = length (bk_orders b)"

definition response_bytes :: "OrderResponse \<Rightarrow> bytes" where
  "response_bytes r = (case encodeResponse r of Inl _ \<Rightarrow> [] | Inr b \<Rightarrow> b)"

text \<open>The body of the loop of \<open>handleTrader\<close>, after decryption.\<close>

definition trader_message ::
  "ed25519_ops \<Rightarrow> (bytes \<Rightarrow> goerr) \<Rightarrow> orderBook \<Rightarrow> bytes \<Rightarrow> (orderBook \<times> bytes option) call" where
  "trader_message E jerr book pt =
     (case decodeFrame pt of Panic e \<Rightarrow> Panic e
      | Returns (Inl _) \<Rightarrow> Returns (book, None)
      | Returns (Inr (msgType, payload)) \<Rightarrow>
          if msgType = MsgOrder then
            (case verifyOrder E jerr payload of Panic e \<Rightarrow> Panic e
             | Returns (Inl err) \<Rightarrow>
                 Returns (book, Some (response_bytes \<lparr>op_OrderID = [], op_Status = ''rejected'', op_Message = err\<rparr>))
             | Returns (Inr order) \<Rightarrow>
                 (let (book, execID) = book_accept book order in
                  Returns (book, Some (response_bytes
                    \<lparr>op_OrderID = od_OrderID order, op_Status = ''filled'', op_Message = execID\<rparr>))))
          else Returns (book, None))"

definition handleTrader ::
  "ed25519_ops \<Rightarrow> (bytes \<Rightarrow> goerr) \<Rightarrow> ('h, 'c) noise_ops \<Rightarrow> KeyPair \<Rightarrow> bytes \<Rightarrow> 'io reader \<Rightarrow> 'io writer \<Rightarrow> orderBook \<Rightarrow> 'io
     \<Rightarrow> (orderBook \<times> 'io) call option" where
  "handleTrader E jerr N = app_serve N (\<lambda>b. b) (trader_message E jerr)"

text \<open>The orders of the client, whose prices and quantities are exact; \<open>now i\<close> is the time of the \<open>i\<close>-th.\<close>

definition client_orders :: "(nat \<Rightarrow> int) \<Rightarrow> Order list" where
  "client_orders now =
     [\<lparr>od_OrderID = ''ORD-001'', od_Instrument = ''BTC/USD'', od_Side = ''buy'', od_Quantity = Fin (1 / 2), od_Price = Fin 65000,
       od_TimestampMs = now 0\<rparr>,
      \<lparr>od_OrderID = ''ORD-002'', od_Instrument = ''ETH/USD'', od_Side = ''sell'', od_Quantity = Fin 10, od_Price = Fin 3200,
       od_TimestampMs = now 1\<rparr>,
      \<lparr>od_OrderID = ''ORD-003'', od_Instrument = ''BTC/USD'', od_Side = ''buy'', od_Quantity = Fin 1, od_Price = Fin 64999,
       od_TimestampMs = now 2\<rparr>]"

definition finance_runClient ::
  "ed25519_ops \<Rightarrow> ('h, 'c) noise_ops \<Rightarrow> SigningKey \<Rightarrow> (nat \<Rightarrow> int) \<Rightarrow> KeyPair \<Rightarrow> bytes \<Rightarrow> 'io reader \<Rightarrow> 'io writer \<Rightarrow> 'io
     \<Rightarrow> (goerr option \<times> (byte \<times> bytes) list \<times> 'io) call" where
  "finance_runClient E N sigKey now =
     app_client N decodeFrame
       (map (\<lambda>o'. case signOrder E o' sigKey of Returns (Inr m) \<Rightarrow> m | _ \<Rightarrow> []) (client_orders now))"

section \<open>Signing and verifying\<close>

definition order_ok :: "Order \<Rightarrow> bool" where
  "order_ok o' \<longleftrightarrow> ascii (od_OrderID o') \<and> ascii (od_Instrument o') \<and> ascii (od_Side o') \<and> in_int64 (od_TimestampMs o') \<and>
     (\<exists>q. od_Quantity o' = Fin q \<and> fl64 q = Fin q) \<and> (\<exists>p. od_Price o' = Fin p \<and> fl64 p = Fin p)"

lemma order_roundtrip:
  assumes "order_ok o'" "order_json o' = Some j"
  shows "json_unmarshal order_fields (json_print j) empty_order = (o', False)"
proof -
  obtain q p where q: "od_Quantity o' = Fin q" "fl64 q = Fin q" and p: "od_Price o' = Fin p" "fl64 p = Fin p"
    using assms(1) by (auto simp: order_ok_def)
  note fq = json_float_field [OF q(2)] and fp = json_float_field [OF p(2)]
  let ?ms = "[(''order_id'', JStr (od_OrderID o')), (''instrument'', JStr (od_Instrument o')), (''side'', JStr (od_Side o')),
    (''quantity'', JNum (float_text q)), (''price'', JNum (float_text p)), (''timestamp_ms'', JNum (show_int (od_TimestampMs o')))]"
  have j: "j = JObj ?ms" using assms(2) by (simp add: order_json_def q(1) p(1) fq(1) fp(1))
  have ok: "json_ok (JObj ?ms)" using assms(1) fq(2) fp(2) by (simp add: order_ok_def ascii_def code_def)
  have "in_int64 (od_TimestampMs o')" using assms(1) by (simp add: order_ok_def)
  then have "decode_members order_fields ?ms empty_order = (o', False)"
    using q(1) p(1) by (cases o') (simp add: order_fields_def empty_order_def fq fp)
  then show ?thesis unfolding j by (simp only: json_unmarshal_print [OF ok])
qed

lemma signed_roundtrip: "json_unmarshal signed_fields (json_print (signed_json s)) empty_signed = (s, False)"
proof -
  have "json_ok (signed_json s)" by (simp add: signed_json_def code_def)
  then have "json_unmarshal signed_fields (json_print (signed_json s)) empty_signed
      = decode_members signed_fields [(''order'', json_bytes (so_Order s)), (''signature'', json_bytes (so_Signature s)),
          (''public_key'', json_bytes (so_PublicKey s))] empty_signed"
    unfolding signed_json_def by (rule json_unmarshal_print)
  then show ?thesis by (simp add: signed_fields_def empty_signed_def)
qed


lemma verify_signed:
  assumes "signature_scheme E" "length seed = 32" "order_ok o'"
    and "signOrder E o' \<lparr>fk_Public = ed_Public E seed, fk_Private = ed_Private E seed\<rparr> = Returns (Inr f)"
  shows "\<exists>payload. f = app_frame MsgOrder payload \<and> verifyOrder E jerr payload = Returns (Inr o')"
proof -
  obtain j where j: "order_json o' = Some j" using assms(4) by (auto simp: signOrder_def split: option.splits)
  let ?b = "string_to_bytes (json_print j)"
  let ?s = "\<lparr>so_Order = Some ?b, so_Signature = Some (ed_Sign E (ed_Private E seed) ?b), so_PublicKey = Some (ed_Public E seed)\<rparr>"
  have f: "f = app_frame MsgOrder (string_to_bytes (json_print (signed_json ?s)))"
    using assms(4) signature_scheme.private_length [OF assms(1,2)] by (simp add: signOrder_def j Let_def)
  have "verifyOrder E jerr (string_to_bytes (json_print (signed_json ?s))) = Returns (Inr o')"
    using signature_scheme.public_length [OF assms(1,2)] signature_scheme.verify_sign [OF assms(1,2)]
    by (simp add: verifyOrder_def signed_roundtrip order_roundtrip [OF assms(3) j])
  with f show ?thesis by blast
qed

section \<open>Runs of the server\<close>

text \<open>The answers to accepted orders, numbered from the book's counter on.\<close>

fun fill_responses :: "64 word \<Rightarrow> Order list \<Rightarrow> bytes list" where
  "fill_responses n [] = []"
| "fill_responses n (o' # os) =
     response_bytes \<lparr>op_OrderID = od_OrderID o', op_Status = ''filled'', op_Message = ''accepted-'' @ show_int (sint (n + 1))\<rparr>
       # fill_responses (n + 1) os"

definition signed_by :: "ed25519_ops \<Rightarrow> Order \<times> bytes \<Rightarrow> bytes \<Rightarrow> bool" where
  "signed_by E os f \<longleftrightarrow> order_ok (fst os) \<and> length (snd os) = 32 \<and> length f < 2 ^ 32 \<and>
     signOrder E (fst os) \<lparr>fk_Public = ed_Public E (snd os), fk_Private = ed_Private E (snd os)\<rparr> = Returns (Inr f)"

lemma orders_run:
  assumes "signature_scheme E" "list_all2 (signed_by E) os fs"
  shows "app_run (trader_message E jerr) b fs = Returns
    (b\<lparr>bk_orders := bk_orders b @ map fst os, bk_seq := bk_seq b + of_nat (length os)\<rparr>, fill_responses (bk_seq b) (map fst os))"
  using assms(2)
proof (induction os fs arbitrary: b rule: list_all2_induct)
  case (Cons x xs f fs)
  then have x: "order_ok (fst x)" "length (snd x) = 32" "length f < 2 ^ 32"
      "signOrder E (fst x) \<lparr>fk_Public = ed_Public E (snd x), fk_Private = ed_Private E (snd x)\<rparr> = Returns (Inr f)"
    by (simp_all add: signed_by_def)
  obtain p where p: "f = app_frame MsgOrder p" "verifyOrder E jerr p = Returns (Inr (fst x))"
    using verify_signed [OF assms(1) x(2,1,4)] by blast
  have "decodeFrame f = Returns (Inr (MsgOrder, p))" using x(3) p(1) by (simp add: decodeFrame_frame)
  then show ?case
    using Cons.IH by (simp add: trader_message_def p(2) book_accept_def Let_def algebra_simps)
qed simp

text \<open>The order a message carries, if its signature verifies under the key beside it.\<close>

definition order_of :: "ed25519_ops \<Rightarrow> (bytes \<Rightarrow> goerr) \<Rightarrow> bytes \<Rightarrow> Order option" where
  "order_of E jerr pt =
     (case decodeFrame pt of
        Returns (Inr (t, payload)) \<Rightarrow>
          if t = MsgOrder then (case verifyOrder E jerr payload of Returns (Inr o') \<Rightarrow> Some o' | _ \<Rightarrow> None) else None
      | _ \<Rightarrow> None)"

lemma trader_message_order:
  assumes "trader_message E jerr b pt = Returns (b', r)"
  shows "b' = (case order_of E jerr pt of None \<Rightarrow> b | Some o' \<Rightarrow> fst (book_accept b o'))"
  using assms by (auto simp: trader_message_def order_of_def Let_def split: call.splits sum.splits prod.splits if_splits)

lemma verifyOrder_ok:
  assumes "verifyOrder E jerr payload = Returns (Inr o')"
  shows "\<exists>k m sig. length k = 32 \<and> ed_Verify E k m sig \<and> json_unmarshal order_fields (bytes_to_string m) empty_order = (o', False)"
  using assms by (auto simp: verifyOrder_def split: prod.splits bool.splits if_splits)

section \<open>A concrete order\<close>

lemma length_esc_char: "length (esc_char c) \<le> 6"
  by (simp add: esc_char_def Let_def)

lemma length_json_quote: "ascii s \<Longrightarrow> length (json_quote s) \<le> 6 * length s + 2"
proof -
  have "length (concat (map esc_char s)) \<le> 6 * length s"
    using length_esc_char by (induction s) (auto intro: order_trans [OF add_le_mono])
  then show "ascii s \<Longrightarrow> length (json_quote s) \<le> 6 * length s + 2" by (simp add: json_quote_def quote_body_ascii)
qed

lemma length_b64_encode: "length (b64_encode bs) \<le> 2 * length bs + 4"
  by (induction bs rule: b64_encode.induct) simp_all

definition sample_order :: Order where
  "sample_order = \<lparr>od_OrderID = ''A'', od_Instrument = ''B'', od_Side = ''buy'', od_Quantity = Fin 0, od_Price = Fin 0, od_TimestampMs = 7\<rparr>"

lemma sample_order_signed: "\<exists>f. signed_by schnorr (sample_order, replicate 32 1) f"
proof -
  have txt0: "fl64 0 = Fin 0" "float_text 0 = ''0''" "show_int 7 = ''7''"
    by (simp add: fl64_def, simp add: float_text_def, code_simp)
  define b where "b = string_to_bytes (json_print (the (order_json sample_order)))"
  have j: "\<exists>j. order_json sample_order = Some j" and b: "length b < 200"
    by (simp_all add: b_def order_json_def sample_order_def json_float_def txt0 json_quote_def quote_body_ascii ascii_def code_def esc_char_def)
  define s where "s = \<lparr>so_Order = Some b, so_Signature = Some (ed_Sign schnorr (ed_Private schnorr (replicate 32 1)) b),
    so_PublicKey = Some (ed_Public schnorr (replicate 32 1))\<rparr>"
  have q: "length (json_quote (b64_encode bs)) \<le> 12 * length bs + 26" for bs
    using length_json_quote [OF ascii_b64_encode, of bs] length_b64_encode [of bs] by linarith
  have keys: "length (ed_Private schnorr (replicate 32 1)) = 64" "length (ed_Public schnorr (replicate 32 1)) = 32"
    "length (ed_Sign schnorr k b) = 128" for k
    by (simp_all add: schnorr_def schnorr_sign_def Let_def)
  have "length (json_print (signed_json s)) < 10000"
    using q [of b] q [of "ed_Public schnorr (replicate 32 1)"] q [of "ed_Sign schnorr (ed_Private schnorr (replicate 32 1)) b"] b keys
    by (simp add: signed_json_def s_def json_bytes_def json_quote_def [of "''order''"] json_quote_def [of "''signature''"]
        json_quote_def [of "''public_key''"] quote_body_ascii ascii_def code_def esc_char_def)
  then have "signed_by schnorr (sample_order, replicate 32 1) (app_frame MsgOrder (string_to_bytes (json_print (signed_json s))))"
    using j keys by (auto simp: signed_by_def order_ok_def sample_order_def txt0 ascii_def code_def in_int64_def int64_min_def
        int64_max_def signOrder_def b_def s_def Let_def)
  then show ?thesis by blast
qed

section \<open>Properties\<close>

text \<open>
  C39. A trader's session with the order server.  Orders with finite prices and quantities, each signed with a key of the
  trader's choice, are verified, decoded to what was signed, booked in order and answered as filled, with execution
  numbers that count on from the book's, and the trader decrypts exactly these answers.
\<close>

theorem orders_session:
  assumes "noise_xx N paired" "nz_NewHandshakeState N True kI rI = Inr i0" "nz_NewHandshakeState N False kR rR = Inr r0"
    and "signature_scheme E" "list_all2 (signed_by E) os fs"
  shows "\<exists>m1 m2 m3 c s. app_link paired N kI rI kR rR m1 m2 m3 c s \<and>
    (\<forall>cts c' es s' b. encrypt_all N c fs = (Inr cts, c') \<and> encrypt_all N s (fill_responses (bk_seq b) (map fst os)) = (Inr es, s') \<longrightarrow>
       handleTrader E jerr N kR rR pipe_read pipe_write b \<lparr>incoming = m1 # m3 # cts, outgoing = []\<rparr>
         = Some (Returns (b\<lparr>bk_orders := bk_orders b @ map fst os, bk_seq := bk_seq b + of_nat (length os)\<rparr>,
             \<lparr>incoming = [], outgoing = m2 # es\<rparr>)) \<and>
       (\<exists>c''. decrypt_all N c' es = (Inr (fill_responses (bk_seq b) (map fst os)), c'')))"
proof -
  obtain m1 m2 m3 c s where link: "app_link paired N kI rI kR rR m1 m2 m3 c s"
    using app_link_exists [OF assms(1-3)] .
  note run = app_link_run [where join = "\<lambda>b. b", OF assms(1) link _ orders_run [OF assms(4,5)], folded handleTrader_def]
  from link run show ?thesis by blast
qed

theorem orders_session_witness:
  "\<exists>m1 m2 m3 ct e b. handleTrader schnorr (\<lambda>_. []) noise_chacha \<lparr>Private = [4], Public = [5]\<rparr> [6] pipe_read pipe_write
     \<lparr>bk_orders = [], bk_seq = 0\<rparr> \<lparr>incoming = [m1, m3, ct], outgoing = []\<rparr>
     = Some (Returns (b, \<lparr>incoming = [], outgoing = [m2, e]\<rparr>)) \<and> bk_orders b = [sample_order]"
proof -
  obtain f where "signed_by schnorr (sample_order, replicate 32 1) f" using sample_order_signed by blast
  then have f: "list_all2 (signed_by schnorr) [(sample_order, replicate 32 1)] [f]" by simp
  obtain i0 r0 where new: "nz_NewHandshakeState noise_chacha True \<lparr>Private = [1], Public = [2]\<rparr> [3] = Inr i0"
    "nz_NewHandshakeState noise_chacha False \<lparr>Private = [4], Public = [5]\<rparr> [6] = Inr r0"
    by (simp add: noise_chacha_def xx_new_def)
  show ?thesis
    using orders_session [where jerr = "\<lambda>_. []", OF nxx.noise_xx_axioms new schnorr.signature_scheme_axioms f]
    apply (elim exE conjE)
    subgoal premises run for m1 m2 m3 c s
    proof -
      let ?b = "\<lparr>bk_orders = [], bk_seq = 0\<rparr> :: orderBook"
      have "snd (Send c) = 0" "snd (Send s) = 0" using run(1) chacha_fresh unfolding app_link_def by metis+
      then obtain ct c' e s' where "NoiseSession_Encrypt noise_chacha c f = (Inr ct, c')"
          "NoiseSession_Encrypt noise_chacha s (hd (fill_responses 0 [sample_order])) = (Inr e, s')"
        using chacha_encrypts by meson
      then have "encrypt_all noise_chacha c [f] = (Inr [ct], c')"
          "encrypt_all noise_chacha s (fill_responses (bk_seq ?b) (map fst [(sample_order, replicate 32 (1 :: byte))])) = (Inr [e], s')"
        by simp_all
      from conjunct1 [OF run(2) [rule_format, OF conjI [OF this]]] show ?thesis by fastforce
    qed
    done
qed

text \<open>
  C19. What is in the book.  Whatever messages the server is sent, as long as it answers, its book grows by exactly the
  orders of those that are order frames whose signature verifies under the key they carry, in the order of arrival, once
  for every time they arrive, and its counter by their number; nothing else changes it.  The key is the sender's own
  choice: the server knows no traders, and a recorded message is booked again.
\<close>

theorem order_book_exact:
  assumes "app_run (trader_message E jerr) b ps = Returns (b', rs)"
  shows "bk_orders b' = bk_orders b @ List.map_filter (order_of E jerr) ps \<and>
    bk_seq b' = bk_seq b + of_nat (length (List.map_filter (order_of E jerr) ps)) \<and>
    (\<forall>o' \<in> set (List.map_filter (order_of E jerr) ps). \<exists>k m sig. length k = 32 \<and> ed_Verify E k m sig \<and>
       json_unmarshal order_fields (bytes_to_string m) empty_order = (o', False))"
proof -
  have "bk_orders b' = bk_orders b @ List.map_filter (order_of E jerr) ps \<and>
      bk_seq b' = bk_seq b + of_nat (length (List.map_filter (order_of E jerr) ps))"
    using assms
  proof (induction ps arbitrary: b rs)
    case (Cons p ps)
    obtain b1 r rs1 where step: "trader_message E jerr b p = Returns (b1, r)" "app_run (trader_message E jerr) b1 ps = Returns (b', rs1)"
      using Cons.prems by (auto split: call.splits prod.splits)
    from Cons.IH [OF step(2)] trader_message_order [OF step(1)] show ?case
      by (cases "order_of E jerr p") (simp_all add: map_filter_simps book_accept_def Let_def)
  qed (simp add: map_filter_simps)
  moreover have "\<exists>k m sig. length k = 32 \<and> ed_Verify E k m sig \<and> json_unmarshal order_fields (bytes_to_string m) empty_order = (o', False)"
    if "order_of E jerr p = Some o'" for p o'
    using that verifyOrder_ok by (auto simp: order_of_def split: call.splits sum.splits prod.splits if_splits)
  ultimately show ?thesis by (auto simp: map_filter_def)
qed

theorem order_book_exact_witness:
  "\<exists>f b rs. app_run (trader_message schnorr (\<lambda>_. [])) \<lparr>bk_orders = [], bk_seq = 0\<rparr> [f, [], f] = Returns (b, rs) \<and>
     bk_orders b = [sample_order, sample_order]"
proof -
  obtain f where f: "signed_by schnorr (sample_order, replicate 32 1) f" using sample_order_signed by blast
  then obtain p where p: "f = app_frame MsgOrder p" "verifyOrder schnorr (\<lambda>_. []) p = Returns (Inr sample_order)"
    using verify_signed [OF schnorr.signature_scheme_axioms, of "replicate 32 1" sample_order f] by (auto simp: signed_by_def)
  have dec: "decodeFrame f = Returns (Inr (MsgOrder, p))" "decodeFrame [] = Returns (Inl ''frame too short'')"
    using f p(1) by (simp_all add: decodeFrame_frame signed_by_def) (simp add: decodeFrame_def)
  then have ord: "order_of schnorr (\<lambda>_. []) f = Some sample_order" "order_of schnorr (\<lambda>_. []) [] = None"
    using p(2) by (simp_all add: order_of_def)
  obtain b rs where run: "app_run (trader_message schnorr (\<lambda>_. [])) \<lparr>bk_orders = [], bk_seq = 0\<rparr> [f, [], f] = Returns (b, rs)"
    by (simp add: trader_message_def dec p(2) book_accept_def Let_def)
  from order_book_exact [OF this] run ord show ?thesis by (auto simp: map_filter_simps)
qed

end
