(* ===== verification/App_Game.thy ===== *)
theory App_Game
  imports App_Frames
begin

text \<open>
  \<open>examples/game-realtime\<close>: players move and attack over Noise sessions, the server holds the world and answers every
  action with its state.  A player is found by name, so an attack on oneself changes one and the same player.  The
  order in which a range over the map of players visits them is that of the model's list.
\<close>

section \<open>messages.go\<close>

definition MsgGameAction :: byte where "MsgGameAction = 1"
definition MsgStateUpdate :: byte where "MsgStateUpdate = 2"

record Vec2 =
  vc_X :: f64
  vc_Y :: f64

record GameAction =
  ga_PlayerID :: string
  ga_Action :: string
  ga_Direction :: Vec2
  ga_TargetID :: string
  ga_SequenceNum :: nat
  ga_TimestampMs :: int

record PlayerState =
  ps_PlayerID :: string
  ps_Position :: Vec2
  ps_Health :: int
  ps_Score :: int
  ps_Alive :: bool

record StateUpdate =
  su_Tick :: "64 word"
  su_Players :: "PlayerState list"

text \<open>Marshalling fails on a coordinate that is not finite.\<close>

definition vec_json :: "Vec2 \<Rightarrow> json option" where
  "vec_json v = (case (json_float (vc_X v), json_float (vc_Y v)) of
     (Some x, Some y) \<Rightarrow> Some (JObj [(''x'', x), (''y'', y)]) | _ \<Rightarrow> None)"

definition encodeAction :: "GameAction \<Rightarrow> goerr + bytes" where
  "encodeAction a =
     (case vec_json (ga_Direction a) of None \<Rightarrow> Inl ''json: unsupported value''
      | Some d \<Rightarrow> Inr (app_frame MsgGameAction (string_to_bytes (json_print (JObj
          ([(''player_id'', JStr (ga_PlayerID a)), (''action'', JStr (ga_Action a)), (''direction'', d)] @
           (if ga_TargetID a = [] then [] else [(''target_id'', JStr (ga_TargetID a))]) @
           [(''seq'', JNum (show_nat (ga_SequenceNum a))), (''timestamp_ms'', JNum (show_int (ga_TimestampMs a)))]))))))"

definition player_json :: "PlayerState \<Rightarrow> json option" where
  "player_json p = map_option (\<lambda>pos. JObj [(''player_id'', JStr (ps_PlayerID p)), (''position'', pos),
     (''health'', JNum (show_int (ps_Health p))), (''score'', JNum (show_int (ps_Score p))), (''alive'', JBool (ps_Alive p))])
     (vec_json (ps_Position p))"

definition encodeStateUpdate :: "StateUpdate \<Rightarrow> goerr + bytes" where
  "encodeStateUpdate s =
     (case those (map player_json (su_Players s)) of None \<Rightarrow> Inl ''json: unsupported value''
      | Some js \<Rightarrow> Inr (app_frame MsgStateUpdate (string_to_bytes (json_print (JObj
          [(''tick'', JNum (show_nat (unat (su_Tick s)))), (''players'', JArr js)])))))"

definition game_decodeFrame :: "bytes \<Rightarrow> (goerr + byte \<times> bytes) call" where
  "game_decodeFrame = decodeFrame"

definition vec_fields :: "(string \<times> Vec2 field) list" where
  "vec_fields = [(''x'', float_field (\<lambda>v s. s\<lparr>vc_X := v\<rparr>)), (''y'', float_field (\<lambda>v s. s\<lparr>vc_Y := v\<rparr>))]"

definition direction_field :: "GameAction field" where
  "direction_field j a = (case decode_struct vec_fields j (ga_Direction a) of (_, True) \<Rightarrow> None | (v, False) \<Rightarrow> Some (a\<lparr>ga_Direction := v\<rparr>))"

definition action_fields :: "(string \<times> GameAction field) list" where
  "action_fields =
     [(''player_id'', str_field (\<lambda>v s. s\<lparr>ga_PlayerID := v\<rparr>)), (''action'', str_field (\<lambda>v s. s\<lparr>ga_Action := v\<rparr>)),
      (''direction'', direction_field), (''target_id'', str_field (\<lambda>v s. s\<lparr>ga_TargetID := v\<rparr>)),
      (''seq'', uint_field 64 (\<lambda>v s. s\<lparr>ga_SequenceNum := v\<rparr>)), (''timestamp_ms'', int64_field (\<lambda>v s. s\<lparr>ga_TimestampMs := v\<rparr>))]"

definition origin :: Vec2 where "origin = \<lparr>vc_X = Fin 0, vc_Y = Fin 0\<rparr>"

definition empty_action :: GameAction where
  "empty_action = \<lparr>ga_PlayerID = [], ga_Action = [], ga_Direction = origin, ga_TargetID = [], ga_SequenceNum = 0, ga_TimestampMs = 0\<rparr>"

section \<open>server.go\<close>

record gameWorld =
  wd_players :: "(string \<times> PlayerState) list"
  wd_tick :: "64 word"

definition newWorld :: gameWorld where
  "newWorld = \<lparr>wd_players = [], wd_tick = 0\<rparr>"

definition put_player :: "string \<Rightarrow> PlayerState \<Rightarrow> gameWorld \<Rightarrow> gameWorld" where
  "put_player k p w = w\<lparr>wd_players := AList.update k p (wd_players w)\<rparr>"

definition spawn :: "string \<Rightarrow> gameWorld \<Rightarrow> gameWorld" where
  "spawn playerID w = put_player playerID
     \<lparr>ps_PlayerID = playerID, ps_Position = origin, ps_Health = 100, ps_Score = 0, ps_Alive = True\<rparr> w"

definition moved :: "PlayerState \<Rightarrow> Vec2 \<Rightarrow> PlayerState" where
  "moved p d = p\<lparr>ps_Position :=
     \<lparr>vc_X = f64_add (vc_X (ps_Position p)) (f64_mul (vc_X d) (Fin 5)),
      vc_Y = f64_add (vc_Y (ps_Position p)) (f64_mul (vc_Y d) (Fin 5))\<rparr>\<rparr>"

definition distance :: "PlayerState \<Rightarrow> PlayerState \<Rightarrow> f64" where
  "distance target p =
     (let dx = f64_sub (vc_X (ps_Position target)) (vc_X (ps_Position p));
          dy = f64_sub (vc_Y (ps_Position target)) (vc_Y (ps_Position p))
      in f64_sqrt (f64_add (f64_mul dx dx) (f64_mul dy dy)))"

text \<open>The attacker is looked up again after the target has changed: they may be the same player.\<close>

definition applyAction :: "GameAction \<Rightarrow> gameWorld \<Rightarrow> gameWorld" where
  "applyAction a w =
     (case map_of (wd_players w) (ga_PlayerID a) of None \<Rightarrow> w
      | Some p \<Rightarrow>
          if \<not> ps_Alive p then w
          else if ga_Action a = ''move'' then put_player (ga_PlayerID a) (moved p (ga_Direction a)) w
          else if ga_Action a = ''attack'' then
            (case map_of (wd_players w) (ga_TargetID a) of None \<Rightarrow> w
             | Some target \<Rightarrow>
                 if ps_Alive target \<and> f64_less (distance target p) (Fin 50) then
                   (let target = target\<lparr>ps_Health := ps_Health target - 10\<rparr> in
                    if ps_Health target \<le> 0 then
                      (let w = put_player (ga_TargetID a) (target\<lparr>ps_Alive := False\<rparr>) w in
                       case map_of (wd_players w) (ga_PlayerID a) of None \<Rightarrow> w
                       | Some p \<Rightarrow> put_player (ga_PlayerID a) (p\<lparr>ps_Score := ps_Score p + 100\<rparr>) w)
                    else put_player (ga_TargetID a) target w)
                 else w)
          else w)"

definition snapshot :: "gameWorld \<Rightarrow> gameWorld \<times> StateUpdate" where
  "snapshot w = (let w = w\<lparr>wd_tick := wd_tick w + 1\<rparr> in (w, \<lparr>su_Tick = wd_tick w, su_Players = map snd (wd_players w)\<rparr>))"

text \<open>The body of the loop of \<open>handlePlayer\<close>, after decryption.\<close>

definition player_message :: "string \<Rightarrow> gameWorld \<Rightarrow> bytes \<Rightarrow> (gameWorld \<times> bytes option) call" where
  "player_message playerID world pt =
     (let answer = (\<lambda>w. let (w, state) = snapshot w in
            Returns (w, Some (case encodeStateUpdate state of Inl _ \<Rightarrow> [] | Inr b \<Rightarrow> b))) in
      case game_decodeFrame pt of Panic e \<Rightarrow> Panic e
      | Returns (Inl _) \<Rightarrow> Returns (world, None)
      | Returns (Inr (msgType, payload)) \<Rightarrow>
          if msgType = MsgGameAction then
            (case json_unmarshal action_fields (bytes_to_string payload) empty_action of
               (_, True) \<Rightarrow> Returns (world, None)
             | (action, False) \<Rightarrow> answer (applyAction (action\<lparr>ga_PlayerID := playerID\<rparr>) world))
          else answer world)"

definition handlePlayer ::
  "('h, 'c) noise_ops \<Rightarrow> string \<Rightarrow> KeyPair \<Rightarrow> bytes \<Rightarrow> 'io reader \<Rightarrow> 'io writer \<Rightarrow> gameWorld \<Rightarrow> 'io \<Rightarrow> (gameWorld \<times> 'io) call option" where
  "handlePlayer N remoteAddr = app_serve N (spawn remoteAddr) (player_message remoteAddr)"

definition client_actions :: "string \<Rightarrow> (nat \<Rightarrow> int) \<Rightarrow> GameAction list" where
  "client_actions playerID now =
     map (\<lambda>(i, x, y). \<lparr>ga_PlayerID = playerID, ga_Action = ''move'', ga_Direction = \<lparr>vc_X = Fin x, vc_Y = Fin y\<rparr>, ga_TargetID = [],
        ga_SequenceNum = i, ga_TimestampMs = now i\<rparr>) [(1, 1, 0), (2, 0, 1), (3, - 1, 0)]"

definition game_runClient ::
  "('h, 'c) noise_ops \<Rightarrow> string \<Rightarrow> (nat \<Rightarrow> int) \<Rightarrow> KeyPair \<Rightarrow> bytes \<Rightarrow> 'io reader \<Rightarrow> 'io writer \<Rightarrow> 'io
     \<Rightarrow> (goerr option \<times> (byte \<times> bytes) list \<times> 'io) call" where
  "game_runClient N playerID now = app_client N game_decodeFrame
     (map (\<lambda>a. case encodeAction a of Inl _ \<Rightarrow> [] | Inr b \<Rightarrow> b) (client_actions playerID now))"

section \<open>The world's invariant\<close>

text \<open>Worlds that joins of new players and messages of players lead to.\<close>

inductive game_reach :: "gameWorld \<Rightarrow> bool" where
  start: "game_reach newWorld"
| join: "game_reach w \<Longrightarrow> map_of (wd_players w) pid = None \<Longrightarrow> game_reach (spawn pid w)"
| message: "game_reach w \<Longrightarrow> player_message pid w pt = Returns (w', r) \<Longrightarrow> game_reach w'"

definition player_ok :: "string \<times> PlayerState \<Rightarrow> bool" where
  "player_ok kp \<longleftrightarrow> ps_PlayerID (snd kp) = fst kp \<and> 0 \<le> ps_Health (snd kp) \<and> ps_Health (snd kp) \<le> 100 \<and> 10 dvd ps_Health (snd kp) \<and>
     (ps_Alive (snd kp) \<longleftrightarrow> 0 < ps_Health (snd kp))"

text \<open>A balance: the score of a player less a hundred for a death.\<close>

definition balance :: "PlayerState \<Rightarrow> int" where
  "balance p = ps_Score p - (if ps_Alive p then 0 else 100)"

definition world_inv :: "gameWorld \<Rightarrow> bool" where
  "world_inv w \<longleftrightarrow> distinct (map fst (wd_players w)) \<and> list_all player_ok (wd_players w) \<and>
     sum_list (map (balance \<circ> snd) (wd_players w)) = 0"

lemma sum_update:
  fixes f :: "'v \<Rightarrow> int"
  assumes "distinct (map fst m)" "map_of m k = Some v"
  shows "sum_list (map (f \<circ> snd) (AList.update k v' m)) = sum_list (map (f \<circ> snd) m) - f v + f v'"
  using assms by (induction m) (auto simp: split_beta dest: map_of_SomeD)

lemma sum_update_new:
  fixes f :: "'v \<Rightarrow> int"
  assumes "map_of m k = None"
  shows "sum_list (map (f \<circ> snd) (AList.update k v' m)) = sum_list (map (f \<circ> snd) m) + f v'"
  using assms by (induction m) (auto split: if_splits)

lemma list_all_update: "list_all P m \<Longrightarrow> P (k, v) \<Longrightarrow> list_all P (AList.update k v m)"
  by (induction m) auto

lemma world_inv_put:
  assumes "world_inv w" "map_of (wd_players w) k = Some v" "player_ok (k, v')" "balance v' = balance v"
  shows "world_inv (put_player k v' w)"
  using assms sum_update [of "wd_players w" k v balance v']
  by (simp add: world_inv_def put_player_def list_all_update distinct_update)

lemma player_ok_of: "world_inv w \<Longrightarrow> map_of (wd_players w) k = Some v \<Longrightarrow> player_ok (k, v)"
  by (auto simp: world_inv_def list_all_iff dest: map_of_SomeD)


lemma hit_ok: "player_ok (k, v) \<Longrightarrow> ps_Alive v \<Longrightarrow> 0 < ps_Health v - 10 \<Longrightarrow> player_ok (k, v\<lparr>ps_Health := ps_Health v - 10\<rparr>)"
  by (auto simp: player_ok_def)

lemma killed_ok:
  "player_ok (k, v) \<Longrightarrow> ps_Alive v \<Longrightarrow> ps_Health v - 10 \<le> 0 \<Longrightarrow>
     player_ok (k, v\<lparr>ps_Health := ps_Health v - 10, ps_Alive := False\<rparr>)"
proof -
  assume v: "player_ok (k, v)" "ps_Alive v" "ps_Health v - 10 \<le> 0"
  then have "10 dvd ps_Health v" "0 < ps_Health v" "ps_Health v \<le> 10" by (simp_all add: player_ok_def)
  then have "ps_Health v = 10" by presburger
  with v show ?thesis by (simp add: player_ok_def)
qed

lemma kill_inv:
  assumes w: "world_inv w" and t: "map_of (wd_players w) tid = Some t" "ps_Alive t" "ps_Health t - 10 \<le> 0"
    and p: "map_of (wd_players w) pid = Some p"
  defines "w1 \<equiv> put_player tid (t\<lparr>ps_Health := ps_Health t - 10, ps_Alive := False\<rparr>) w"
  shows "\<exists>p1. map_of (wd_players w1) pid = Some p1 \<and> world_inv (put_player pid (p1\<lparr>ps_Score := ps_Score p1 + 100\<rparr>) w1)"
proof -
  let ?t = "t\<lparr>ps_Health := ps_Health t - 10, ps_Alive := False\<rparr>"
  have d: "distinct (map fst (wd_players w))" and sum: "sum_list (map (balance \<circ> snd) (wd_players w)) = 0"
    using w by (simp_all add: world_inv_def)
  have w1: "wd_players w1 = AList.update tid ?t (wd_players w)" by (simp add: w1_def put_player_def)
  have d1: "distinct (map fst (wd_players w1))" using d by (simp add: w1 distinct_update)
  have ok: "player_ok (tid, ?t)" using killed_ok [OF player_ok_of [OF w t(1)] t(2,3)] by simp
  then have ok1: "list_all player_ok (wd_players w1)" using w by (simp add: w1 list_all_update world_inv_def)
  have sum1: "sum_list (map (balance \<circ> snd) (wd_players w1)) = - 100"
    using sum_update [OF d t(1), of balance ?t] sum t(2) by (simp add: w1 balance_def)
  obtain p1 where p1: "map_of (wd_players w1) pid = Some p1" using p by (cases "pid = tid") (auto simp: w1 update_conv)
  then have "player_ok (pid, p1)" using ok1 by (auto simp: list_all_iff dest: map_of_SomeD)
  then have "player_ok (pid, p1\<lparr>ps_Score := ps_Score p1 + 100\<rparr>)" by (simp add: player_ok_def)
  then have "world_inv (put_player pid (p1\<lparr>ps_Score := ps_Score p1 + 100\<rparr>) w1)"
    using d1 ok1 sum1 sum_update [OF d1 p1, of balance "p1\<lparr>ps_Score := ps_Score p1 + 100\<rparr>"]
    by (simp add: world_inv_def put_player_def list_all_update distinct_update balance_def)
  with p1 show ?thesis by blast
qed

lemma applyAction_inv:
  assumes w: "world_inv w"
  shows "world_inv (applyAction a w)"
proof (cases "map_of (wd_players w) (ga_PlayerID a)")
  case p: (Some p)
  have move: "world_inv (put_player (ga_PlayerID a) (moved p d) w)" for d
    using player_ok_of [OF w p] by (intro world_inv_put [OF w p]) (simp_all add: moved_def player_ok_def balance_def)
  show ?thesis
  proof (cases "map_of (wd_players w) (ga_TargetID a)")
    case t: (Some t)
    have hit: "world_inv (put_player (ga_TargetID a) (t\<lparr>ps_Health := ps_Health t - 10\<rparr>) w)"
      if "ps_Alive t" "0 < ps_Health t - 10"
      using hit_ok [OF player_ok_of [OF w t] that] that(1) by (intro world_inv_put [OF w t]) (simp_all add: balance_def)
    show ?thesis
      using w move hit kill_inv [OF w t _ _ p] by (auto simp: applyAction_def p t Let_def)
  qed (use w move in \<open>simp add: applyAction_def p\<close>)
qed (use w in \<open>simp add: applyAction_def\<close>)

lemma snapshot_world: "fst (snapshot w) = w\<lparr>wd_tick := wd_tick w + 1\<rparr>"
  by (simp add: snapshot_def Let_def)

lemma player_message_world:
  assumes "player_message pid w pt = Returns (w', r)"
  shows "w' = w \<and> r = None \<or> (\<exists>v. (v = w \<or> (\<exists>a. v = applyAction a w)) \<and> w' = fst (snapshot v) \<and>
    r = Some (case encodeStateUpdate (snd (snapshot v)) of Inl _ \<Rightarrow> [] | Inr b \<Rightarrow> b))"
  using assms
  by (auto simp: player_message_def Let_def split_beta split: call.splits sum.splits prod.splits bool.splits if_splits)

lemma world_inv_tick: "world_inv (w\<lparr>wd_tick := t\<rparr>) \<longleftrightarrow> world_inv w"
  by (simp add: world_inv_def)

lemma game_reach_inv: "game_reach w \<Longrightarrow> world_inv w"
proof (induction rule: game_reach.induct)
  case start
  show ?case by (simp add: world_inv_def newWorld_def)
next
  case (join w pid)
  then show ?case
    using sum_update_new [OF join(2), of balance]
    by (simp add: world_inv_def spawn_def put_player_def list_all_update distinct_update balance_def player_ok_def)
next
  case (message w pid pt w' r)
  then show ?case using player_message_world [OF message(2)] applyAction_inv
    by (auto simp: snapshot_world world_inv_tick)
qed

section \<open>Positions that are not finite\<close>

definition finite_pos :: "PlayerState \<Rightarrow> bool" where
  "finite_pos p \<longleftrightarrow> (\<exists>x y. vc_X (ps_Position p) = Fin x \<and> vc_Y (ps_Position p) = Fin y)"

definition poisoned :: "gameWorld \<Rightarrow> bool" where
  "poisoned w \<longleftrightarrow> (\<exists>k p. map_of (wd_players w) k = Some p \<and> \<not> finite_pos p)"

lemma f64_add_Fin: "f64_add x y = Fin z \<Longrightarrow> (\<exists>a. x = Fin a) \<and> (\<exists>b. y = Fin b)"
  by (cases x; cases y) (auto split: if_splits)

lemma moved_finite: "finite_pos (moved p d) \<Longrightarrow> finite_pos p"
  by (auto simp: finite_pos_def moved_def dest!: f64_add_Fin)

lemma poisoned_put:
  assumes "poisoned w" "\<And>v. map_of (wd_players w) k = Some v \<Longrightarrow> finite_pos v' \<Longrightarrow> finite_pos v"
  shows "poisoned (put_player k v' w)"
proof -
  obtain j p where "map_of (wd_players w) j = Some p" "\<not> finite_pos p" using assms(1) by (auto simp: poisoned_def)
  then show ?thesis using assms(2) unfolding poisoned_def put_player_def
    by (cases "j = k") (auto simp: update_conv intro: exI [of _ j] exI [of _ k])
qed

lemma poisoned_action: "poisoned w \<Longrightarrow> poisoned (applyAction a w)"
proof -
  assume w: "poisoned w"
  have same: "poisoned (put_player k (f v) u)"
    if "poisoned u" "map_of (wd_players u) k = Some v" "ps_Position (f v) = ps_Position v" for u k v and f :: "PlayerState \<Rightarrow> PlayerState"
    using that by (intro poisoned_put) (auto simp: finite_pos_def)
  note hit = same [where f = "\<lambda>t. t\<lparr>ps_Health := ps_Health t - 10\<rparr>"]
    and kill = same [where f = "\<lambda>t. t\<lparr>ps_Health := ps_Health t - 10, ps_Alive := False\<rparr>"]
    and score = same [where f = "\<lambda>p. p\<lparr>ps_Score := ps_Score p + 100\<rparr>"]
  have move: "poisoned (put_player k (moved p d) w)" if "map_of (wd_players w) k = Some p" for k p d
    using w that moved_finite by (intro poisoned_put) auto
  show ?thesis
    using w move hit [OF w] kill [OF w] score [OF kill [OF w]]
    by (auto simp: applyAction_def Let_def split: option.splits)
qed

lemma those_map_None: "x \<in> set xs \<Longrightarrow> f x = None \<Longrightarrow> those (map f xs) = None"
  by (induction xs) (auto split: option.splits)

lemma poisoned_update: "poisoned w \<Longrightarrow> \<exists>e. encodeStateUpdate (snd (snapshot w)) = Inl e"
proof -
  assume "poisoned w"
  then obtain k p where p: "map_of (wd_players w) k = Some p" "\<not> finite_pos p" by (auto simp: poisoned_def)
  then have "p \<in> set (map snd (wd_players w))" by (force dest: map_of_SomeD)
  moreover have "player_json p = None"
    using p(2) by (auto simp: player_json_def vec_json_def json_float_def finite_pos_def split: option.splits f64.splits)
  ultimately have "those (map player_json (map snd (wd_players w))) = None" by (rule those_map_None)
  then show ?thesis by (simp add: encodeStateUpdate_def snapshot_def Let_def)
qed

lemma poisoned_tick: "poisoned (w\<lparr>wd_tick := t\<rparr>) \<longleftrightarrow> poisoned w"
  by (simp add: poisoned_def)

lemma poisoned_message:
  assumes "poisoned w" "player_message pid w pt = Returns (w', r)"
  shows "poisoned w'" "r = None \<or> r = Some []"
proof -
  consider "w' = w" "r = None" | v where "v = w \<or> (\<exists>a. v = applyAction a w)" "w' = fst (snapshot v)"
      "r = Some (case encodeStateUpdate (snd (snapshot v)) of Inl _ \<Rightarrow> [] | Inr b \<Rightarrow> b)"
    using player_message_world [OF assms(2)] by blast
  then have "poisoned w' \<and> (r = None \<or> r = Some [])"
  proof cases
    case (2 v)
    then have "poisoned v" using assms(1) poisoned_action by blast
    with poisoned_update [of v] 2 show ?thesis by (auto simp: snapshot_world poisoned_tick)
  qed (use assms(1) in simp)
  then show "poisoned w'" "r = None \<or> r = Some []" by simp_all
qed

lemma poisoned_run:
  "poisoned w \<Longrightarrow> app_run (player_message pid) w ps = Returns (w', rs) \<Longrightarrow> poisoned w' \<and> set rs \<subseteq> {[]}"
proof (induction ps arbitrary: w rs)
  case (Cons p ps)
  obtain w1 r rs1 where step: "player_message pid w p = Returns (w1, r)" "app_run (player_message pid) w1 ps = Returns (w', rs1)"
      "rs = (case r of None \<Rightarrow> rs1 | Some a \<Rightarrow> a # rs1)"
    using Cons.prems(2) by (auto split: call.splits prod.splits)
  from Cons.IH [OF poisoned_message(1) [OF Cons.prems(1) step(1)] step(2)] poisoned_message(2) [OF Cons.prems(1) step(1)] step(3)
  show ?case by auto
qed simp

text \<open>A product out of range.\<close>

lemma fl64_overflow:
  assumes "2 ^ 1024 \<le> \<bar>z\<bar>"
  shows "fl64 z = Inf (0 < z)"
proof -
  define e where "e = expo \<bar>z\<bar>"
  define g :: rat where "g = power_int 2 (e - 52)"
  have z: "0 < \<bar>z\<bar>" using assms by (rule less_le_trans [rotated]) simp
  have "power_int 2 1024 < power_int (2 :: rat) (e + 1)"
    using assms expo_bounds(2) [OF z] unfolding e_def by (simp only: power_int_numeral)
  then have "1024 < e + 1" by (subst (asm) powi_less_iff) simp_all
  then have e: "1024 \<le> e" by simp
  then have q: "grid \<bar>z\<bar> = e - 52" by (simp add: grid_def e_def)
  have g: "0 < g" by (simp add: g_def)
  have pow: "power_int (2 :: rat) e = 2 ^ 52 * g"
    using power_int_add [of "2 :: rat" 52 "e - 52"] by (simp add: g_def)
  have "2 ^ 52 * g \<le> \<bar>z\<bar>" using expo_bounds(1) [OF z] pow by (simp add: e_def)
  then have "2 ^ 52 \<le> \<bar>z\<bar> / g" using g by (simp add: pos_le_divide_eq)
  then have "2 ^ 52 - 1 < rat_of_int (round_even (\<bar>z\<bar> / g))" using round_even_error [of "\<bar>z\<bar> / g"] by linarith
  then have "rat_of_int (2 ^ 52 - 1) < of_int (round_even (\<bar>z\<bar> / g))" by simp
  then have "2 ^ 52 - 1 < round_even (\<bar>z\<bar> / g)" by (simp only: of_int_less_iff)
  then have "rat_of_int (2 ^ 52) \<le> of_int (round_even (\<bar>z\<bar> / g))" by (simp only: of_int_le_iff)
  then have "2 ^ 52 * g \<le> of_int (round_even (\<bar>z\<bar> / g)) * g" using g by (intro mult_right_mono) simp_all
  moreover have "power_int 2 1024 \<le> power_int (2 :: rat) e" using e by (intro iffD2 [OF powi_le_iff]) simp_all
  ultimately have "power_int 2 1024 \<le> of_int (round_even (\<bar>z\<bar> / g)) * g" using pow by linarith
  then have "2 ^ 1024 \<le> of_int (round_even (\<bar>z\<bar> / g)) * g" by (simp only: power_int_numeral)
  with z show ?thesis by (simp add: fl64_def Let_def q g_def)
qed


text \<open>An action as a client sends it, and as the server reads it.\<close>

definition action_ok :: "GameAction \<Rightarrow> bool" where
  "action_ok a \<longleftrightarrow> ascii (ga_PlayerID a) \<and> ascii (ga_Action a) \<and> ascii (ga_TargetID a) \<and> ga_SequenceNum a < 2 ^ 64 \<and>
     in_int64 (ga_TimestampMs a) \<and>
     (\<exists>x y. ga_Direction a = \<lparr>vc_X = Fin x, vc_Y = Fin y\<rparr> \<and> fl64 x = Fin x \<and> fl64 y = Fin y)"

lemma action_roundtrip:
  assumes "action_ok a" "encodeAction a = Inr f"
  shows "\<exists>p. f = app_frame MsgGameAction p \<and> json_unmarshal action_fields (bytes_to_string p) empty_action = (a, False)"
proof -
  obtain x y where d: "ga_Direction a = \<lparr>vc_X = Fin x, vc_Y = Fin y\<rparr>" "fl64 x = Fin x" "fl64 y = Fin y"
    using assms(1) by (auto simp: action_ok_def)
  note fx = json_float_field [OF d(2)] and fy = json_float_field [OF d(3)]
  let ?v = "[(''x'', JNum (float_text x)), (''y'', JNum (float_text y))]"
  let ?ms = "[(''player_id'', JStr (ga_PlayerID a)), (''action'', JStr (ga_Action a)), (''direction'', JObj ?v)] @
    (if ga_TargetID a = [] then [] else [(''target_id'', JStr (ga_TargetID a))]) @
    [(''seq'', JNum (show_nat (ga_SequenceNum a))), (''timestamp_ms'', JNum (show_int (ga_TimestampMs a)))]"
  have f: "f = app_frame MsgGameAction (string_to_bytes (json_print (JObj ?ms)))"
    using assms(2) by (simp add: encodeAction_def vec_json_def d(1) fx(1) fy(1) del: json_print.simps)
  have ok: "json_ok (JObj ?ms)" using assms(1) fx(2) fy(2) by (auto simp: action_ok_def ascii_def code_def)
  have dir: "direction_field (JObj ?v) s = Some (s\<lparr>ga_Direction := ga_Direction a\<rparr>)" if "ga_Direction s = origin" for s :: GameAction
    using that by (simp add: direction_field_def decode_struct_def vec_fields_def fx(3) fy(3) d(1) origin_def)
  have "decode_members action_fields ?ms empty_action = (a, False)"
    using assms(1) dir unfolding action_fields_def empty_action_def by (cases a) (auto simp: action_ok_def)
  then have "json_unmarshal action_fields (json_print (JObj ?ms)) empty_action = (a, False)"
    by (simp only: json_unmarshal_print [OF ok])
  then have "json_unmarshal action_fields (bytes_to_string (string_to_bytes (json_print (JObj ?ms)))) empty_action = (a, False)"
    by (simp only: bytes_to_string_to_bytes)
  with f show ?thesis by blast
qed

section \<open>Properties\<close>





definition far_move :: json where
  "far_move = JObj [(''action'', JStr ''move''), (''direction'', JObj [(''x'', JNum (show_nat (2 ^ 1023)))])]"

lemma fl64_power: "fl64 (2 ^ 1023) = Fin (2 ^ 1023)"
proof (rule fl64_integral)
  have p: "power_int (2 :: rat) 1023 = 2 ^ 1023" by (rule power_int_numeral)
  have "expo (power_int 2 1023) = 1023"
    by (rule expo_unique) (auto intro: iffD2 [OF powi_less_iff])
  then have "grid (2 ^ 1023) = 971" by (simp add: grid_def p del: power_int_numeral)
  then show "2 ^ 1023 = rat_of_int (2 ^ 52) * power_int 2 (grid (2 ^ 1023))"
    by (simp only: power_int_numeral of_int_power of_int_numeral power_add [symmetric]) simp
qed simp_all

lemma num_value_show_nat: "num_value (show_nat n) = of_nat n"
  using num_value_fixed(1) [of "[]" 0 n 0] by (simp add: fixed_text_def)

lemma far_move_decodes:
  "json_unmarshal action_fields (json_print far_move) empty_action
     = (empty_action\<lparr>ga_Action := ''move'', ga_Direction := \<lparr>vc_X = Fin (2 ^ 1023), vc_Y = Fin 0\<rparr>\<rparr>, False)"
proof -
  define d where "d = show_nat (2 ^ 1023)"
  have x: "float_field upd (JNum d) s = Some (upd (Fin (2 ^ 1023)) s)" for upd and s :: Vec2
    using fl64_power by (simp add: float_field_def d_def num_value_show_nat)
  have ok: "json_ok (JObj [(''action'', JStr ''move''), (''direction'', JObj [(''x'', JNum d)])])"
    by (simp add: d_def code_def)
  show ?thesis
    unfolding far_move_def d_def [symmetric] json_unmarshal_print [OF ok]
    by (simp add: action_fields_def empty_action_def direction_field_def decode_struct_def vec_fields_def x origin_def)
qed

lemma far_move_short: "length (json_print far_move) < 1000"
proof -
  have "(10 :: nat) ^ (length (show_nat (2 ^ 1023)) - 1) \<le> 2 ^ 1023" using show_nat_bounds [of "2 ^ 1023"] by simp
  also have "\<dots> < 10 ^ 400" by simp
  finally have "length (show_nat (2 ^ 1023)) - 1 < 400" by (rule power_less_imp_less_exp [rotated]) simp
  then show ?thesis
    by (simp add: far_move_def json_quote_def quote_body_ascii ascii_def code_def esc_char_def)
qed


end
