(* ===== verification/App_Notifications.thy ===== *)
theory App_Notifications
  imports App_Frames
begin

text \<open>
  \<open>examples/notifications\<close>: clients subscribe to channels over Noise sessions, and what is posted to \<open>/send\<close> goes to the
  subscribers of its channel.  A subscriber holds its session and the state of its connection, as the code's does; the
  goroutine of a client takes turns with the others, and \<open>client_turn\<close> is one of its turns.
\<close>

section \<open>messages.go\<close>

definition MsgNotification :: byte where "MsgNotification = 1"
definition MsgSubscribe :: byte where "MsgSubscribe = 2"
definition MsgAck :: byte where "MsgAck = 3"

record Notification =
  nt_ID :: string
  nt_Channel :: string
  nt_Title :: string
  nt_Body :: string
  nt_Priority :: string
  nt_TimestampMs :: int

record Subscription =
  sc_Channels :: "string list option"
  sc_UserID :: string

record NotifyAck =
  na_NotificationID :: string
  na_Status :: string

definition notification_json :: "Notification \<Rightarrow> json" where
  "notification_json n = JObj
     [(''id'', JStr (nt_ID n)), (''channel'', JStr (nt_Channel n)), (''title'', JStr (nt_Title n)), (''body'', JStr (nt_Body n)),
      (''priority'', JStr (nt_Priority n)), (''timestamp_ms'', JNum (show_int (nt_TimestampMs n)))]"

definition encodeNotification :: "Notification \<Rightarrow> goerr + bytes" where
  "encodeNotification n = Inr (app_frame MsgNotification (string_to_bytes (json_print (notification_json n))))"

definition subscription_json :: "Subscription \<Rightarrow> json" where
  "subscription_json s = JObj
     [(''channels'', (case sc_Channels s of None \<Rightarrow> JNull | Some cs \<Rightarrow> JArr (map JStr cs))), (''user_id'', JStr (sc_UserID s))]"

definition encodeSubscription :: "Subscription \<Rightarrow> goerr + bytes" where
  "encodeSubscription s = Inr (app_frame MsgSubscribe (string_to_bytes (json_print (subscription_json s))))"

definition encodeAck :: "NotifyAck \<Rightarrow> goerr + bytes" where
  "encodeAck a = Inr (app_frame MsgAck (string_to_bytes (json_print (JObj
     [(''notification_id'', JStr (na_NotificationID a)), (''status'', JStr (na_Status a))]))))"

definition notify_decodeFrame :: "bytes \<Rightarrow> (goerr + byte \<times> bytes) call" where
  "notify_decodeFrame = decodeFrame"

definition notification_fields :: "(string \<times> Notification field) list" where
  "notification_fields =
     [(''id'', str_field (\<lambda>v s. s\<lparr>nt_ID := v\<rparr>)), (''channel'', str_field (\<lambda>v s. s\<lparr>nt_Channel := v\<rparr>)),
      (''title'', str_field (\<lambda>v s. s\<lparr>nt_Title := v\<rparr>)), (''body'', str_field (\<lambda>v s. s\<lparr>nt_Body := v\<rparr>)),
      (''priority'', str_field (\<lambda>v s. s\<lparr>nt_Priority := v\<rparr>)), (''timestamp_ms'', int64_field (\<lambda>v s. s\<lparr>nt_TimestampMs := v\<rparr>))]"

text \<open>An array of strings; a null among them is the empty string.\<close>

fun string_elems :: "json list \<Rightarrow> string list option" where
  "string_elems [] = Some []"
| "string_elems (JStr t # js) = map_option (Cons t) (string_elems js)"
| "string_elems (JNull # js) = map_option (Cons []) (string_elems js)"
| "string_elems _ = None"

definition strings_field :: "(string list option \<Rightarrow> 's \<Rightarrow> 's) \<Rightarrow> 's field" where
  "strings_field upd j s = (case j of JNull \<Rightarrow> Some (upd None s)
     | JArr js \<Rightarrow> map_option (\<lambda>cs. upd (Some cs) s) (string_elems js) | _ \<Rightarrow> None)"

definition subscription_fields :: "(string \<times> Subscription field) list" where
  "subscription_fields = [(''channels'', strings_field (\<lambda>v s. s\<lparr>sc_Channels := v\<rparr>)), (''user_id'', str_field (\<lambda>v s. s\<lparr>sc_UserID := v\<rparr>))]"

definition empty_notification :: Notification where
  "empty_notification = \<lparr>nt_ID = [], nt_Channel = [], nt_Title = [], nt_Body = [], nt_Priority = [], nt_TimestampMs = 0\<rparr>"

definition empty_subscription :: Subscription where
  "empty_subscription = \<lparr>sc_Channels = None, sc_UserID = []\<rparr>"

section \<open>server.go\<close>

record ('c, 'io) subscriber =
  sb_session :: "'c NoiseSession"
  sb_conn :: 'io
  sb_channels :: "string list"
  sb_userID :: string

record ('c, 'io) notifyHub =
  hb_subscribers :: "(string \<times> ('c, 'io) subscriber) list"

definition newHub :: "('c, 'io) notifyHub" where
  "newHub = \<lparr>hb_subscribers = []\<rparr>"

definition addSubscriber :: "string \<Rightarrow> ('c, 'io) subscriber \<Rightarrow> ('c, 'io) notifyHub \<Rightarrow> ('c, 'io) notifyHub" where
  "addSubscriber cid sub h = h\<lparr>hb_subscribers := AList.update cid sub (hb_subscribers h)\<rparr>"

definition removeSubscriber :: "string \<Rightarrow> ('c, 'io) notifyHub \<Rightarrow> ('c, 'io) notifyHub" where
  "removeSubscriber cid h = h\<lparr>hb_subscribers := AList.delete cid (hb_subscribers h)\<rparr>"

definition wants :: "Notification \<Rightarrow> ('c, 'io) subscriber \<Rightarrow> bool" where
  "wants n sub \<longleftrightarrow> nt_Channel n \<in> set (sb_channels sub) \<or> ''*'' \<in> set (sb_channels sub)"

text \<open>The body of the loop of \<open>broadcast\<close>: the subscriber after it, and whether the message counts as sent.\<close>

definition send_to ::
  "('h, 'c) noise_ops \<Rightarrow> 'io writer \<Rightarrow> Notification \<Rightarrow> bytes \<Rightarrow> ('c, 'io) subscriber \<Rightarrow> ('c, 'io) subscriber \<times> nat" where
  "send_to N write n msg sub =
     (if wants n sub then
        (case NoiseSession_Encrypt N (sb_session sub) msg of
           (Inl _, s) \<Rightarrow> (sub\<lparr>sb_session := s\<rparr>, 0)
         | (Inr ct, s) \<Rightarrow>
             (case write ct (sb_conn sub) of
                (Some _, io) \<Rightarrow> (sub\<lparr>sb_session := s, sb_conn := io\<rparr>, 0)
              | (None, io) \<Rightarrow> (sub\<lparr>sb_session := s, sb_conn := io\<rparr>, 1)))
      else (sub, 0))"

definition broadcast ::
  "('h, 'c) noise_ops \<Rightarrow> 'io writer \<Rightarrow> Notification \<Rightarrow> ('c, 'io) notifyHub \<Rightarrow> ('c, 'io) notifyHub \<times> nat" where
  "broadcast N write n h =
     (case encodeNotification n of Inl _ \<Rightarrow> (h, 0)
      | Inr msg \<Rightarrow>
          (h\<lparr>hb_subscribers := map (\<lambda>(k, sub). (k, fst (send_to N write n msg sub))) (hb_subscribers h)\<rparr>,
           \<Sum>(k, sub) \<leftarrow> hb_subscribers h. snd (send_to N write n msg sub)))"

text \<open>
  The handler of \<open>/send\<close>: its status and body.  The decoder takes the first value of the body and ignores what follows;
  \<open>jerr\<close> is the text of its error.
\<close>

definition json_decode :: "(string \<times> 's field) list \<Rightarrow> string \<Rightarrow> 's \<Rightarrow> 's \<times> bool" where
  "json_decode fs t s = (case parse_value (Suc (length t)) t of None \<Rightarrow> (s, True) | Some (j, _) \<Rightarrow> decode_struct fs j s)"

definition send_handler ::
  "('h, 'c) noise_ops \<Rightarrow> 'io writer \<Rightarrow> (string \<Rightarrow> goerr) \<Rightarrow> int \<Rightarrow> string \<Rightarrow> string \<Rightarrow> ('c, 'io) notifyHub
     \<Rightarrow> ('c, 'io) notifyHub \<times> nat \<times> string" where
  "send_handler N write jerr nowMs meth body h =
     (if meth \<noteq> ''POST'' then (h, 405, ''POST only'' @ [CHR 0x0A])
      else case json_decode notification_fields body empty_notification of
          (_, True) \<Rightarrow> (h, 400, jerr body @ [CHR 0x0A])
        | (n, False) \<Rightarrow>
            (let n = (if nt_TimestampMs n = 0 then n\<lparr>nt_TimestampMs := nowMs\<rparr> else n);
                 (h, sent) = broadcast N write n h
             in (h, 200, CHR ''{'' # CHR 0x22 # ''sent'' @ CHR 0x22 # '': '' @ show_nat sent @ ''}'')))"

text \<open>\<open>handleClient\<close>: the join after the handshake, and a turn of its loop; the second result tells that it has ended.\<close>

definition client_join ::
  "('h, 'c) noise_ops \<Rightarrow> KeyPair \<Rightarrow> bytes \<Rightarrow> 'io reader \<Rightarrow> 'io writer \<Rightarrow> string \<Rightarrow> 'io \<Rightarrow> ('c, 'io) notifyHub
     \<Rightarrow> ('c, 'io) notifyHub \<times> bool" where
  "client_join N key rnd read write remoteAddr io h =
     (case ServerHandshake N key rnd read write io of
        (Inl _, io) \<Rightarrow> (h, False)
      | (Inr session, io) \<Rightarrow>
          (addSubscriber remoteAddr \<lparr>sb_session = session, sb_conn = io, sb_channels = [''*''], sb_userID = remoteAddr\<rparr> h, True))"

definition client_turn ::
  "('h, 'c) noise_ops \<Rightarrow> 'io reader \<Rightarrow> string \<Rightarrow> ('c, 'io) notifyHub \<Rightarrow> (('c, 'io) notifyHub \<times> bool) call" where
  "client_turn N read cid h =
     (case map_of (hb_subscribers h) cid of None \<Rightarrow> Returns (h, True)
      | Some sub \<Rightarrow>
          (case read (sb_conn sub) of
             (Inl _, io) \<Rightarrow> Returns (removeSubscriber cid h, True)
           | (Inr ct, io) \<Rightarrow>
               (case NoiseSession_Decrypt N (sb_session sub) ct of
                  (Inl _, _) \<Rightarrow> Returns (removeSubscriber cid h, True)
                | (Inr pt, session) \<Rightarrow>
                    (let sub = sub\<lparr>sb_session := session, sb_conn := io\<rparr>; h = addSubscriber cid sub h in
                     case notify_decodeFrame pt of Panic e \<Rightarrow> Panic e
                     | Returns (Inl _) \<Rightarrow> Returns (h, False)
                     | Returns (Inr (msgType, payload)) \<Rightarrow>
                         if msgType = MsgSubscribe then
                           (case json_unmarshal subscription_fields (bytes_to_string payload) empty_subscription of
                              (_, True) \<Rightarrow> Returns (h, False)
                            | (s, False) \<Rightarrow> Returns (addSubscriber cid (sub\<lparr>sb_userID := sc_UserID s,
                                sb_channels := (case sc_Channels s of None \<Rightarrow> [] | Some cs \<Rightarrow> cs)\<rparr>) h, False))
                         else Returns (h, False)))))"

text \<open>The client: it subscribes, then acknowledges every notification until its connection ends.\<close>

definition drop_err :: "goerr + bytes \<Rightarrow> bytes" where
  "drop_err r = (case r of Inl _ \<Rightarrow> [] | Inr b \<Rightarrow> b)"

partial_function (option) notify_loop ::
  "('h, 'c) noise_ops \<Rightarrow> 'io reader \<Rightarrow> 'io writer \<Rightarrow> 'c NoiseSession \<Rightarrow> 'io \<Rightarrow> 'io call option" where
  "notify_loop N read write session io =
     (case read io of (Inl _, io) \<Rightarrow> Some (Returns io)
      | (Inr respCT, io) \<Rightarrow>
          (let (r, session) = NoiseSession_Decrypt N session respCT in
           case notify_decodeFrame (drop_err r) of Panic e \<Rightarrow> Some (Panic e)
           | Returns f \<Rightarrow>
               (let (msgType, payload) = (case f of Inl _ \<Rightarrow> (0, []) | Inr f \<Rightarrow> f) in
                if msgType = MsgNotification then
                  (let n = fst (json_unmarshal notification_fields (bytes_to_string payload) empty_notification);
                       (r, session) = NoiseSession_Encrypt N session
                         (drop_err (encodeAck \<lparr>na_NotificationID = nt_ID n, na_Status = ''delivered''\<rparr>))
                   in notify_loop N read write session (snd (write (drop_err r) io)))
                else notify_loop N read write session io)))"

definition notify_runClient ::
  "('h, 'c) noise_ops \<Rightarrow> string \<Rightarrow> KeyPair \<Rightarrow> bytes \<Rightarrow> 'io reader \<Rightarrow> 'io writer \<Rightarrow> 'io \<Rightarrow> (goerr + 'io call) option" where
  "notify_runClient N userID key rnd read write io =
     (case ClientHandshake N key rnd read write io of
        (Inl e, io) \<Rightarrow> Some (Inl (''handshake: '' @ e))
      | (Inr session, io) \<Rightarrow>
          (let (r, session) = NoiseSession_Encrypt N session
                 (drop_err (encodeSubscription \<lparr>sc_Channels = Some [''alerts'', ''updates''], sc_UserID = userID\<rparr>))
           in map_option Inr (notify_loop N read write session (snd (write (drop_err r) io)))))"


section \<open>Delivery\<close>

definition notif_frame :: "Notification \<Rightarrow> bytes" where
  "notif_frame n = app_frame MsgNotification (string_to_bytes (json_print (notification_json n)))"

definition notif_ack :: "Notification \<Rightarrow> bytes" where
  "notif_ack n = drop_err (encodeAck \<lparr>na_NotificationID = nt_ID n, na_Status = ''delivered''\<rparr>)"

definition notification_ok :: "Notification \<Rightarrow> bool" where
  "notification_ok n \<longleftrightarrow> ascii (nt_ID n) \<and> ascii (nt_Channel n) \<and> ascii (nt_Title n) \<and> ascii (nt_Body n) \<and> ascii (nt_Priority n) \<and>
     in_int64 (nt_TimestampMs n) \<and> length (notif_frame n) < 2 ^ 32"

lemma notification_roundtrip:
  assumes "notification_ok n"
  shows "json_unmarshal notification_fields (json_print (notification_json n)) empty_notification = (n, False)"
proof -
  have "json_ok (notification_json n)" using assms by (simp add: notification_ok_def notification_json_def ascii_def code_def)
  then have "json_unmarshal notification_fields (json_print (notification_json n)) empty_notification
      = decode_members notification_fields
     [(''id'', JStr (nt_ID n)), (''channel'', JStr (nt_Channel n)), (''title'', JStr (nt_Title n)), (''body'', JStr (nt_Body n)),
      (''priority'', JStr (nt_Priority n)), (''timestamp_ms'', JNum (show_int (nt_TimestampMs n)))] empty_notification"
    unfolding notification_json_def by (rule json_unmarshal_print)
  with assms show ?thesis by (cases n) (simp add: notification_fields_def empty_notification_def notification_ok_def)
qed

lemma string_elems_map [simp]: "string_elems (map JStr cs) = Some cs"
  by (induction cs) simp_all

lemma subscription_roundtrip:
  assumes "\<forall>c \<in> set cs. ascii c" "ascii u"
  shows "json_unmarshal subscription_fields (json_print (subscription_json \<lparr>sc_Channels = Some cs, sc_UserID = u\<rparr>)) empty_subscription
    = (\<lparr>sc_Channels = Some cs, sc_UserID = u\<rparr>, False)"
proof -
  have "json_ok (JObj [(''channels'', JArr (map JStr cs)), (''user_id'', JStr u)])" using assms by (auto simp: ascii_def code_def)
  from json_unmarshal_print [OF this, of subscription_fields empty_subscription] show ?thesis
    by (simp add: subscription_json_def subscription_fields_def empty_subscription_def strings_field_def del: json_print.simps)
qed

text \<open>What a run of broadcasts does to one subscriber, whatever the others do.\<close>

lemma broadcasts_lookup:
  "map_of (hb_subscribers (fold (\<lambda>n h. fst (broadcast N write n h)) ns h)) k
     = map_option (fold (\<lambda>n sub. fst (send_to N write n (notif_frame n) sub)) ns) (map_of (hb_subscribers h) k)"
proof (induction ns arbitrary: h)
  case (Cons n ns)
  have "map_of (hb_subscribers (fst (broadcast N write n h))) k
      = map_option (\<lambda>sub. fst (send_to N write n (notif_frame n) sub)) (map_of (hb_subscribers h) k)"
    by (simp add: broadcast_def encodeNotification_def notif_frame_def map_of_map)
  then show ?case by (simp add: Cons.IH option.map_comp comp_def)
qed (simp add: option.map_id)

lemma broadcasts_reach:
  "encrypt_all N (sb_session sub) (map notif_frame (filter (\<lambda>n. wants n sub) ns)) = (Inr es, s') \<Longrightarrow>
   fold (\<lambda>n sub. fst (send_to N pipe_write n (notif_frame n) sub)) ns sub
     = sub\<lparr>sb_session := s', sb_conn := (sb_conn sub)\<lparr>outgoing := outgoing (sb_conn sub) @ es\<rparr>\<rparr>"
proof (induction ns arbitrary: sub es)
  case (Cons n ns)
  show ?case
  proof (cases "wants n sub")
    case True
    then obtain e s1 es' where e: "NoiseSession_Encrypt N (sb_session sub) (notif_frame n) = (Inr e, s1)"
      "encrypt_all N s1 (map notif_frame (filter (\<lambda>n. wants n sub) ns)) = (Inr es', s')" "es = e # es'"
      using Cons.prems by (auto simp: encrypt_all_Cons simp del: encrypt_all.simps)
    let ?sub = "sub\<lparr>sb_session := s1, sb_conn := (sb_conn sub)\<lparr>outgoing := outgoing (sb_conn sub) @ [e]\<rparr>\<rparr>"
    have "fst (send_to N pipe_write n (notif_frame n) sub) = ?sub" using True by (simp add: send_to_def e(1) pipe_write_def)
    moreover have "wants m ?sub = wants m sub" for m by (simp add: wants_def)
    ultimately show ?thesis using Cons.IH [of ?sub es'] e(2,3) by simp
  next
    case False
    then have "send_to N pipe_write n (notif_frame n) sub = (sub, 0)" by (simp add: send_to_def)
    with False Cons show ?thesis by simp
  qed
qed simp

text \<open>The client acknowledges what reaches it.\<close>

lemma notify_loop_acks:
  assumes N: "noise_cipher N paired"
  shows "\<lbrakk>paired (Send s) (Recv c); \<forall>n \<in> set ns. notification_ok n; encrypt_all N s (map notif_frame ns) = (Inr es, s');
     encrypt_all N c (map notif_ack ns) = (Inr as, c')\<rbrakk> \<Longrightarrow>
   notify_loop N pipe_read pipe_write c \<lparr>incoming = es, outgoing = out\<rparr> = Some (Returns \<lparr>incoming = [], outgoing = out @ as\<rparr>)"
proof (induction ns arbitrary: s c c' es as out)
  case Nil
  then show ?case by (subst notify_loop.simps) simp
next
  case (Cons n ns)
  obtain e s1 es' where e: "NoiseSession_Encrypt N s (notif_frame n) = (Inr e, s1)"
    "encrypt_all N s1 (map notif_frame ns) = (Inr es', s')" "es = e # es'"
    using Cons.prems(3) by (auto simp: encrypt_all_Cons simp del: encrypt_all.simps)
  obtain a c1 as' where a: "NoiseSession_Encrypt N c (notif_ack n) = (Inr a, c1)"
    "encrypt_all N c1 (map notif_ack ns) = (Inr as', c')" "as = a # as'"
    using Cons.prems(4) by (auto simp: encrypt_all_Cons simp del: encrypt_all.simps)
  obtain x where x: "NoiseSession_Decrypt N c e = (Inr (notif_frame n), c\<lparr>Recv := x\<rparr>)" "paired (Send s1) x"
    using half_sync [OF N Cons.prems(1) e(1)] by blast
  have ok: "notification_ok n" using Cons.prems(2) by simp
  then have f: "notify_decodeFrame (notif_frame n)
      = Returns (Inr (MsgNotification, string_to_bytes (json_print (notification_json n))))"
    unfolding notify_decodeFrame_def notif_frame_def by (intro decodeFrame_frame) (simp add: notification_ok_def notif_frame_def)
  have "notify_loop N pipe_read pipe_write (c1\<lparr>Recv := x\<rparr>) \<lparr>incoming = es', outgoing = out @ [a]\<rparr>
      = Some (Returns \<lparr>incoming = [], outgoing = (out @ [a]) @ as'\<rparr>)"
    by (rule Cons.IH [OF _ _ e(2) encrypt_all_Recv [OF a(2)]]) (use x(2) Cons.prems(2) in simp_all)
  then show ?case
    using Encrypt_Recv [OF a(1), of x]
    by (subst notify_loop.simps)
      (simp add: e(3) a(3) x(1) f drop_err_def notification_roundtrip [OF ok] notif_ack_def [unfolded drop_err_def, symmetric])
qed

definition client_subscription :: "string \<Rightarrow> Subscription" where
  "client_subscription userID = \<lparr>sc_Channels = Some [''alerts'', ''updates''], sc_UserID = userID\<rparr>"

definition subscribed :: "Notification \<Rightarrow> bool" where
  "subscribed n \<longleftrightarrow> nt_Channel n \<in> {''alerts'', ''updates''}"

lemma client_subscription_sel [simp]:
  "sc_Channels (client_subscription u) = Some [''alerts'', ''updates'']" "sc_UserID (client_subscription u) = u"
  by (simp_all add: client_subscription_def)

text \<open>The turn of the handler that reads the subscription.\<close>

lemma subscription_turn:
  assumes "ascii userID" "encodeSubscription (client_subscription userID) = Inr f" "length f < 2 ^ 32"
    and "map_of (hb_subscribers h) addr = Some sub" "sb_conn sub = \<lparr>incoming = ct # i, outgoing = out\<rparr>"
    and "NoiseSession_Decrypt N (sb_session sub) ct = (Inr f, s)"
  shows "\<exists>h2. client_turn N pipe_read addr h = Returns (h2, False) \<and> map_of (hb_subscribers h2) addr
    = Some \<lparr>sb_session = s, sb_conn = \<lparr>incoming = i, outgoing = out\<rparr>, sb_channels = [''alerts'', ''updates''], sb_userID = userID\<rparr>"
proof -
  let ?p = "json_print (subscription_json (client_subscription userID))"
  have f: "f = app_frame MsgSubscribe (string_to_bytes ?p)" using assms(2) by (simp add: encodeSubscription_def)
  have d: "notify_decodeFrame f = Returns (Inr (MsgSubscribe, string_to_bytes ?p))"
    unfolding f notify_decodeFrame_def by (intro decodeFrame_frame) (use assms(3) f in simp)
  have "json_unmarshal subscription_fields ?p empty_subscription = (client_subscription userID, False)"
    unfolding client_subscription_def by (intro subscription_roundtrip) (use assms(1) in \<open>simp_all add: ascii_def code_def\<close>)
  with d assms(4-6) show ?thesis
    by (cases sub) (simp add: client_turn_def addSubscriber_def update_conv' Let_def)
qed

text \<open>
  C17. A client of the notification server gets what it subscribed to.  The server takes the client in after the handshake;
  the first turn of its handler reads the subscription to \<open>alerts\<close> and \<open>updates\<close>; and of any notifications broadcast from
  then on, whoever else is subscribed, exactly those of the two channels reach the client, each once and in order, and
  the client returns, having acknowledged each by its id.
\<close>

theorem notifications_session:
  assumes "noise_xx N paired" "nz_NewHandshakeState N True kI rI = Inr i0" "nz_NewHandshakeState N False kR rR = Inr r0"
    and "ascii userID" "encodeSubscription (client_subscription userID) = Inr f" "length f < 2 ^ 32" "\<forall>n \<in> set ns. notification_ok n"
  shows "\<exists>m1 m2 m3 c s. app_link paired N kI rI kR rR m1 m2 m3 c s \<and>
    (\<forall>ct c1 es s' as c2. NoiseSession_Encrypt N c f = (Inr ct, c1) \<and>
       encrypt_all N s (map notif_frame (filter subscribed ns)) = (Inr es, s') \<and>
       encrypt_all N c1 (map notif_ack (filter subscribed ns)) = (Inr as, c2) \<longrightarrow>
     (\<exists>h1 h2 sub.
       client_join N kR rR pipe_read pipe_write addr \<lparr>incoming = [m1, m3, ct], outgoing = []\<rparr> h = (h1, True) \<and>
       client_turn N pipe_read addr h1 = Returns (h2, False) \<and>
       map_of (hb_subscribers (fold (\<lambda>n h. fst (broadcast N pipe_write n h)) ns h2)) addr = Some sub \<and>
       sb_conn sub = \<lparr>incoming = [], outgoing = m2 # es\<rparr> \<and>
       notify_runClient N userID kI rI pipe_read pipe_write \<lparr>incoming = m2 # es, outgoing = []\<rparr>
         = Some (Inr (Returns \<lparr>incoming = [], outgoing = m1 # m3 # ct # as\<rparr>))))"
proof -
  have N: "noise_cipher N paired" using assms(1) by (rule noise_xx.axioms)
  obtain m1 m2 m3 c s where link: "app_link paired N kI rI kR rR m1 m2 m3 c s" using app_link_exists [OF assms(1-3)] .
  then have m: "paired (Send c) (Recv s)" "paired (Send s) (Recv c)" by (simp_all add: app_link_def mirrored_def)
  let ?sub = "\<lambda>s i ch u. \<lparr>sb_session = s, sb_conn = \<lparr>incoming = i, outgoing = [m2]\<rparr>, sb_channels = ch, sb_userID = u\<rparr>"
  {
    fix ct c1 es s' as c2
    assume e: "NoiseSession_Encrypt N c f = (Inr ct, c1)"
      and es: "encrypt_all N s (map notif_frame (filter subscribed ns)) = (Inr es, s')"
      and as: "encrypt_all N c1 (map notif_ack (filter subscribed ns)) = (Inr as, c2)"
    obtain x where x: "NoiseSession_Decrypt N s ct = (Inr f, s\<lparr>Recv := x\<rparr>)" using half_sync [OF N m(1) e] by blast
    let ?h1 = "addSubscriber addr (?sub s [ct] [''*''] addr) h"
    have join: "client_join N kR rR pipe_read pipe_write addr \<lparr>incoming = [m1, m3, ct], outgoing = []\<rparr> h = (?h1, True)"
      using link by (simp add: client_join_def app_link_def)
    have "map_of (hb_subscribers ?h1) addr = Some (?sub s [ct] [''*''] addr)" by (simp add: addSubscriber_def update_conv')
    from subscription_turn [OF assms(4-6) this, of ct "[]" "[m2]" N] x
    obtain h2 where turn: "client_turn N pipe_read addr ?h1 = Returns (h2, False)"
      and h2: "map_of (hb_subscribers h2) addr = Some (?sub (s\<lparr>Recv := x\<rparr>) [] [''alerts'', ''updates''] userID)" by auto
    have w: "wants n (?sub (s\<lparr>Recv := x\<rparr>) [] [''alerts'', ''updates''] userID) = subscribed n" for n
      by (simp add: wants_def subscribed_def)
    from broadcasts_reach [of N "?sub (s\<lparr>Recv := x\<rparr>) [] [''alerts'', ''updates''] userID" ns es "s'\<lparr>Recv := x\<rparr>"]
      encrypt_all_Recv [OF es, of x]
    obtain sub where sub: "map_of (hb_subscribers (fold (\<lambda>n h. fst (broadcast N pipe_write n h)) ns h2)) addr = Some sub"
      "sb_conn sub = \<lparr>incoming = [], outgoing = m2 # es\<rparr>" by (simp add: broadcasts_lookup h2 w)
    have "Recv c1 = Recv c" using e encrypt_all_keeps [of N c "[f]" "Inr [ct]" c1] by simp
    with notify_loop_acks [OF N _ _ es as, of "[m1, m3, ct]"] m(2) assms(7) have
      "notify_loop N pipe_read pipe_write c1 \<lparr>incoming = es, outgoing = [m1, m3, ct]\<rparr>
        = Some (Returns \<lparr>incoming = [], outgoing = [m1, m3, ct] @ as\<rparr>)" by simp
    moreover have "ClientHandshake N kI rI pipe_read pipe_write \<lparr>incoming = m2 # es, outgoing = []\<rparr>
        = (Inr c, \<lparr>incoming = es, outgoing = [m1, m3]\<rparr>)" using link by (simp add: app_link_def)
    ultimately have "notify_runClient N userID kI rI pipe_read pipe_write \<lparr>incoming = m2 # es, outgoing = []\<rparr>
        = Some (Inr (Returns \<lparr>incoming = [], outgoing = m1 # m3 # ct # as\<rparr>))"
      using assms(5) e by (simp add: notify_runClient_def client_subscription_def drop_err_def pipe_write_def)
    with join turn sub have "\<exists>h1 h2 sub.
       client_join N kR rR pipe_read pipe_write addr \<lparr>incoming = [m1, m3, ct], outgoing = []\<rparr> h = (h1, True) \<and>
       client_turn N pipe_read addr h1 = Returns (h2, False) \<and>
       map_of (hb_subscribers (fold (\<lambda>n h. fst (broadcast N pipe_write n h)) ns h2)) addr = Some sub \<and>
       sb_conn sub = \<lparr>incoming = [], outgoing = m2 # es\<rparr> \<and>
       notify_runClient N userID kI rI pipe_read pipe_write \<lparr>incoming = m2 # es, outgoing = []\<rparr>
         = Some (Inr (Returns \<lparr>incoming = [], outgoing = m1 # m3 # ct # as\<rparr>))" by blast
  }
  with link show ?thesis by blast
qed

definition sample_note :: "string \<Rightarrow> Notification" where
  "sample_note ch = \<lparr>nt_ID = ''n'', nt_Channel = ch, nt_Title = ''t'', nt_Body = ''b'', nt_Priority = [], nt_TimestampMs = 7\<rparr>"

lemma sample_note_facts:
  "notification_ok (sample_note ''alerts'')" "notification_ok (sample_note ''x'')"
  "\<exists>f. encodeSubscription (client_subscription ''u'') = Inr f \<and> length f < 2 ^ 32"
proof -
  have "show_int 7 = ''7''" by code_simp
  then show "notification_ok (sample_note ''alerts'')" "notification_ok (sample_note ''x'')"
    by (simp_all add: sample_note_def notification_ok_def notif_frame_def notification_json_def
      ascii_def code_def in_int64_def int64_min_def int64_max_def json_quote_def quote_body_ascii esc_char_def)
  show "\<exists>f. encodeSubscription (client_subscription ''u'') = Inr f \<and> length f < 2 ^ 32"
    by (simp add: encodeSubscription_def subscription_json_def ascii_def code_def json_quote_def quote_body_ascii esc_char_def)
qed

lemma chacha_encrypts_twice:
  assumes "snd (Send c) = 0"
  shows "\<exists>ct c1 e c2. NoiseSession_Encrypt noise_chacha c p = (Inr ct, c1) \<and> NoiseSession_Encrypt noise_chacha c1 q = (Inr e, c2)"
  using assms by (cases "Send c") (simp add: NoiseSession_Encrypt_def noise_chacha_def cs_encrypt_def)

theorem notifications_session_witness:
  "\<exists>m1 m2 m3 ct e a. notify_runClient noise_chacha ''u'' \<lparr>Private = [1], Public = [2]\<rparr> [3] pipe_read pipe_write
     \<lparr>incoming = [m2, e], outgoing = []\<rparr> = Some (Inr (Returns \<lparr>incoming = [], outgoing = [m1, m3, ct, a]\<rparr>))"
proof -
  obtain f where f: "encodeSubscription (client_subscription ''u'') = Inr f" "length f < 2 ^ 32" using sample_note_facts(3) by blast
  obtain i0 r0 where new: "nz_NewHandshakeState noise_chacha True \<lparr>Private = [1], Public = [2]\<rparr> [3] = Inr i0"
    "nz_NewHandshakeState noise_chacha False \<lparr>Private = [4], Public = [5]\<rparr> [6] = Inr r0"
    by (simp add: noise_chacha_def xx_new_def)
  have ok: "ascii ''u''" "\<forall>n \<in> set [sample_note ''alerts'', sample_note ''x'']. notification_ok n"
    by (simp add: ascii_def code_def) (use sample_note_facts in simp)
  have fil: "filter subscribed [sample_note ''alerts'', sample_note ''x''] = [sample_note ''alerts'']"
    by (simp add: subscribed_def sample_note_def)
  show ?thesis
    using notifications_session [OF nxx.noise_xx_axioms new ok(1) f ok(2), of "''a''" newHub]
    apply (elim exE conjE)
    subgoal premises run for m1 m2 m3 c s
    proof -
      have z: "snd (Send c) = 0" "snd (Send s) = 0" using run(1) chacha_fresh unfolding app_link_def by metis+
      obtain ct c1 a c2 where "NoiseSession_Encrypt noise_chacha c f = (Inr ct, c1)"
          "NoiseSession_Encrypt noise_chacha c1 (notif_ack (sample_note ''alerts'')) = (Inr a, c2)"
        using chacha_encrypts_twice [OF z(1)] by blast
      moreover obtain e s' where "NoiseSession_Encrypt noise_chacha s (notif_frame (sample_note ''alerts'')) = (Inr e, s')"
        using chacha_encrypts [OF z(2)] by blast
      ultimately have "NoiseSession_Encrypt noise_chacha c f = (Inr ct, c1) \<and>
          encrypt_all noise_chacha s (map notif_frame (filter subscribed [sample_note ''alerts'', sample_note ''x''])) = (Inr [e], s') \<and>
          encrypt_all noise_chacha c1 (map notif_ack (filter subscribed [sample_note ''alerts'', sample_note ''x''])) = (Inr [a], c2)"
        unfolding fil by simp
      from run(2) [rule_format, OF this] show ?thesis by blast
    qed
    done
qed

end
