(* ===== verification/Transport_Pool.thy ===== *)
theory Transport_Pool
  imports FProto_Prelude "HOL-Library.Multiset"
begin

text \<open>
  \<open>proto-core/transport/transport.go\<close> and \<open>pool.go\<close>: the transport types, the contract of a
  connection as a first-in first-out pipe of messages, and the pool of a session's connections. A
  Go map is an association list with distinct keys in some order: the order in which \<open>range\<close>
  visits it.
\<close>

section \<open>transport.go\<close>

type_synonym Type = string

definition TypeWebSocket :: Type where "TypeWebSocket = ''websocket''"
definition TypeQUIC :: Type where "TypeQUIC = ''quic''"
definition TypeGRPC :: Type where "TypeGRPC = ''grpc''"

lemmas type_defs = TypeWebSocket_def TypeQUIC_def TypeGRPC_def

text \<open>Runs of successful operations of a pipe of messages, with what was written and what was read.\<close>

inductive pipe_run ::
  "('s \<Rightarrow> bytes \<Rightarrow> ('s \<times> goerr option) list) \<Rightarrow> ('s \<Rightarrow> ('s \<times> (goerr + bytes)) list) \<Rightarrow> (bytes \<Rightarrow> bool) \<Rightarrow>
     's \<Rightarrow> bytes list \<Rightarrow> bytes list \<Rightarrow> 's \<Rightarrow> bool"
  for wr rd fits where
  pipe_nil: "pipe_run wr rd fits s [] [] s"
| pipe_write: "pipe_run wr rd fits s ws rs s' \<Longrightarrow> fits m \<Longrightarrow> (s'', None) \<in> set (wr s' m) \<Longrightarrow>
    pipe_run wr rd fits s (ws @ [m]) rs s''"
| pipe_read: "pipe_run wr rd fits s ws rs s' \<Longrightarrow> (s'', Inr m) \<in> set (rd s') \<Longrightarrow> pipe_run wr rd fits s ws (rs @ [m]) s''"

text \<open>
  The direction of a \<open>Conn\<close> from one side's \<open>WriteMessage\<close> to the other side's \<open>ReadMessage\<close>.
  An operation is the list of the outcomes it may have in a state: none when it blocks, several
  when a \<open>select\<close> has several cases ready. \<open>pending s\<close> is what was written and not yet read, and
  \<open>fits\<close> the messages the transport carries.
\<close>

locale message_pipe =
  fixes wr :: "'s \<Rightarrow> bytes \<Rightarrow> ('s \<times> goerr option) list"
    and rd :: "'s \<Rightarrow> ('s \<times> (goerr + bytes)) list"
    and inv :: "'s \<Rightarrow> bool"
    and pending :: "'s \<Rightarrow> bytes list"
    and fits :: "bytes \<Rightarrow> bool"
  assumes write_ok: "inv s \<Longrightarrow> fits m \<Longrightarrow> (s', None) \<in> set (wr s m) \<Longrightarrow>
      inv s' \<and> pending s' = pending s @ [m]"
    and read_ok: "inv s \<Longrightarrow> (s', Inr m) \<in> set (rd s) \<Longrightarrow> inv s' \<and> pending s = m # pending s'"
begin

lemma run_fifo: "pipe_run wr rd fits s ws rs s' \<Longrightarrow> inv s \<Longrightarrow> inv s' \<and> pending s @ ws = rs @ pending s'"
proof (induction rule: pipe_run.induct)
  case (pipe_write s ws rs s' m s'')
  then show ?case using write_ok [of s' m s''] by auto
next
  case (pipe_read s ws rs s' s'' m)
  then show ?case using read_ok [of s' s'' m] by auto
qed simp

end

section \<open>pool.go\<close>

definition DefaultMaxConns :: int where "DefaultMaxConns = 5"

text \<open>Indexing the map with another type gives 0.\<close>

definition transportPriority :: "Type \<Rightarrow> int" where
  "transportPriority t = (if t = TypeQUIC then 3 else if t = TypeWebSocket then 2
     else if t = TypeGRPC then 1 else 0)"

record 'c poolEntry =
  conn :: 'c
  lastPacketSeq :: uint64

record 'c ConnPool =
  conns :: "(string \<times> 'c poolEntry) list"
  maxConns :: int

definition NewConnPool :: "int \<Rightarrow> 'c ConnPool" where
  "NewConnPool n = \<lparr>conns = [], maxConns = (if n \<le> 0 then DefaultMaxConns else n)\<rparr>"

definition ConnPool_Add :: "string \<Rightarrow> 'c \<Rightarrow> 'c ConnPool \<Rightarrow> 'c ConnPool \<times> goerr option" where
  "ConnPool_Add i c p =
     (if maxConns p \<le> int (length (conns p))
      then (p, Some (''connection pool full: max '' @ show_int (maxConns p)))
      else (p\<lparr>conns := AList.update i \<lparr>conn = c, lastPacketSeq = 0\<rparr> (conns p)\<rparr>, None))"

definition ConnPool_Remove :: "string \<Rightarrow> 'c ConnPool \<Rightarrow> 'c ConnPool" where
  "ConnPool_Remove i p = p\<lparr>conns := AList.delete i (conns p)\<rparr>"

definition ConnPool_UpdateSeq :: "string \<Rightarrow> uint64 \<Rightarrow> 'c ConnPool \<Rightarrow> 'c ConnPool" where
  "ConnPool_UpdateSeq i seq p =
     (case map_of (conns p) i of None \<Rightarrow> p
      | Some e \<Rightarrow> p\<lparr>conns := AList.update i (e\<lparr>lastPacketSeq := seq\<rparr>) (conns p)\<rparr>)"

text \<open>One iteration of the loop; \<open>None\<close> is \<open>found = false\<close>.\<close>

definition best_step ::
  "('c \<Rightarrow> Type) \<Rightarrow> string \<times> 'c poolEntry \<Rightarrow> (string \<times> 'c poolEntry) option \<Rightarrow> (string \<times> 'c poolEntry) option" where
  "best_step ty p best =
     (case best of None \<Rightarrow> Some p
      | Some q \<Rightarrow>
          if lastPacketSeq (snd p) > lastPacketSeq (snd q) then Some p
          else if lastPacketSeq (snd p) = lastPacketSeq (snd q) then
            (if transportPriority (ty (conn (snd p))) > transportPriority (ty (conn (snd q))) then Some p
             else Some q)
          else Some q)"

definition ConnPool_Best :: "('c \<Rightarrow> Type) \<Rightarrow> 'c ConnPool \<Rightarrow> ('c \<times> string) option" where
  "ConnPool_Best ty p =
     (case fold (best_step ty) (conns p) None of None \<Rightarrow> None
      | Some (i, e) \<Rightarrow> Some (conn e, i))"

definition ConnPool_Count :: "'c ConnPool \<Rightarrow> nat" where
  "ConnPool_Count p = length (conns p)"

definition ConnPool_All :: "'c ConnPool \<Rightarrow> string list" where
  "ConnPool_All p = map fst (conns p)"

section \<open>The pool's invariant\<close>

datatype 'c pool_op = PAdd string 'c | PRemove string | PUpdateSeq string uint64

fun pool_step :: "'c pool_op \<Rightarrow> 'c ConnPool \<Rightarrow> 'c ConnPool" where
  "pool_step (PAdd i c) p = fst (ConnPool_Add i c p)"
| "pool_step (PRemove i) p = ConnPool_Remove i p"
| "pool_step (PUpdateSeq i s) p = ConnPool_UpdateSeq i s p"

definition pool_wf :: "'c ConnPool \<Rightarrow> bool" where
  "pool_wf p \<longleftrightarrow> distinct (map fst (conns p)) \<and> int (length (conns p)) \<le> maxConns p \<and> 0 < maxConns p"

lemma length_update_le: "length (AList.update k v xs) \<le> length xs + 1"
  by (induction xs) auto

lemma length_update_in: "k \<in> fst ` set xs \<Longrightarrow> length (AList.update k v xs) = length xs"
  by (induction xs) auto

lemma length_delete_le: "length (AList.delete k xs) \<le> length xs"
  by (induction xs) auto

lemma pool_wf_new: "pool_wf (NewConnPool n)"
  by (simp add: pool_wf_def NewConnPool_def DefaultMaxConns_def)

lemma pool_step_wf: "pool_wf p \<Longrightarrow> pool_wf (pool_step op p)"
proof (cases op)
  case (PAdd i c)
  assume "pool_wf p"
  with PAdd length_update_le [of i "\<lparr>conn = c, lastPacketSeq = 0\<rparr>" "conns p"] show ?thesis
    by (auto simp: pool_wf_def ConnPool_Add_def intro!: distinct_update)
next
  case (PRemove i)
  assume "pool_wf p"
  with PRemove length_delete_le [of i "conns p"] show ?thesis
    by (auto simp: pool_wf_def ConnPool_Remove_def intro: distinct_delete)
next
  case (PUpdateSeq i s)
  assume wf: "pool_wf p"
  show ?thesis
  proof (cases "map_of (conns p) i")
    case (Some e)
    then have "i \<in> fst ` set (conns p)" by (force dest: map_of_SomeD)
    with Some wf PUpdateSeq show ?thesis
      by (auto simp: pool_wf_def ConnPool_UpdateSeq_def length_update_in intro!: distinct_update)
  qed (use wf PUpdateSeq in \<open>simp add: ConnPool_UpdateSeq_def\<close>)
qed

lemma pool_steps_wf: "pool_wf p \<Longrightarrow> pool_wf (fold pool_step ops p)"
  by (induction ops arbitrary: p) (auto simp: pool_step_wf)

section \<open>The best connection\<close>

text \<open>The order by which \<open>Best\<close> is documented to choose.\<close>

definition better :: "('c \<Rightarrow> Type) \<Rightarrow> 'c poolEntry \<Rightarrow> 'c poolEntry \<Rightarrow> bool" where
  "better ty a b \<longleftrightarrow> lastPacketSeq a > lastPacketSeq b \<or>
     lastPacketSeq a = lastPacketSeq b \<and> transportPriority (ty (conn a)) > transportPriority (ty (conn b))"

lemma best_step_some:
  "best_step ty p (Some q) = Some (if better ty (snd p) (snd q) then p else q)"
  by (auto simp: best_step_def better_def)

lemma best_step_none: "best_step ty p None = Some p"
  by (simp add: best_step_def)

lemma better_trans: "better ty a b \<Longrightarrow> \<not> better ty c b \<Longrightarrow> \<not> better ty c a"
  by (auto simp: better_def)

lemma better_mono: "\<not> better ty a b \<Longrightarrow> \<not> better ty b c \<Longrightarrow> \<not> better ty a c"
  by (auto simp: better_def)

lemma fold_best_some:
  "\<exists>q'. fold (best_step ty) ps (Some q) = Some q' \<and> q' \<in> insert q (set ps) \<and>
     (\<forall>x \<in> insert q (set ps). \<not> better ty (snd x) (snd q'))"
proof (induction ps arbitrary: q)
  case Nil
  then show ?case by (simp add: better_def)
next
  case (Cons p ps)
  let ?q = "if better ty (snd p) (snd q) then p else q"
  obtain q' where q': "fold (best_step ty) ps (Some ?q) = Some q'" "q' \<in> insert ?q (set ps)"
      "\<forall>x \<in> insert ?q (set ps). \<not> better ty (snd x) (snd q')"
    using Cons.IH [of ?q] by blast
  have "\<not> better ty (snd q) (snd ?q)" "\<not> better ty (snd p) (snd ?q)"
    by (auto simp: better_def)
  moreover have "\<not> better ty (snd ?q) (snd q')" using q'(3) by simp
  ultimately have "\<not> better ty (snd q) (snd q')" "\<not> better ty (snd p) (snd q')"
    using better_mono by blast+
  moreover have "fold (best_step ty) (p # ps) (Some q) = Some q'"
    using q'(1) by (simp only: fold_simps best_step_some)
  ultimately show ?case using q'(2,3) by (intro exI [of _ q']) (auto split: if_splits)
qed

lemma best_exists:
  assumes "conns p \<noteq> []"
  shows "\<exists>i e. fold (best_step ty) (conns p) None = Some (i, e) \<and> (i, e) \<in> set (conns p) \<and>
    (\<forall>x \<in> set (conns p). \<not> better ty (snd x) e)"
proof (cases "conns p")
  case (Cons q qs)
  then show ?thesis
    using fold_best_some [of ty qs q] by (auto simp: best_step_none)
qed (use assms in simp)

section \<open>Properties\<close>

text \<open>
  C16. Whatever is added, removed and updated, a pool never holds more connections than its capacity
  (5 when it is created with a capacity that is not positive), and every identifier names one
  connection.
\<close>

theorem pool_capacity:
  fixes ops :: "'c pool_op list" and n :: int
  defines "p \<equiv> fold pool_step ops (NewConnPool n)"
  shows "int (ConnPool_Count p) \<le> (if n \<le> 0 then 5 else n) \<and> distinct (ConnPool_All p)"
proof -
  have keep: "maxConns (pool_step op q) = maxConns q" for op :: "'c pool_op" and q
    by (cases op) (auto simp: ConnPool_Add_def ConnPool_Remove_def ConnPool_UpdateSeq_def split: option.splits)
  have "maxConns (fold pool_step ops q) = maxConns q" for q :: "'c ConnPool"
    by (induction ops arbitrary: q) (simp_all add: keep)
  with pool_steps_wf [OF pool_wf_new, of ops n] show ?thesis
    by (auto simp: p_def pool_wf_def ConnPool_Count_def ConnPool_All_def NewConnPool_def DefaultMaxConns_def)
qed

text \<open>
  \<open>Best\<close> finds a connection exactly when the pool has one, and the one it returns is registered
  under the identifier it returns and is not beaten by any other, neither by a higher last packet
  sequence number nor, among equal ones, by a transport of higher priority; so connections chosen
  in two different iteration orders have the same sequence number and priority.
\<close>

lemma best_connection:
  "(ConnPool_Best ty p = None \<longleftrightarrow> conns p = []) \<and>
   (\<forall>c i. ConnPool_Best ty p = Some (c, i) \<longrightarrow>
     (\<exists>e. (i, e) \<in> set (conns p) \<and> conn e = c \<and> (\<forall>x \<in> set (conns p). \<not> better ty (snd x) e) \<and>
       (\<forall>q c' i'. mset (conns q) = mset (conns p) \<longrightarrow> ConnPool_Best ty q = Some (c', i') \<longrightarrow>
         (\<exists>e'. (i', e') \<in> set (conns p) \<and> lastPacketSeq e' = lastPacketSeq e \<and>
           transportPriority (ty (conn e')) = transportPriority (ty (conn e))))))"
proof -
  have best: "\<exists>e. (i, e) \<in> set (conns q) \<and> conn e = c \<and> (\<forall>x \<in> set (conns q). \<not> better ty (snd x) e)"
    if "ConnPool_Best ty q = Some (c, i)" for q c i
  proof -
    have "conns q \<noteq> []" using that by (auto simp: ConnPool_Best_def)
    from best_exists [OF this, of ty] that show ?thesis by (auto simp: ConnPool_Best_def)
  qed
  have tie: "lastPacketSeq a = lastPacketSeq b \<and>
      transportPriority (ty (conn a)) = transportPriority (ty (conn b))"
    if "\<not> better ty a b" "\<not> better ty b a" for a b
    using that by (auto simp: better_def)
  have empty: "ConnPool_Best ty p = None \<longleftrightarrow> conns p = []"
    using best_exists [of p ty] by (cases "conns p = []") (auto simp: ConnPool_Best_def)
  have "\<exists>e'. (i', e') \<in> set (conns p) \<and> lastPacketSeq e' = lastPacketSeq e \<and>
      transportPriority (ty (conn e')) = transportPriority (ty (conn e))"
    if e: "(i, e) \<in> set (conns p)" "\<forall>x \<in> set (conns p). \<not> better ty (snd x) e"
      and q: "mset (conns q) = mset (conns p)" "ConnPool_Best ty q = Some (c', i')" for i e q c' i'
  proof -
    have same: "set (conns q) = set (conns p)" using q(1) by (rule mset_eq_setD)
    obtain e' where e': "(i', e') \<in> set (conns q)" "\<forall>x \<in> set (conns q). \<not> better ty (snd x) e'"
      using best [OF q(2)] by blast
    then have "\<not> better ty e' e" "\<not> better ty e e'" using e same by force+
    with tie [of e' e] e'(1) same show ?thesis by auto
  qed
  then show ?thesis using empty best [of p] by blast
qed

lemma best_connection_instance:
  "ConnPool_Best id \<lparr>conns = [(''a'', \<lparr>conn = TypeGRPC, lastPacketSeq = 7\<rparr>),
       (''b'', \<lparr>conn = TypeQUIC, lastPacketSeq = 7\<rparr>), (''c'', \<lparr>conn = TypeQUIC, lastPacketSeq = 3\<rparr>)], maxConns = 5\<rparr>
     = Some (TypeQUIC, ''b'') \<and>
   (\<exists>e. (''b'', e) \<in> {(''a'', \<lparr>conn = TypeGRPC, lastPacketSeq = 7\<rparr>),
       (''b'', \<lparr>conn = TypeQUIC, lastPacketSeq = 7\<rparr>), (''c'', \<lparr>conn = TypeQUIC, lastPacketSeq = 3\<rparr>)} \<and> conn e = TypeQUIC)"
proof -
  let ?p = "\<lparr>conns = [(''a'', \<lparr>conn = TypeGRPC, lastPacketSeq = 7\<rparr>),
       (''b'', \<lparr>conn = TypeQUIC, lastPacketSeq = 7\<rparr>), (''c'', \<lparr>conn = TypeQUIC, lastPacketSeq = 3\<rparr>)], maxConns = 5\<rparr>"
  have "ConnPool_Best id ?p = Some (TypeQUIC, ''b'')"
    by (simp add: ConnPool_Best_def best_step_def transportPriority_def type_defs)
  with best_connection [of id ?p] show ?thesis by auto
qed

end
