(* ===== verification/Transport_Quic.thy ===== *)
theory Transport_Quic
  imports Transport_Pool
begin

text \<open>
  \<open>proto-core/transport/quic.go\<close> and \<open>websocket.go\<close>. The QUIC library is a parameter: a stream
  is a state with \<open>Read\<close>, \<open>Write\<close> and \<open>Close\<close>, and what the framing relies on, that a stream
  delivers the written bytes in order, is the locale \<open>byte_stream\<close>. \<open>io.ReadFull\<close> is the loop of
  the Go library, which may not end on a stream that never delivers.
\<close>

section \<open>Streams\<close>

record 's stream_ops =
  so_Read :: "'s \<Rightarrow> nat \<Rightarrow> 's \<times> bytes \<times> goerr option"
  so_Write :: "'s \<Rightarrow> bytes \<Rightarrow> 's \<times> goerr option"
  so_Close :: "'s \<Rightarrow> 's \<times> goerr option"

definition EOF :: goerr where "EOF = ''EOF''"
definition ErrUnexpectedEOF :: goerr where "ErrUnexpectedEOF = ''unexpected EOF''"

partial_function (option) ReadFull ::
  "'s stream_ops \<Rightarrow> nat \<Rightarrow> 's \<Rightarrow> bytes \<Rightarrow> ('s \<times> (goerr + bytes)) option" where
  "ReadFull Q n s buf =
     (if n \<le> length buf then Some (s, Inr buf)
      else case so_Read Q s (n - length buf) of (s', d, err) \<Rightarrow>
        (let buf' = buf @ d in
         if n \<le> length buf' then Some (s', Inr buf')
         else case err of
           Some e \<Rightarrow> Some (s', Inl (if buf' \<noteq> [] \<and> e = EOF then ErrUnexpectedEOF else e))
         | None \<Rightarrow> ReadFull Q n s' buf'))"

section \<open>quic.go\<close>

definition quicMaxMsgSize :: nat where "quicMaxMsgSize = 65536"

text \<open>\<open>None\<close> when a read never returns.\<close>

definition QUICConn_ReadMessage :: "'s stream_ops \<Rightarrow> 's \<Rightarrow> ('s \<times> (goerr + bytes)) option" where
  "QUICConn_ReadMessage Q s =
     (case ReadFull Q 4 s [] of None \<Rightarrow> None
      | Some (s1, Inl e) \<Rightarrow> Some (s1, Inl (''quic read length: '' @ e))
      | Some (s1, Inr lenBuf) \<Rightarrow>
          (let msgLen = of_be32 lenBuf in
           if of_nat quicMaxMsgSize < msgLen
           then Some (s1, Inl (''quic message too large: '' @ show_nat (unat msgLen)))
           else case ReadFull Q (unat msgLen) s1 [] of None \<Rightarrow> None
             | Some (s2, Inl e) \<Rightarrow> Some (s2, Inl (''quic read payload: '' @ e))
             | Some (s2, Inr buf) \<Rightarrow> Some (s2, Inr buf)))"

definition QUICConn_WriteMessage :: "'s stream_ops \<Rightarrow> 's \<Rightarrow> bytes \<Rightarrow> 's \<times> goerr option" where
  "QUICConn_WriteMessage Q s d =
     (case so_Write Q s (be32 (of_nat (length d))) of
        (s1, Some e) \<Rightarrow> (s1, Some (''quic write length: '' @ e))
      | (s1, None) \<Rightarrow>
          (case so_Write Q s1 d of
             (s2, Some e) \<Rightarrow> (s2, Some (''quic write payload: '' @ e))
           | (s2, None) \<Rightarrow> (s2, None)))"

text \<open>A connection: the library's connection, its control stream and the remote address.\<close>

record ('c, 's) QUICConn =
  qc_conn :: 'c
  qc_stream :: 's
  qc_addr :: string

record ('l, 'c, 's) quic_ops =
  qo_Accept :: "'l \<Rightarrow> goerr + 'c"
  qo_Dial :: "string \<Rightarrow> goerr + 'c"
  qo_AcceptStream :: "'c \<Rightarrow> goerr + 's"
  qo_OpenStreamSync :: "'c \<Rightarrow> goerr + 's"
  qo_RemoteAddr :: "'c \<Rightarrow> string"
  qo_CloseWithError :: "'c \<Rightarrow> 'c \<times> goerr option"

definition AcceptQUIC :: "('l, 'c, 's) quic_ops \<Rightarrow> 'l \<Rightarrow> goerr + ('c, 's) QUICConn" where
  "AcceptQUIC L listener =
     (case qo_Accept L listener of Inl e \<Rightarrow> Inl (''quic accept: '' @ e)
      | Inr c \<Rightarrow>
          (case qo_AcceptStream L c of Inl e \<Rightarrow> Inl (''quic accept stream: '' @ e)
           | Inr s \<Rightarrow> Inr \<lparr>qc_conn = c, qc_stream = s, qc_addr = qo_RemoteAddr L c\<rparr>))"

definition DialQUIC :: "('l, 'c, 's) quic_ops \<Rightarrow> string \<Rightarrow> goerr + ('c, 's) QUICConn" where
  "DialQUIC L addr =
     (case qo_Dial L addr of Inl e \<Rightarrow> Inl (''quic dial: '' @ e)
      | Inr c \<Rightarrow>
          (case qo_OpenStreamSync L c of Inl e \<Rightarrow> Inl (''quic open stream: '' @ e)
           | Inr s \<Rightarrow> Inr \<lparr>qc_conn = c, qc_stream = s, qc_addr = qo_RemoteAddr L c\<rparr>))"

definition QUICConn_Close ::
  "('l, 'c, 's) quic_ops \<Rightarrow> 's stream_ops \<Rightarrow> ('c, 's) QUICConn \<Rightarrow> ('c, 's) QUICConn \<times> goerr option" where
  "QUICConn_Close L Q q =
     (let s' = fst (so_Close Q (qc_stream q)); (c', err) = qo_CloseWithError L (qc_conn q)
      in (q\<lparr>qc_stream := s', qc_conn := c'\<rparr>, err))"

definition QUICConn_Type :: Type where "QUICConn_Type = TypeQUIC"

definition QUICConn_RemoteAddr :: "('c, 's) QUICConn \<Rightarrow> string" where
  "QUICConn_RemoteAddr q = qc_addr q"

section \<open>websocket.go\<close>

record 'w ws_ops =
  wo_ReadMessage :: "'w \<Rightarrow> 'w \<times> (goerr + bytes)"
  wo_WriteMessage :: "'w \<Rightarrow> bytes \<Rightarrow> 'w \<times> goerr option"
  wo_Close :: "'w \<Rightarrow> 'w \<times> goerr option"
  wo_RemoteAddr :: "'w \<Rightarrow> string"

definition UpgradeHTTP :: "goerr + 'w \<Rightarrow> goerr + 'w" where
  "UpgradeHTTP upgrade = (case upgrade of Inl e \<Rightarrow> Inl (''websocket upgrade: '' @ e) | Inr c \<Rightarrow> Inr c)"

definition DialWS :: "(string \<Rightarrow> goerr + 'w) \<Rightarrow> string \<Rightarrow> goerr + 'w" where
  "DialWS dial url = (case dial url of Inl e \<Rightarrow> Inl (''websocket dial: '' @ e) | Inr c \<Rightarrow> Inr c)"

definition WSConn_ReadMessage :: "'w ws_ops \<Rightarrow> 'w \<Rightarrow> 'w \<times> (goerr + bytes)" where
  "WSConn_ReadMessage W w =
     (case wo_ReadMessage W w of (w', Inl e) \<Rightarrow> (w', Inl (''ws read: '' @ e)) | (w', Inr d) \<Rightarrow> (w', Inr d))"

definition WSConn_WriteMessage :: "'w ws_ops \<Rightarrow> 'w \<Rightarrow> bytes \<Rightarrow> 'w \<times> goerr option" where
  "WSConn_WriteMessage W w d =
     (case wo_WriteMessage W w d of (w', Some e) \<Rightarrow> (w', Some (''ws write: '' @ e)) | (w', None) \<Rightarrow> (w', None))"

definition WSConn_Close :: "'w ws_ops \<Rightarrow> 'w \<Rightarrow> 'w \<times> goerr option" where
  "WSConn_Close W w = wo_Close W w"

definition WSConn_Type :: Type where "WSConn_Type = TypeWebSocket"

definition WSConn_RemoteAddr :: "'w ws_ops \<Rightarrow> 'w \<Rightarrow> string" where
  "WSConn_RemoteAddr W w = wo_RemoteAddr W w"

section \<open>Framing over an ordered byte stream\<close>

text \<open>
  The state holds both ends: \<open>buffered s\<close> are the bytes written and not yet read. A read returns
  the next bytes, at least one when there are any, and reports no error then; a write that succeeds
  appends its bytes.
\<close>

locale byte_stream =
  fixes Q :: "'s stream_ops"
    and buffered :: "'s \<Rightarrow> bytes"
  assumes stream_read: "0 < n \<Longrightarrow> so_Read Q s n = (s', d, err) \<Longrightarrow> buffered s \<noteq> [] \<Longrightarrow>
      buffered s = d @ buffered s' \<and> d \<noteq> [] \<and> length d \<le> n \<and> err = None"
    and stream_empty: "so_Read Q s n = (s', d, err) \<Longrightarrow> buffered s = [] \<Longrightarrow> d = [] \<and> buffered s' = []"
    and stream_write: "so_Write Q s d = (s', None) \<Longrightarrow> buffered s' = buffered s @ d"
begin

lemma ReadFull_enough:
  "length buf \<le> n \<Longrightarrow> n \<le> length buf + length (buffered s) \<Longrightarrow>
     \<exists>s'. ReadFull Q n s buf = Some (s', Inr (buf @ take (n - length buf) (buffered s))) \<and>
       buffered s' = drop (n - length buf) (buffered s)"
proof (induction "n - length buf" arbitrary: s buf rule: less_induct)
  case less
  show ?case
  proof (cases "n = length buf")
    case True
    then show ?thesis by (subst ReadFull.simps) simp
  next
    case False
    with less.prems have pos: "0 < n - length buf" and ne: "buffered s \<noteq> []" by auto
    obtain s1 d err where rd: "so_Read Q s (n - length buf) = (s1, d, err)" by (cases "so_Read Q s (n - length buf)")
    note d = stream_read [OF pos rd ne]
    show ?thesis
    proof (cases "length (buf @ d) = n")
      case True
      then show ?thesis using d pos by (subst ReadFull.simps) (simp add: rd Let_def)
    next
      case False
      with d pos have lt: "length (buf @ d) < n" by auto
      moreover have "0 < length d" using d by simp
      ultimately have "n - length (buf @ d) < n - length buf" by (simp add: diff_less_mono2)
      from less.hyps [OF this, of s1] obtain s2 where
        "ReadFull Q n s1 (buf @ d) = Some (s2, Inr ((buf @ d) @ take (n - length (buf @ d)) (buffered s1)))"
        "buffered s2 = drop (n - length (buf @ d)) (buffered s1)"
        using d lt less.prems by auto
      moreover have "take (n - length buf) (buffered s) = d @ take (n - length (buf @ d)) (buffered s1)"
        "drop (n - length buf) (buffered s) = drop (n - length (buf @ d)) (buffered s1)"
        using d by simp_all
      ultimately show ?thesis
        using lt pos d by (subst ReadFull.simps) (auto simp: rd Let_def)
    qed
  qed
qed

lemma ReadFull_prefix:
  assumes "buffered s = xs @ rest"
  shows "\<exists>s'. ReadFull Q (length xs) s [] = Some (s', Inr xs) \<and> buffered s' = rest"
  using ReadFull_enough [of "[]" "length xs" s] assms by simp

lemma WriteMessage_buffered:
  assumes "QUICConn_WriteMessage Q s m = (s', None)"
  shows "buffered s' = buffered s @ be32 (of_nat (length m)) @ m"
  using assms stream_write
  by (fastforce simp: QUICConn_WriteMessage_def split: prod.splits option.splits)

lemma ReadMessage_frame:
  assumes "buffered s = be32 (of_nat (length m)) @ m @ rest" "length m \<le> quicMaxMsgSize"
  shows "\<exists>s'. QUICConn_ReadMessage Q s = Some (s', Inr m) \<and> buffered s' = rest"
proof -
  have small: "length m < 2 ^ 32" using assms(2) by (simp add: quicMaxMsgSize_def)
  obtain s1 where s1: "ReadFull Q 4 s [] = Some (s1, Inr (be32 (of_nat (length m))))" "buffered s1 = m @ rest"
    using ReadFull_prefix [of s "be32 (of_nat (length m))" "m @ rest"] assms(1) by auto
  obtain s2 where s2: "ReadFull Q (length m) s1 [] = Some (s2, Inr m)" "buffered s2 = rest"
    using ReadFull_prefix [OF s1(2)] by blast
  have "unat (of_nat (length m) :: uint32) = length m"
    using small by (simp add: unat_of_nat)
  moreover have "\<not> (of_nat quicMaxMsgSize :: uint32) < of_nat (length m)"
    using assms(2) small by (simp add: word_less_nat_alt unat_of_nat quicMaxMsgSize_def)
  ultimately show ?thesis using s1 s2 by (simp add: QUICConn_ReadMessage_def)
qed

lemma ReadMessage_oversize:
  assumes "buffered s = be32 (of_nat (length m)) @ rest" "quicMaxMsgSize < length m" "length m < 2 ^ 32"
  shows "\<exists>s' e. QUICConn_ReadMessage Q s = Some (s', Inl e) \<and> buffered s' = rest"
proof -
  obtain s1 where s1: "ReadFull Q 4 s [] = Some (s1, Inr (be32 (of_nat (length m))))" "buffered s1 = rest"
    using ReadFull_prefix [of s "be32 (of_nat (length m))" rest] assms(1) by auto
  have "(of_nat quicMaxMsgSize :: uint32) < of_nat (length m)"
    using assms(2,3) by (simp add: word_less_nat_alt unat_of_nat quicMaxMsgSize_def)
  with s1 show ?thesis by (simp add: QUICConn_ReadMessage_def)
qed

lemma ReadFull_empty:
  assumes "ReadFull Q n s buf = Some p" "buffered s = []" "length buf < n"
  shows "\<exists>s' e. p = (s', Inl e)"
proof -
  let ?P = "\<lambda>Q' n s buf p. Q' = Q \<longrightarrow> buffered s = [] \<longrightarrow> length buf < n \<longrightarrow> (\<exists>s' e. p = (s', Inl e))"
  have "?P Q n s buf p"
  proof (rule ReadFull.raw_induct [where P = ?P, OF _ assms(1)])
    fix F Q' n s buf y
    assume IH: "\<And>n s buf b y. F n s buf b = Some y \<Longrightarrow> ?P n s buf b y"
      and eq: "(if n \<le> length buf then Some (s, Inr buf)
        else case so_Read Q' s (n - length buf) of (s', d, err) \<Rightarrow>
          (let buf' = buf @ d in
           if n \<le> length buf' then Some (s', Inr buf')
           else case err of None \<Rightarrow> F Q' n s' buf'
             | Some e \<Rightarrow> Some (s', Inl (if buf' \<noteq> [] \<and> e = EOF then ErrUnexpectedEOF else e)))) = Some y"
    show "?P Q' n s buf y"
    proof (intro impI)
      assume Q': "Q' = Q" and "buffered s = []" and lt: "length buf < n"
      moreover obtain s' d err where rd: "so_Read Q s (n - length buf) = (s', d, err)"
        by (cases "so_Read Q s (n - length buf)")
      ultimately have "d = []" "buffered s' = []" using stream_empty by blast+
      with eq lt rd Q' IH [of Q n s' buf y] show "\<exists>s' e. y = (s', Inl e)"
        by (auto simp: Let_def split: option.splits)
    qed
  qed
  with assms show ?thesis by blast
qed

end

section \<open>The pending messages of a stream\<close>

definition frame :: "bytes \<Rightarrow> bytes" where
  "frame m = be32 (of_nat (length m)) @ m"

function deframe :: "bytes \<Rightarrow> bytes list" where
  "deframe bs =
     (if length bs < 4 then []
      else let n = unat (of_be32 bs) in
        if 4 + n \<le> length bs then take n (drop 4 bs) # deframe (drop (4 + n) bs) else [])"
  by pat_completeness auto
termination
  by (relation "measure length") auto

declare deframe.simps [simp del]

definition quic_fits :: "bytes \<Rightarrow> bool" where
  "quic_fits m \<longleftrightarrow> length m \<le> quicMaxMsgSize"

lemma deframe_Nil [simp]: "deframe [] = []"
  by (simp add: deframe.simps)

lemma deframe_frame: "length m < 2 ^ 32 \<Longrightarrow> deframe (frame m @ bs) = m # deframe bs"
  by (subst deframe.simps) (simp add: frame_def unat_of_nat)

lemma deframe_frames:
  "\<forall>m \<in> set ms. quic_fits m \<Longrightarrow> deframe (concat (map frame ms)) = ms"
proof (induction ms)
  case (Cons m ms)
  then have "length m < 2 ^ 32" by (simp add: quic_fits_def quicMaxMsgSize_def)
  with Cons show ?case by (simp add: deframe_frame)
qed simp

definition framed :: "bytes \<Rightarrow> bool" where
  "framed bs \<longleftrightarrow> concat (map frame (deframe bs)) = bs \<and> (\<forall>m \<in> set (deframe bs). quic_fits m)"

lemma framed_iff: "framed bs \<longleftrightarrow> (\<exists>ms. bs = concat (map frame ms) \<and> (\<forall>m \<in> set ms. quic_fits m))"
  by (metis framed_def deframe_frames)

definition quic_wr :: "'s stream_ops \<Rightarrow> 's \<Rightarrow> bytes \<Rightarrow> ('s \<times> goerr option) list" where
  "quic_wr Q s m = [QUICConn_WriteMessage Q s m]"

definition quic_rd :: "'s stream_ops \<Rightarrow> 's \<Rightarrow> ('s \<times> (goerr + bytes)) list" where
  "quic_rd Q s = (case QUICConn_ReadMessage Q s of None \<Rightarrow> [] | Some p \<Rightarrow> [p])"

context byte_stream
begin

lemma write_frame:
  assumes "framed (buffered s)" "quic_fits m" "QUICConn_WriteMessage Q s m = (s', None)"
  shows "framed (buffered s') \<and> deframe (buffered s') = deframe (buffered s) @ [m]"
proof -
  obtain ms where ms: "buffered s = concat (map frame ms)" "\<forall>m \<in> set ms. quic_fits m"
    using assms(1) by (auto simp: framed_iff)
  have "buffered s' = concat (map frame (ms @ [m]))"
    using WriteMessage_buffered [OF assms(3)] ms(1) by (simp add: frame_def)
  moreover have fit: "\<forall>x \<in> set (ms @ [m]). quic_fits x" using ms(2) assms(2) by simp
  ultimately have "framed (buffered s')" "deframe (buffered s') = ms @ [m]"
    using deframe_frames [OF fit] by (metis framed_iff, metis)
  with deframe_frames [OF ms(2)] ms(1) show ?thesis by simp
qed

lemma ReadMessage_empty:
  assumes "buffered s = []"
  shows "QUICConn_ReadMessage Q s \<noteq> Some (s', Inr m)"
proof (cases "ReadFull Q 4 s []")
  case (Some p)
  from ReadFull_empty [OF this assms] Some show ?thesis by (auto simp: QUICConn_ReadMessage_def)
qed (simp add: QUICConn_ReadMessage_def)

lemma read_frame:
  assumes "framed (buffered s)" "QUICConn_ReadMessage Q s = Some (s', Inr m)"
  shows "framed (buffered s') \<and> deframe (buffered s) = m # deframe (buffered s')"
proof -
  obtain ms where ms: "buffered s = concat (map frame ms)" "\<forall>m \<in> set ms. quic_fits m"
    using assms(1) by (auto simp: framed_iff)
  show ?thesis
  proof (cases ms)
    case Nil
    with ms ReadMessage_empty [of s s' m] assms(2) show ?thesis by simp
  next
    case (Cons x xs)
    with ms have "buffered s = be32 (of_nat (length x)) @ x @ concat (map frame xs)" "length x \<le> quicMaxMsgSize"
      by (simp_all add: frame_def quic_fits_def)
    from ReadMessage_frame [OF this] assms(2) have "x = m" "buffered s' = concat (map frame xs)" by auto
    moreover have "deframe (buffered s) = x # xs" "deframe (concat (map frame xs)) = xs"
      using deframe_frames [of ms] deframe_frames [of xs] ms Cons by auto
    ultimately show ?thesis using ms(2) Cons by (auto simp: framed_iff)
  qed
qed

end

sublocale byte_stream \<subseteq> quic: message_pipe "quic_wr Q" "quic_rd Q" "\<lambda>s. framed (buffered s)"
  "\<lambda>s. deframe (buffered s)" quic_fits
proof
  fix s m s'
  show "framed (buffered s) \<Longrightarrow> quic_fits m \<Longrightarrow> (s', None) \<in> set (quic_wr Q s m) \<Longrightarrow>
      framed (buffered s') \<and> deframe (buffered s') = deframe (buffered s) @ [m]"
    using write_frame [of s m s'] by (simp add: quic_wr_def)
  show "framed (buffered s) \<Longrightarrow> (s', Inr m) \<in> set (quic_rd Q s) \<Longrightarrow>
      framed (buffered s') \<and> deframe (buffered s) = m # deframe (buffered s')"
    using read_frame [of s s' m] by (simp add: quic_rd_def split: option.splits)
qed

context byte_stream
begin

lemma quic_fifo:
  "pipe_run (quic_wr Q) (quic_rd Q) quic_fits s ws rs s' \<Longrightarrow> buffered s = [] \<Longrightarrow> ws = rs @ deframe (buffered s')"
  using quic.run_fifo [of s ws rs s'] by (simp add: framed_def)

lemma quic_next:
  assumes "pipe_run (quic_wr Q) (quic_rd Q) quic_fits s ws rs s'" "buffered s = []"
    and "deframe (buffered s') = m # ms"
  shows "\<exists>s''. QUICConn_ReadMessage Q s' = Some (s'', Inr m)"
proof -
  have "framed (buffered s')" using quic.run_fifo [OF assms(1)] assms(2) by (simp add: framed_def)
  then have "buffered s' = be32 (of_nat (length m)) @ m @ concat (map frame ms)" "length m \<le> quicMaxMsgSize"
    using assms(3) by (auto simp: framed_def frame_def quic_fits_def)
  from ReadMessage_frame [OF this] show ?thesis by blast
qed

end

section \<open>A stream in memory\<close>

text \<open>
  A stream that hands out at most \<open>ch_mtu + 1\<close> bytes per read, until it is closed for writing.
\<close>

record chunked =
  ch_buf :: bytes
  ch_mtu :: nat
  ch_open :: bool

definition chunked_ops :: "chunked stream_ops" where
  "chunked_ops = \<lparr>
     so_Read = (\<lambda>s n. let k = min n (Suc (ch_mtu s)) in
       (s\<lparr>ch_buf := drop k (ch_buf s)\<rparr>, take k (ch_buf s),
        if ch_buf s = [] \<and> \<not> ch_open s then Some EOF else None)),
     so_Write = (\<lambda>s d. if ch_open s then (s\<lparr>ch_buf := ch_buf s @ d\<rparr>, None) else (s, Some ''write on closed stream'')),
     so_Close = (\<lambda>s. (s\<lparr>ch_open := False\<rparr>, None))\<rparr>"

interpretation chunk: byte_stream chunked_ops ch_buf
  by unfold_locales (auto simp: chunked_ops_def Let_def split: if_splits)

section \<open>Properties\<close>

text \<open>
  C4. Over any stream that delivers bytes in order, however it splits them, the QUIC framing is a
  first-in first-out pipe: with messages of at most 64 KiB, the messages read are those written, in
  order and without loss or duplication, up to the ones still in the stream, and the next of these
  is what the next \<open>ReadMessage\<close> returns.
\<close>

theorem quic_framing_fifo:
  assumes "byte_stream Q buffered" and "buffered s = []"
    and "pipe_run (quic_wr Q) (quic_rd Q) quic_fits s ws rs s'"
  shows "ws = rs @ deframe (buffered s') \<and>
    (\<forall>m ms. deframe (buffered s') = m # ms \<longrightarrow> (\<exists>s''. QUICConn_ReadMessage Q s' = Some (s'', Inr m)))"
  using byte_stream.quic_fifo [OF assms(1,3,2)] byte_stream.quic_next [OF assms(1,3,2)] by blast

theorem quic_framing_fifo_witness:
  "\<exists>s'. pipe_run (quic_wr chunked_ops) (quic_rd chunked_ops) quic_fits \<lparr>ch_buf = [], ch_mtu = 1, ch_open = True\<rparr>
      [[7, 8, 9]] [] s' \<and> [[7, 8, 9]] = [] @ deframe (ch_buf s')"
proof -
  let ?s = "\<lparr>ch_buf = [], ch_mtu = 1, ch_open = True\<rparr>"
  let ?t = "\<lparr>ch_buf = be32 (of_nat (length [7 :: byte, 8, 9])) @ [7, 8, 9], ch_mtu = 1, ch_open = True\<rparr>"
  have w: "(?t, None) \<in> set (quic_wr chunked_ops ?s [7, 8, 9])"
    by (simp add: quic_wr_def QUICConn_WriteMessage_def chunked_ops_def)
  have fit: "quic_fits [7, 8, 9]" by (simp add: quic_fits_def quicMaxMsgSize_def)
  have run: "pipe_run (quic_wr chunked_ops) (quic_rd chunked_ops) quic_fits ?s ([] @ [[7, 8, 9]]) [] ?t"
    by (rule pipe_write [where s' = ?s]) (rule pipe_nil fit w)+
  then show ?thesis
    using quic_framing_fifo [OF chunk.byte_stream_axioms _ run] by auto
qed

text \<open>
  C24. \<open>WriteMessage\<close> does not enforce the limit \<open>ReadMessage\<close> has: a longer message (below 4 GiB)
  that is written successfully is refused by the reader, and its payload stays in the stream, where
  the next \<open>ReadMessage\<close> takes it for a length prefix.
\<close>

theorem quic_oversize_desync:
  assumes "byte_stream Q buffered" and "buffered s = []" and "quicMaxMsgSize < length m" and "length m < 2 ^ 32"
    and "QUICConn_WriteMessage Q s m = (s1, None)"
  shows "\<exists>s2 e. QUICConn_ReadMessage Q s1 = Some (s2, Inl e) \<and> buffered s2 = m"
proof -
  have "buffered s1 = be32 (of_nat (length m)) @ m"
    using byte_stream.WriteMessage_buffered [OF assms(1,5)] assms(2) by simp
  from byte_stream.ReadMessage_oversize [OF assms(1) this assms(3,4)] show ?thesis .
qed

theorem quic_oversize_desync_witness:
  "\<exists>s1 s2 e. QUICConn_WriteMessage chunked_ops \<lparr>ch_buf = [], ch_mtu = 9, ch_open = True\<rparr> (replicate 65537 1) = (s1, None) \<and>
     QUICConn_ReadMessage chunked_ops s1 = Some (s2, Inl e) \<and> ch_buf s2 = replicate 65537 1"
proof -
  let ?s = "\<lparr>ch_buf = [], ch_mtu = 9, ch_open = True\<rparr>"
  obtain s1 where s1: "QUICConn_WriteMessage chunked_ops ?s (replicate 65537 1) = (s1, None)"
    by (simp add: QUICConn_WriteMessage_def chunked_ops_def)
  have "ch_buf ?s = []" "quicMaxMsgSize < length (replicate 65537 (1 :: byte))"
    "length (replicate 65537 (1 :: byte)) < 2 ^ 32"
    by (simp_all add: quicMaxMsgSize_def)
  from quic_oversize_desync [OF chunk.byte_stream_axioms this s1] s1 show ?thesis by blast
qed

end
