(* ===== verification/Sdk_Client.thy ===== *)
theory Sdk_Client
  imports Go_Float Transport_Quic Sender_Keys
begin

text \<open>
  \<open>sdk/go\<close>: the reference client. \<open>crypto.go\<close> has its own copy of the Noise handshake, \<open>transport.go\<close> its own QUIC
  framing, \<open>client.go\<close> the client and \<open>reconnect.go\<close> the connection loop with exponential backoff. The network and the
  Noise library are parameters; a call on the session of a client that has none panics.
\<close>

section \<open>crypto.go\<close>

definition sdk_GenerateKeyPair :: "('h, 'c) noise_ops \<Rightarrow> bytes \<Rightarrow> goerr + KeyPair" where
  "sdk_GenerateKeyPair N rnd =
     (case nz_GenerateKeypair N rnd of
        Inl err \<Rightarrow> Inl (''generate keypair: '' @ err)
      | Inr kp \<Rightarrow> Inr \<lparr>Private = Private kp, Public = Public kp\<rparr>)"

definition clientHandshake ::
  "('h, 'c) noise_ops \<Rightarrow> KeyPair \<Rightarrow> bytes \<Rightarrow> 'io reader \<Rightarrow> 'io writer \<Rightarrow> 'io \<Rightarrow> (goerr + 'c NoiseSession) \<times> 'io" where
  "clientHandshake N key rnd read write cn =
     (case nz_NewHandshakeState N True key rnd of
        Inl err \<Rightarrow> (Inl err, cn)
      | Inr hs \<Rightarrow>
     (case nz_WriteMessage N hs [] of (Inl err, hs) \<Rightarrow> (Inl err, cn)
      | (Inr (msg1, _, _), hs) \<Rightarrow>
     (case write msg1 cn of (Some err, cn) \<Rightarrow> (Inl err, cn)
      | (None, cn) \<Rightarrow>
     (case read cn of (Inl err, cn) \<Rightarrow> (Inl err, cn)
      | (Inr msg2, cn) \<Rightarrow>
     (case nz_ReadMessage N hs msg2 of (Inl err, hs) \<Rightarrow> (Inl err, cn)
      | (Inr _, hs) \<Rightarrow>
     (case nz_WriteMessage N hs [] of (Inl err, hs) \<Rightarrow> (Inl err, cn)
      | (Inr (msg3, csSend, csRecv), hs) \<Rightarrow>
     (case write msg3 cn of (Some err, cn) \<Rightarrow> (Inl err, cn)
      | (None, cn) \<Rightarrow>
     (case (csSend, csRecv) of
        (Some send, Some recv) \<Rightarrow> (Inr \<lparr>Send = send, Recv = recv\<rparr>, cn)
      | _ \<Rightarrow> (Inl ''handshake incomplete'', cn)))))))))"

section \<open>transport.go\<close>

definition quicTransport_ReadMessage :: "'s stream_ops \<Rightarrow> 's \<Rightarrow> ('s \<times> (goerr + bytes)) option" where
  "quicTransport_ReadMessage Q s =
     (case ReadFull Q 4 s [] of None \<Rightarrow> None
      | Some (s1, Inl e) \<Rightarrow> Some (s1, Inl e)
      | Some (s1, Inr lenBuf) \<Rightarrow>
          (let msgLen = of_be32 lenBuf in
           case ReadFull Q (unat msgLen) s1 [] of None \<Rightarrow> None
           | Some (s2, Inl e) \<Rightarrow> Some (s2, Inl e)
           | Some (s2, Inr buf) \<Rightarrow> Some (s2, Inr buf)))"

definition quicTransport_WriteMessage :: "'s stream_ops \<Rightarrow> 's \<Rightarrow> bytes \<Rightarrow> 's \<times> goerr option" where
  "quicTransport_WriteMessage Q s d =
     (case so_Write Q s (be32 (of_nat (length d))) of
        (s1, Some e) \<Rightarrow> (s1, Some e)
      | (s1, None) \<Rightarrow> so_Write Q s1 d)"

text \<open>The interface \<open>Transport\<close>, and how a connection is dialled; \<open>'w\<close> is the state of the network.\<close>

record ('w, 'io) sdk_net =
  sn_dialWS :: "string \<Rightarrow> 'w \<Rightarrow> (goerr + 'io) \<times> 'w"
  sn_dialQUIC :: "string \<Rightarrow> bool \<Rightarrow> 'w \<Rightarrow> (goerr + 'io) \<times> 'w"
  sn_ReadMessage :: "'io reader"
  sn_WriteMessage :: "'io writer"
  sn_Close :: "'io \<Rightarrow> goerr option \<times> 'io"

section \<open>client.go\<close>

record ReconnectConfig =
  InitialDelay :: duration
  MaxDelay :: duration
  Multiplier :: float64
  Jitter :: float64
  MaxAttempts :: int

record ClientConfig =
  ServerAddr :: string
  cf_TransportType :: string
  TLSSkipVerify :: bool
  Reconnect :: ReconnectConfig

definition dial :: "('w, 'io) sdk_net \<Rightarrow> ClientConfig \<Rightarrow> 'w \<Rightarrow> (goerr + 'io) \<times> 'w" where
  "dial net cfg w =
     (if cf_TransportType cfg \<in> {''websocket'', ''ws'', []} then sn_dialWS net (ServerAddr cfg) w
      else if cf_TransportType cfg = ''quic'' then sn_dialQUIC net (ServerAddr cfg) (TLSSkipVerify cfg) w
      else (Inl (''unknown transport: '' @ cf_TransportType cfg), w))"

record ('io, 'c) Client =
  cl_conn :: "'io option"
  cl_session :: "'c NoiseSession option"
  cl_key :: KeyPair
  cl_config :: ClientConfig
  cl_closed :: bool

definition New :: "KeyPair \<Rightarrow> ClientConfig \<Rightarrow> ('io, 'c) Client" where
  "New key config = \<lparr>cl_conn = None, cl_session = None, cl_key = key, cl_config = config, cl_closed = False\<rparr>"

definition Connect ::
  "('h, 'c) noise_ops \<Rightarrow> ('w, 'io) sdk_net \<Rightarrow> bytes \<Rightarrow> ('io, 'c) Client \<Rightarrow> 'w
     \<Rightarrow> ('io, 'c) Client \<times> 'w \<times> goerr option" where
  "Connect N net rnd c w =
     (case dial net (cl_config c) w of
        (Inl err, w) \<Rightarrow> (c, w, Some (''dial: '' @ err))
      | (Inr cn, w) \<Rightarrow>
          (case clientHandshake N (cl_key c) rnd (sn_ReadMessage net) (sn_WriteMessage net) cn of
             (Inl err, cn) \<Rightarrow> (c\<lparr>cl_conn := Some (snd (sn_Close net cn))\<rparr>, w, Some (''handshake: '' @ err))
           | (Inr session, cn) \<Rightarrow>
               (c\<lparr>cl_conn := Some cn, cl_session := Some session, cl_closed := False\<rparr>, w, None)))"

definition nil_dereference :: string where
  "nil_dereference = ''invalid memory address or nil pointer dereference''"

definition Client_Send ::
  "('h, 'c) noise_ops \<Rightarrow> ('w, 'io) sdk_net \<Rightarrow> ('io, 'c) Client \<Rightarrow> bytes \<Rightarrow> (('io, 'c) Client \<times> goerr option) call" where
  "Client_Send N net c plaintext =
     (if cl_closed c \<or> cl_conn c = None then Returns (c, Some ''client not connected'')
      else case (cl_session c, cl_conn c) of
        (Some session, Some cn) \<Rightarrow>
          (case nz_Encrypt N (Send session) plaintext of
             (Inl err, cs) \<Rightarrow> Returns (c\<lparr>cl_session := Some (session\<lparr>Send := cs\<rparr>)\<rparr>, Some err)
           | (Inr ct, cs) \<Rightarrow>
               (case sn_WriteMessage net ct cn of (err, cn) \<Rightarrow>
                  Returns (c\<lparr>cl_session := Some (session\<lparr>Send := cs\<rparr>), cl_conn := Some cn\<rparr>, err)))
      | _ \<Rightarrow> Panic nil_dereference)"

definition Receive ::
  "('h, 'c) noise_ops \<Rightarrow> ('w, 'io) sdk_net \<Rightarrow> ('io, 'c) Client \<Rightarrow> (('io, 'c) Client \<times> (goerr + bytes)) call" where
  "Receive N net c =
     (case cl_conn c of None \<Rightarrow> Returns (c, Inl ''client not connected'')
      | Some cn \<Rightarrow>
          (case sn_ReadMessage net cn of
             (Inl err, cn) \<Rightarrow> Returns (c\<lparr>cl_conn := Some cn\<rparr>, Inl err)
           | (Inr ct, cn) \<Rightarrow>
               (case cl_session c of None \<Rightarrow> Panic nil_dereference
                | Some session \<Rightarrow>
                    (case nz_Decrypt N (Recv session) ct of (r, cs) \<Rightarrow>
                       Returns (c\<lparr>cl_conn := Some cn, cl_session := Some (session\<lparr>Recv := cs\<rparr>)\<rparr>, r)))))"

definition Client_Close :: "('w, 'io) sdk_net \<Rightarrow> ('io, 'c) Client \<Rightarrow> ('io, 'c) Client \<times> goerr option" where
  "Client_Close net c =
     (let c = c\<lparr>cl_closed := True\<rparr> in
      case cl_conn c of None \<Rightarrow> (c, None)
      | Some cn \<Rightarrow> (case sn_Close net cn of (err, cn) \<Rightarrow> (c\<lparr>cl_conn := Some cn\<rparr>, err)))"

section \<open>reconnect.go\<close>

definition DefaultReconnectConfig :: ReconnectConfig where
  "DefaultReconnectConfig = \<lparr>InitialDelay = 1 * Second, MaxDelay = 30 * Second, Multiplier = fl 2, Jitter = fl (1 / 5),
     MaxAttempts = 0\<rparr>"

text \<open>\<open>r\<close> is the value of \<open>rand.Float64()\<close>.\<close>

definition applyJitter :: "rat \<Rightarrow> duration \<Rightarrow> float64 \<Rightarrow> duration" where
  "applyJitter r d jitter =
     (if jitter \<le> 0 then d
      else let delta = fl (fl (of_int d) * jitter);
               lo = fl (fl (of_int d) - delta);
               hi = fl (fl (of_int d) + delta)
           in to_int64 (fl (lo + fl (r * fl (hi - lo)))))"

text \<open>\<open>pow\<close> stands for \<open>math.Pow\<close>.\<close>

definition NextDelay :: "(float64 \<Rightarrow> float64 \<Rightarrow> float64) \<Rightarrow> rat \<Rightarrow> int \<Rightarrow> ReconnectConfig \<Rightarrow> duration" where
  "NextDelay pow r attempt cfg =
     (let delay = fl (fl (of_int (InitialDelay cfg)) * pow (Multiplier cfg) (fl (of_int attempt)));
          delay = (if delay > fl (of_int (MaxDelay cfg)) then fl (of_int (MaxDelay cfg)) else delay)
      in applyJitter r (to_int64 delay) (Jitter cfg))"

definition next_delay :: "ReconnectConfig \<Rightarrow> duration \<Rightarrow> duration" where
  "next_delay cfg delay =
     (let delay = to_int64 (fl (fl (of_int delay) * Multiplier cfg))
      in if delay > MaxDelay cfg then MaxDelay cfg else delay)"

text \<open>
  The loop. \<open>connect\<close> is the attempt, \<open>ctx k\<close> the error of the context if the \<open>k\<close>-th wait ends by it, \<open>rnd k\<close> the \<open>k\<close>-th random
  number. The result holds the waits handed to \<open>time.After\<close>; \<open>None\<close> when the loop never ends.
\<close>

partial_function (option) reconnect_loop ::
  "('s \<Rightarrow> 's \<times> goerr option) \<Rightarrow> (nat \<Rightarrow> goerr option) \<Rightarrow> (nat \<Rightarrow> rat) \<Rightarrow> ReconnectConfig \<Rightarrow> duration \<Rightarrow> int \<Rightarrow> 's
     \<Rightarrow> duration list \<Rightarrow> ('s \<times> goerr option \<times> duration list) option" where
  "reconnect_loop connect ctx rnd cfg delay attempt s waits =
     (case connect s of
        (s, None) \<Rightarrow> Some (s, None, waits)
      | (s, Some err) \<Rightarrow>
          (let attempt = attempt + 1 in
           if MaxAttempts cfg > 0 \<and> attempt \<ge> MaxAttempts cfg then Some (s, Some err, waits)
           else let jittered = applyJitter (rnd (length waits)) delay (Jitter cfg) in
             case ctx (length waits) of
               Some e \<Rightarrow> Some (s, Some e, waits @ [jittered])
             | None \<Rightarrow> reconnect_loop connect ctx rnd cfg (next_delay cfg delay) attempt s (waits @ [jittered])))"

definition ConnectWithReconnect ::
  "('s \<Rightarrow> 's \<times> goerr option) \<Rightarrow> (nat \<Rightarrow> goerr option) \<Rightarrow> (nat \<Rightarrow> rat) \<Rightarrow> ReconnectConfig \<Rightarrow> 's
     \<Rightarrow> ('s \<times> goerr option \<times> duration list) option" where
  "ConnectWithReconnect connect ctx rnd cfg s =
     (let cfg = (if InitialDelay cfg = 0 then DefaultReconnectConfig else cfg)
      in reconnect_loop connect ctx rnd cfg (InitialDelay cfg) 0 s [])"

section \<open>Lemmas\<close>

lemma Connect_session: "Connect N net rnd c w = (c', w', None) \<Longrightarrow> cl_session c' \<noteq> None \<and> cl_conn c' \<noteq> None \<and> \<not> cl_closed c'"
  by (auto simp: Connect_def split: prod.splits sum.splits)

lemma to_int64_bounds:
  assumes "lo \<le> x" "x \<le> hi" "0 \<le> x" "hi < 2 ^ 63"
  shows "lo - 1 < of_int (to_int64 x)" "of_int (to_int64 x) \<le> hi"
proof -
  have "of_int \<lfloor>x\<rfloor> \<le> x" "x < of_int \<lfloor>x\<rfloor> + 1" "0 \<le> \<lfloor>x\<rfloor>" using assms(3) by (linarith, linarith, simp)
  moreover from this assms have "rat_of_int \<lfloor>x\<rfloor> < of_int (2 ^ 63)" by simp
  then have "\<lfloor>x\<rfloor> < 2 ^ 63" by (simp only: of_int_less_iff)
  ultimately have "to_int64 x = \<lfloor>x\<rfloor>" using assms(3) by (simp add: to_int64_def Let_def)
  with \<open>of_int \<lfloor>x\<rfloor> \<le> x\<close> \<open>x < of_int \<lfloor>x\<rfloor> + 1\<close> assms
  show "lo - 1 < of_int (to_int64 x)" "of_int (to_int64 x) \<le> hi" by linarith+
qed

lemma applyJitter_bounds:
  assumes "0 \<le> d" "d \<le> 2 ^ 45" "0 \<le> j" "j \<le> 1" "0 \<le> r" "r \<le> 1"
  shows "\<bar>of_int (applyJitter r d j) - rat_of_int d\<bar> \<le> of_int d * j + 2"
proof (cases "j \<le> 0")
  case True
  with assms show ?thesis by (simp add: applyJitter_def)
next
  case False
  define y where "y = (let delta = fl (fl (of_int d) * j); lo = fl (fl (of_int d) - delta); hi = fl (fl (of_int d) + delta)
    in fl (lo + fl (r * fl (hi - lo))))"
  have y: "of_int d - of_int d * j - 1 / 2 \<le> y" "y \<le> of_int d + of_int d * j + 1 / 2"
    using ieee.jitter_bounds [OF assms] by (simp_all add: y_def Let_def)
  have j: "applyJitter r d j = to_int64 y" using False by (simp add: applyJitter_def y_def Let_def)
  have d: "rat_of_int d \<le> 2 ^ 45" using assms(2) by (simp add: of_int_le_iff [of d "2 ^ 45", symmetric] del: of_int_le_iff)
  have t: "of_int d * j \<le> of_int d" "0 \<le> of_int d * j" using assms by (simp_all add: mult_left_le)
  show ?thesis
  proof (cases "0 \<le> y")
    case True
    from to_int64_bounds [OF y True] d t show ?thesis unfolding j abs_le_iff by simp
  next
    case False
    then have "\<lceil>y\<rceil> = 0" using y(1) t by (simp add: ceiling_eq_iff)
    then have "to_int64 y = 0" using False by (simp add: to_int64_def)
    then show ?thesis unfolding j abs_le_iff using False y(1) t assms(1) by simp
  qed
qed

definition waits_ok ::
  "(nat \<Rightarrow> rat) \<Rightarrow> ReconnectConfig \<Rightarrow> duration \<Rightarrow> int \<Rightarrow> duration list \<Rightarrow> duration list \<Rightarrow> bool" where
  "waits_ok rnd cfg delay attempt waits ws \<longleftrightarrow> (\<exists>vs. ws = waits @ vs \<and>
     (attempt < MaxAttempts cfg \<longrightarrow> attempt + int (length vs) < MaxAttempts cfg) \<and>
     (\<forall>i < length vs. vs ! i = applyJitter (rnd (length waits + i)) ((next_delay cfg ^^ i) delay) (Jitter cfg)))"

lemma waits_ok_Nil: "waits_ok rnd cfg delay attempt waits waits"
  by (simp add: waits_ok_def)

lemma waits_ok_step:
  assumes "waits_ok rnd cfg (next_delay cfg delay) (attempt + 1) (waits @ [v]) ws"
    and "v = applyJitter (rnd (length waits)) delay (Jitter cfg)" "\<not> (MaxAttempts cfg > 0 \<and> attempt + 1 \<ge> MaxAttempts cfg)"
    and "0 \<le> attempt"
  shows "waits_ok rnd cfg delay attempt waits ws"
proof -
  obtain vs where vs: "ws = waits @ v # vs" "attempt + 1 < MaxAttempts cfg \<longrightarrow> attempt + 1 + int (length vs) < MaxAttempts cfg"
    "\<forall>i < length vs. vs ! i = applyJitter (rnd (Suc (length waits) + i)) ((next_delay cfg ^^ i) (next_delay cfg delay)) (Jitter cfg)"
    using assms(1) by (auto simp: waits_ok_def)
  show ?thesis unfolding waits_ok_def
  proof (intro exI [of _ "v # vs"] conjI allI impI)
    fix i assume "i < length (v # vs)"
    then show "(v # vs) ! i = applyJitter (rnd (length waits + i)) ((next_delay cfg ^^ i) delay) (Jitter cfg)"
      using vs(3) assms(2) by (cases i) (simp_all add: funpow_swap1)
  qed (use vs(1,2) assms(3,4) in auto)
qed

lemma reconnect_waits:
  assumes "reconnect_loop connect ctx rnd cfg delay attempt s waits = Some res" "0 \<le> attempt"
  shows "waits_ok rnd cfg delay attempt waits (snd (snd res))"
proof -
  have "0 \<le> attempt \<longrightarrow> waits_ok rnd cfg delay attempt waits (snd (snd res))"
  proof (rule reconnect_loop.raw_induct [where P = "\<lambda>connect ctx rnd cfg delay attempt s waits res.
      0 \<le> attempt \<longrightarrow> waits_ok rnd cfg delay attempt waits (snd (snd res))", OF _ assms(1)])
    fix f connect ctx rnd cfg delay attempt s waits res
    assume IH: "\<And>connect ctx rnd cfg delay attempt s waits res.
        f connect ctx rnd cfg delay attempt s waits = Some res \<Longrightarrow>
        0 \<le> attempt \<longrightarrow> waits_ok rnd cfg delay attempt waits (snd (snd res))"
      and body: "(case connect s of (s, None) \<Rightarrow> Some (s, None, waits)
        | (s, Some err) \<Rightarrow>
          (let attempt = attempt + 1 in
           if MaxAttempts cfg > 0 \<and> attempt \<ge> MaxAttempts cfg then Some (s, Some err, waits)
           else let jittered = applyJitter (rnd (length waits)) delay (Jitter cfg) in
             case ctx (length waits) of
               Some e \<Rightarrow> Some (s, Some e, waits @ [jittered])
             | None \<Rightarrow> f connect ctx rnd cfg (next_delay cfg delay) attempt s (waits @ [jittered]))) = Some res"
    show "0 \<le> attempt \<longrightarrow> waits_ok rnd cfg delay attempt waits (snd (snd res))"
    proof
      assume att: "0 \<le> attempt"
      let ?v = "applyJitter (rnd (length waits)) delay (Jitter cfg)"
      obtain s1 e1 where c: "connect s = (s1, e1)" by fastforce
      show "waits_ok rnd cfg delay attempt waits (snd (snd res))"
      proof (cases "e1 = None \<or> MaxAttempts cfg > 0 \<and> attempt + 1 \<ge> MaxAttempts cfg")
        case True
        then have "res = (s1, e1, waits)" using body by (cases e1) (simp_all add: c)
        then show ?thesis by (simp add: waits_ok_Nil)
      next
        case False
        then obtain e where e1: "e1 = Some e" by (cases e1) auto
        have go: "\<not> (MaxAttempts cfg > 0 \<and> attempt + 1 \<ge> MaxAttempts cfg)" using False by blast
        have att1: "0 \<le> attempt + 1" using att by simp
        show ?thesis
        proof (cases "ctx (length waits)")
          case None
          have "f connect ctx rnd cfg (next_delay cfg delay) (attempt + 1) s1 (waits @ [?v]) = Some res"
            using body None go by (simp add: c e1 Let_def)
          from IH [OF this] att1 have "waits_ok rnd cfg (next_delay cfg delay) (attempt + 1) (waits @ [?v]) (snd (snd res))" by blast
          then show ?thesis by (rule waits_ok_step [OF _ refl go att])
        next
          case (Some e')
          have "res = (s1, Some e', waits @ [?v])" using body Some go by (simp add: c e1 Let_def)
          then have "waits_ok rnd cfg (next_delay cfg delay) (attempt + 1) (waits @ [?v]) (snd (snd res))"
            by (simp add: waits_ok_Nil)
          then show ?thesis by (rule waits_ok_step [OF _ refl go att])
        qed
      qed
    qed
  qed
  with assms(2) show ?thesis by simp
qed

lemma reconnect_gives_up:
  assumes "attempt < MaxAttempts cfg" "0 \<le> attempt"
  shows "\<exists>res. reconnect_loop connect ctx rnd cfg delay attempt s waits = Some res"
  using assms
proof (induction "nat (MaxAttempts cfg - attempt)" arbitrary: delay attempt s waits)
  case (Suc n)
  obtain s1 e1 where c: "connect s = (s1, e1)" by fastforce
  let ?v = "applyJitter (rnd (length waits)) delay (Jitter cfg)"
  show ?case
  proof (cases "e1 = None \<or> attempt + 1 \<ge> MaxAttempts cfg \<or> ctx (length waits) \<noteq> None")
    case True
    then show ?thesis using Suc.prems by (subst reconnect_loop.simps) (auto simp: c Let_def split: option.splits)
  next
    case False
    then have lt: "attempt + 1 < MaxAttempts cfg" by simp
    have n: "n = nat (MaxAttempts cfg - (attempt + 1))" using Suc.hyps(2) by simp
    have "\<exists>res. reconnect_loop connect ctx rnd cfg (next_delay cfg delay) (attempt + 1) s1 (waits @ [?v]) = Some res"
      using Suc.hyps(1) [OF n lt] Suc.prems(2) by simp
    then show ?thesis using False by (subst reconnect_loop.simps) (auto simp: c Let_def split: option.splits)
  qed
qed simp

lemma reconnect_forever:
  assumes "\<And>s. snd (connect s) \<noteq> None" "\<And>k. ctx k = None" "MaxAttempts cfg \<le> 0"
  shows "reconnect_loop connect ctx rnd cfg delay attempt s waits = None"
proof (cases "reconnect_loop connect ctx rnd cfg delay attempt s waits")
  case (Some res)
  let ?P = "\<lambda>connect' ctx' rnd' cfg' delay' attempt' s' waits' res'. \<not> (connect' = connect \<and> ctx' = ctx \<and> cfg' = cfg)"
  have "?P connect ctx rnd cfg delay attempt s waits res"
  proof (rule reconnect_loop.raw_induct [where P = ?P, OF _ Some])
    fix f connect' ctx' rnd cfg' delay attempt s waits res
    assume IH: "\<And>connect' ctx' rnd cfg' delay attempt s waits res.
        f connect' ctx' rnd cfg' delay attempt s waits = Some res \<Longrightarrow> ?P connect' ctx' rnd cfg' delay attempt s waits res"
      and body: "(case connect' s of (s, None) \<Rightarrow> Some (s, None, waits)
        | (s, Some err) \<Rightarrow>
          (let attempt = attempt + 1 in
           if MaxAttempts cfg' > 0 \<and> attempt \<ge> MaxAttempts cfg' then Some (s, Some err, waits)
           else let jittered = applyJitter (rnd (length waits)) delay (Jitter cfg') in
             case ctx' (length waits) of
               Some e \<Rightarrow> Some (s, Some e, waits @ [jittered])
             | None \<Rightarrow> f connect' ctx' rnd cfg' (next_delay cfg' delay) attempt s (waits @ [jittered]))) = Some res"
    show "?P connect' ctx' rnd cfg' delay attempt s waits res"
    proof
      assume eq: "connect' = connect \<and> ctx' = ctx \<and> cfg' = cfg"
      obtain s1 e1 where c: "connect s = (s1, Some e1)" using assms(1) [of s] by (cases "connect s") auto
      from body eq c assms(2,3) have "f connect ctx rnd cfg (next_delay cfg delay) (attempt + 1) s1
          (waits @ [applyJitter (rnd (length waits)) delay (Jitter cfg)]) = Some res"
        by (simp add: Let_def)
      from IH [OF this] show False by simp
    qed
  qed
  then show ?thesis by simp
qed simp

lemma next_delay_bounds:
  assumes "0 \<le> d" "d \<le> MaxDelay cfg" "MaxDelay cfg \<le> 2 ^ 45" "0 \<le> Multiplier cfg"
    and "of_int (MaxDelay cfg) * Multiplier cfg \<le> 2 ^ 60"
  shows "0 \<le> next_delay cfg d" "next_delay cfg d \<le> MaxDelay cfg"
proof -
  have d: "fl (rat_of_int d) = of_int d" using assms(1-3) by (intro fl_int) simp
  let ?y = "fl (of_int d * Multiplier cfg)"
  have "of_int d * Multiplier cfg \<le> of_int (MaxDelay cfg) * Multiplier cfg" "0 \<le> of_int d * Multiplier cfg"
    using assms by (auto intro: mult_right_mono)
  then have "\<bar>of_int d * Multiplier cfg\<bar> \<le> 2 ^ 60" using assms(5) by linarith
  from ieee.error_bound [OF this] \<open>0 \<le> of_int d * Multiplier cfg\<close> have y: "0 \<le> ?y" "?y \<le> 2 ^ 61"
    using \<open>\<bar>of_int d * Multiplier cfg\<bar> \<le> 2 ^ 60\<close> ieee.nonneg by simp_all
  then have "0 \<le> to_int64 ?y" using to_int64_bounds [of 0 ?y "2 ^ 61"] by simp
  then show "0 \<le> next_delay cfg d" "next_delay cfg d \<le> MaxDelay cfg"
    using assms(1,2) by (auto simp: next_delay_def d Let_def)
qed

lemma to_int64_int: "- (2 ^ 63) \<le> n \<Longrightarrow> n < 2 ^ 63 \<Longrightarrow> to_int64 (of_int n) = n"
  by (simp add: to_int64_def Let_def)

lemma double_exact: "0 \<le> d \<Longrightarrow> d \<le> 30 * Second \<Longrightarrow> to_int64 (fl (fl (of_int d) * 2)) = 2 * d"
  using fl_int [of d] fl_int [of "2 * d"] to_int64_int [of "2 * d"] by (simp add: Second_def mult.commute [of _ 2])

lemma default_delays: "(next_delay DefaultReconnectConfig ^^ i) Second = min (2 ^ i * Second) (30 * Second)"
proof (induction i)
  case (Suc i)
  let ?d = "min (2 ^ i * Second) (30 * Second)"
  have small: "0 \<le> ?d" "?d \<le> 30 * Second" by (simp_all add: Second_def)
  have two: "fl 2 = 2" using fl_int [of 2] by simp
  have "to_int64 (fl (fl (of_int ?d) * 2)) = 2 * ?d" by (rule double_exact [OF small])
  then have "next_delay DefaultReconnectConfig ?d = min (2 * ?d) (30 * Second)"
    by (simp add: next_delay_def DefaultReconnectConfig_def two Let_def min_def)
  also have "\<dots> = min (2 ^ Suc i * Second) (30 * Second)" by (simp add: Second_def min_def)
  finally show ?case by (simp only: funpow.simps comp_apply Suc.IH)
qed (simp add: Second_def)

text \<open>Two results agree up to the text of an error.\<close>

definition agree :: "(goerr + 'a) \<times> 's \<Rightarrow> (goerr + 'a) \<times> 's \<Rightarrow> bool" where
  "agree x y \<longleftrightarrow> snd x = snd y \<and> (case fst x of Inr v \<Rightarrow> fst y = Inr v | Inl _ \<Rightarrow> \<exists>e. fst y = Inl e)"

lemma agree_intros:
  "agree (Inl e, s) (Inl e', s)" "agree (Inr res, s) (Inr res, s)"
  "(\<And>a b. agree (f a b) (g a b)) \<Longrightarrow> agree (case p of (a, b) \<Rightarrow> f a b) (case p of (a, b) \<Rightarrow> g a b)"
  "(\<And>a. agree (h a) (h' a)) \<Longrightarrow> (\<And>b. agree (k b) (k' b)) \<Longrightarrow>
     agree (case v of Inl a \<Rightarrow> h a | Inr b \<Rightarrow> k b) (case v of Inl a \<Rightarrow> h' a | Inr b \<Rightarrow> k' b)"
  "agree x x' \<Longrightarrow> (\<And>b. agree (m b) (m' b)) \<Longrightarrow>
     agree (case w of None \<Rightarrow> x | Some b \<Rightarrow> m b) (case w of None \<Rightarrow> x' | Some b \<Rightarrow> m' b)"
     apply (simp_all add: agree_def)[2]
    apply (cases p; simp)
   apply (cases v; simp)
  apply (cases w; simp)
  done

lemma handshakes_agree: "agree (clientHandshake N key rnd read write cn) (ClientHandshake N key rnd read write cn)"
  unfolding clientHandshake_def ClientHandshake_def by (intro agree_intros)

lemma sdk_ReadMessage_frame:
  assumes "byte_stream Q buffered" "buffered s = be32 (of_nat (length m)) @ m @ rest" "length m < 2 ^ 32"
  shows "\<exists>s'. quicTransport_ReadMessage Q s = Some (s', Inr m) \<and> buffered s' = rest"
proof -
  obtain s1 where s1: "ReadFull Q 4 s [] = Some (s1, Inr (be32 (of_nat (length m))))" "buffered s1 = m @ rest"
    using byte_stream.ReadFull_prefix [OF assms(1), of s "be32 (of_nat (length m))" "m @ rest"] assms(2) by auto
  obtain s2 where s2: "ReadFull Q (length m) s1 [] = Some (s2, Inr m)" "buffered s2 = rest"
    using byte_stream.ReadFull_prefix [OF assms(1) s1(2)] by blast
  have "unat (of_nat (length m) :: uint32) = length m" using assms(3) by (simp add: unat_of_nat)
  with s1 s2 show ?thesis by (simp add: quicTransport_ReadMessage_def)
qed

lemma sdk_reads_core:
  assumes "QUICConn_ReadMessage Q s = Some (s', Inr m)"
  shows "quicTransport_ReadMessage Q s = Some (s', Inr m)"
proof (cases "ReadFull Q 4 s []")
  case None
  with assms show ?thesis by (simp add: QUICConn_ReadMessage_def)
next
  case (Some p)
  obtain s1 r where p: "p = (s1, r)" by fastforce
  show ?thesis
  proof (cases r)
    case (Inl e)
    with assms Some p show ?thesis by (simp add: QUICConn_ReadMessage_def)
  next
    case (Inr lenBuf)
    have "\<not> of_nat quicMaxMsgSize < of_be32 lenBuf"
      using assms Some p Inr by (auto simp: QUICConn_ReadMessage_def Let_def)
    with assms Some p Inr show ?thesis
      by (simp add: QUICConn_ReadMessage_def quicTransport_ReadMessage_def Let_def split: option.splits prod.splits sum.splits)
  qed
qed

section \<open>Properties\<close>

text \<open>
  C34. The SDK speaks the protocol of \<open>proto-core\<close>.  Its handshake does what \<open>ClientHandshake\<close> does, on every Noise library
  and connection: the same session or an error in the same cases, and the same traffic.  Its QUIC framing writes the same bytes,
  reads every message \<open>QUICConn\<close> reads, and over an ordered stream reads every frame of up to \<open>2^32 - 1\<close> bytes,
  those beyond the limit of \<open>proto-core\<close> included.
\<close>

theorem sdk_interoperates:
  "(case clientHandshake N key rnd read write cn of
      (Inr session, cn') \<Rightarrow> ClientHandshake N key rnd read write cn = (Inr session, cn')
    | (Inl _, cn') \<Rightarrow> \<exists>e. ClientHandshake N key rnd read write cn = (Inl e, cn')) \<and>
   fst (quicTransport_WriteMessage Q s m) = fst (QUICConn_WriteMessage Q s m) \<and>
   (snd (quicTransport_WriteMessage Q s m) = None \<longleftrightarrow> snd (QUICConn_WriteMessage Q s m) = None) \<and>
   (QUICConn_ReadMessage Q s = Some (s', Inr m') \<longrightarrow> quicTransport_ReadMessage Q s = Some (s', Inr m')) \<and>
   (byte_stream Q buffered \<and> buffered s = be32 (of_nat (length m)) @ m @ rest \<and> length m < 2 ^ 32 \<longrightarrow>
     (\<exists>s'. quicTransport_ReadMessage Q s = Some (s', Inr m) \<and> buffered s' = rest))"
proof (intro conjI)
  show "case clientHandshake N key rnd read write cn of
      (Inr session, cn') \<Rightarrow> ClientHandshake N key rnd read write cn = (Inr session, cn')
    | (Inl _, cn') \<Rightarrow> \<exists>e. ClientHandshake N key rnd read write cn = (Inl e, cn')"
    using handshakes_agree [of N key rnd "read" "write" cn]
    by (cases "ClientHandshake N key rnd read write cn") (auto simp: agree_def split: prod.splits sum.splits)
  show "fst (quicTransport_WriteMessage Q s m) = fst (QUICConn_WriteMessage Q s m)"
    "snd (quicTransport_WriteMessage Q s m) = None \<longleftrightarrow> snd (QUICConn_WriteMessage Q s m) = None"
    by (simp_all add: quicTransport_WriteMessage_def QUICConn_WriteMessage_def split: prod.splits option.splits)
  show "QUICConn_ReadMessage Q s = Some (s', Inr m') \<longrightarrow> quicTransport_ReadMessage Q s = Some (s', Inr m')"
    by (intro impI sdk_reads_core)
  show "byte_stream Q buffered \<and> buffered s = be32 (of_nat (length m)) @ m @ rest \<and> length m < 2 ^ 32 \<longrightarrow>
     (\<exists>s'. quicTransport_ReadMessage Q s = Some (s', Inr m) \<and> buffered s' = rest)"
    by (intro impI, elim conjE) (rule sdk_ReadMessage_frame)
qed

theorem sdk_interoperates_witness:
  "\<exists>s'. quicTransport_ReadMessage chunked_ops
     \<lparr>ch_buf = be32 (of_nat 65537) @ replicate 65537 1 @ [9], ch_mtu = 9, ch_open = True\<rparr> = Some (s', Inr (replicate 65537 1)) \<and>
     ch_buf s' = [9]"
proof -
  let ?s = "\<lparr>ch_buf = be32 (of_nat 65537) @ replicate 65537 1 @ [9], ch_mtu = 9, ch_open = True\<rparr>"
  have "ch_buf ?s = be32 (of_nat (length (replicate 65537 (1 :: byte)))) @ replicate 65537 1 @ [9]"
    "length (replicate 65537 (1 :: byte)) < 2 ^ 32" by simp_all
  with sdk_interoperates [of noise_chacha \<open>\<lparr>Private = [1], Public = [2]\<rparr>\<close> "[3]" pipe_read pipe_write
      \<open>\<lparr>incoming = [], outgoing = []\<rparr>\<close> chunked_ops ?s "replicate 65537 1" ?s "[]" ch_buf "[9]"] chunk.byte_stream_axioms
  show ?thesis by blast
qed


definition sample_net :: "(unit, pipe) sdk_net" where
  "sample_net = \<lparr>sn_dialWS = (\<lambda>_ w. (Inr \<lparr>incoming = [], outgoing = []\<rparr>, w)), sn_dialQUIC = (\<lambda>_ _ w. (Inl ''no route'', w)),
     sn_ReadMessage = pipe_read, sn_WriteMessage = pipe_write, sn_Close = (\<lambda>p. (None, p))\<rparr>"

definition sample_config :: ClientConfig where
  "sample_config = \<lparr>ServerAddr = ''ws://localhost:8080/ws'', cf_TransportType = ''ws'', TLSSkipVerify = False,
     Reconnect = DefaultReconnectConfig\<rparr>"



definition sample_reconnect :: ReconnectConfig where
  "sample_reconnect = DefaultReconnectConfig\<lparr>MaxAttempts := 1\<rparr>"


text \<open>
  C15. Giving up.  With a positive number of attempts and an initial delay the loop always returns.  Without an initial delay the
  configuration is replaced as a whole, the number of attempts included: the loop then never returns while the server
  cannot be reached and the context is not cancelled.
\<close>

theorem reconnect_terminates:
  assumes "0 < MaxAttempts cfg"
  shows "(InitialDelay cfg \<noteq> 0 \<longrightarrow> (\<exists>res. ConnectWithReconnect connect ctx rnd cfg s = Some res)) \<and>
    (InitialDelay cfg = 0 \<and> (\<forall>s. snd (connect s) \<noteq> None) \<and> (\<forall>k. ctx k = None) \<longrightarrow>
      ConnectWithReconnect connect ctx rnd cfg s = None)"
proof (intro conjI impI)
  assume "InitialDelay cfg \<noteq> 0"
  then show "\<exists>res. ConnectWithReconnect connect ctx rnd cfg s = Some res"
    using reconnect_gives_up [of 0 cfg connect ctx rnd "InitialDelay cfg" s "[]"] assms
    unfolding ConnectWithReconnect_def Let_def by simp
next
  assume "InitialDelay cfg = 0 \<and> (\<forall>s. snd (connect s) \<noteq> None) \<and> (\<forall>k. ctx k = None)"
  then show "ConnectWithReconnect connect ctx rnd cfg s = None"
    using reconnect_forever [of connect ctx DefaultReconnectConfig rnd]
    unfolding ConnectWithReconnect_def Let_def by (simp add: DefaultReconnectConfig_def)
qed

theorem reconnect_terminates_witness:
  "ConnectWithReconnect (\<lambda>s. (s, Some ''dial: refused'')) (\<lambda>_. None) (\<lambda>_. 0)
     (DefaultReconnectConfig\<lparr>InitialDelay := 0, MaxAttempts := 3\<rparr>) () = None"
  using reconnect_terminates [of "DefaultReconnectConfig\<lparr>InitialDelay := 0, MaxAttempts := 3\<rparr>"
      "\<lambda>s. (s, Some ''dial: refused'')" "\<lambda>_. None" "\<lambda>_. 0" "()"] by simp

end
