(* ===== verification/Crypto_Grpc.thy ===== *)
theory Crypto_Grpc
  imports Sender_Keys Session_Grpc
begin

text \<open>
  \<open>server/internal/cryptogrpc/server.go\<close>: handshakes kept by identifier on behalf of other services, and stateless
  encryption under a crypto state the caller carries. The Noise library, the AEAD cipher and HKDF are arguments.
\<close>

section \<open>server.go\<close>

text \<open>The map of handshakes: its keys are the identifiers in hexadecimal.\<close>

record 'h CryptoServer =
  cs_serverKey :: KeyPair
  cs_handshakes :: "(string \<times> 'h) list"

definition NewCryptoServer :: "KeyPair \<Rightarrow> 'h CryptoServer" where
  "NewCryptoServer k = \<lparr>cs_serverKey = k, cs_handshakes = []\<rparr>"

record HandshakeStepResponse =
  hr_ResponsePayload :: slice
  hr_Completed :: bool
  hr_CryptoState :: slice

text \<open>\<open>rnd\<close> is the random source of the handshake, \<open>sid\<close> what the read of the state identifier gives.\<close>

definition InitiateHandshake ::
  "('h, 'c) noise_ops \<Rightarrow> bytes \<Rightarrow> goerr + bytes \<Rightarrow> 'h CryptoServer \<Rightarrow> bool \<Rightarrow> 'h CryptoServer \<times> (goerr grpc_status + bytes)" where
  "InitiateHandshake N rnd sid s isInitiator =
     (case nz_NewHandshakeState N isInitiator (cs_serverKey s) rnd of
        Inl e \<Rightarrow> (s, Inl (GrpcStatus Internal ''init handshake: '' (Some e)))
      | Inr hs \<Rightarrow>
          (case sid of Inl e \<Rightarrow> (s, Inl (GrpcStatus Internal ''generate state id: '' (Some e)))
           | Inr stateID \<Rightarrow>
               (s\<lparr>cs_handshakes := AList.update (hex_encode stateID) hs (cs_handshakes s)\<rparr>, Inr stateID)))"

text \<open>\<open>ph\<close> is what the read of the 64 bytes gives; \<open>serializeCipherStates\<close> uses neither cipher state.\<close>

definition serializeCipherStates :: "goerr + bytes \<Rightarrow> 'c \<Rightarrow> 'c \<Rightarrow> bytes call" where
  "serializeCipherStates ph send recv = (case ph of Inl e \<Rightarrow> Panic (''rand read: '' @ e) | Inr placeholder \<Rightarrow> Returns placeholder)"

text \<open>The handshake is finished: its entry goes and the response carries the crypto state.\<close>

definition finish_handshake ::
  "goerr + bytes \<Rightarrow> string \<Rightarrow> slice \<Rightarrow> 'c \<Rightarrow> 'c \<Rightarrow> 'h CryptoServer \<Rightarrow>
   'h CryptoServer \<times> (goerr grpc_status + HandshakeStepResponse) call" where
  "finish_handshake ph key payload send recv s =
     (s\<lparr>cs_handshakes := AList.delete key (cs_handshakes s)\<rparr>,
      case serializeCipherStates ph send recv of Panic w \<Rightarrow> Panic w
      | Returns st \<Rightarrow> Returns (Inr \<lparr>hr_ResponsePayload = payload, hr_Completed = True, hr_CryptoState = Some st\<rparr>))"

definition write_step ::
  "('h, 'c) noise_ops \<Rightarrow> goerr + bytes \<Rightarrow> string \<Rightarrow> 'h \<Rightarrow> 'h CryptoServer \<Rightarrow>
   'h CryptoServer \<times> (goerr grpc_status + HandshakeStepResponse) call" where
  "write_step N ph key hs s =
     (case nz_WriteMessage N hs [] of (res, hs') \<Rightarrow>
        (let s' = s\<lparr>cs_handshakes := AList.update key hs' (cs_handshakes s)\<rparr> in
         case res of Inl e \<Rightarrow> (s', Returns (Inl (GrpcStatus Internal ''write message: '' (Some e))))
         | Inr (msg, Some send, Some recv) \<Rightarrow> finish_handshake ph key (Some msg) send recv s'
         | Inr (msg, _, _) \<Rightarrow>
             (s', Returns (Inr \<lparr>hr_ResponsePayload = Some msg, hr_Completed = False, hr_CryptoState = None\<rparr>))))"

definition ProcessHandshake ::
  "('h, 'c) noise_ops \<Rightarrow> goerr + bytes \<Rightarrow> 'h CryptoServer \<Rightarrow> slice \<Rightarrow> slice \<Rightarrow>
   'h CryptoServer \<times> (goerr grpc_status + HandshakeStepResponse) call" where
  "ProcessHandshake N ph s stateID payload =
     (let key = hex_encode (slice_bytes stateID) in
      case map_of (cs_handshakes s) key of
        None \<Rightarrow> (s, Returns (Inl (GrpcStatus NotFound ''handshake state not found'' None)))
      | Some hs \<Rightarrow>
          if slice_len payload > 0
          then
            (case nz_ReadMessage N hs (slice_bytes payload) of (res, hs') \<Rightarrow>
               (let s' = s\<lparr>cs_handshakes := AList.update key hs' (cs_handshakes s)\<rparr> in
                case res of Inl e \<Rightarrow> (s', Returns (Inl (GrpcStatus InvalidArgument ''read message: '' (Some e))))
                | Inr (_, Some recv, Some send) \<Rightarrow> finish_handshake ph key None send recv s'
                | Inr _ \<Rightarrow> write_step N ph key hs' s'))
          else write_step N ph key hs s)"

text \<open>
  \<open>req.CryptoState[:32]\<close> extends the slice up to its capacity: \<open>spare\<close> are the bytes the backing array holds beyond
  its length, and a shorter capacity panics.
\<close>

definition first32 :: "slice \<Rightarrow> bytes \<Rightarrow> bytes call" where
  "first32 state spare =
     (let b = slice_bytes state @ (if state = None then [] else spare)
      in if length b < 32 then Panic ''slice bounds out of range'' else Returns (take 32 b))"

definition CG_Encrypt ::
  "aead_ops \<Rightarrow> bytes \<Rightarrow> slice \<Rightarrow> slice \<Rightarrow> uint64 \<Rightarrow> slice \<Rightarrow> (goerr grpc_status + bytes \<times> slice) call" where
  "CG_Encrypt C spare sessionId cryptoState seq plaintext =
     (case first32 cryptoState spare of Panic w \<Rightarrow> Panic w
      | Returns k \<Rightarrow>
          (case NewAEAD k of Inl e \<Rightarrow> Returns (Inl (GrpcStatus InvalidArgument ''invalid crypto state: '' (Some e)))
           | Inr aead \<Rightarrow>
               Returns (Inr (EncryptAEAD C aead (slice_bytes sessionId) seq (slice_bytes plaintext), cryptoState))))"

definition CG_Decrypt ::
  "aead_ops \<Rightarrow> bytes \<Rightarrow> slice \<Rightarrow> slice \<Rightarrow> uint64 \<Rightarrow> slice \<Rightarrow> (goerr grpc_status + bytes \<times> slice) call" where
  "CG_Decrypt C spare sessionId cryptoState seq ciphertext =
     (case first32 cryptoState spare of Panic w \<Rightarrow> Panic w
      | Returns k \<Rightarrow>
          (case NewAEAD k of Inl e \<Rightarrow> Returns (Inl (GrpcStatus InvalidArgument ''invalid crypto state: '' (Some e)))
           | Inr aead \<Rightarrow>
               (case DecryptAEAD C aead (slice_bytes sessionId) seq (slice_bytes ciphertext) of
                  Inl e \<Rightarrow> Returns (Inl (GrpcStatus InvalidArgument ''decrypt: '' (Some e)))
                | Inr plaintext \<Rightarrow> Returns (Inr (plaintext, cryptoState)))))"

text \<open>\<open>copy(newState[:32], newKey)\<close> copies as many bytes as the shorter has.\<close>

definition CG_Rekey :: "hkdf \<Rightarrow> slice \<Rightarrow> goerr grpc_status + bytes" where
  "CG_Rekey hkdf cryptoState =
     (if slice_len cryptoState < 32 then Inl (GrpcStatus InvalidArgument ''crypto state too short'' None)
      else
        (case Rekey hkdf (take 32 (slice_bytes cryptoState)) of
           Inl e \<Rightarrow> Inl (GrpcStatus Internal ''rekey: '' (Some e))
         | Inr newKey \<Rightarrow>
             (let n = min 32 (length newKey) in Inr (take n newKey @ drop n (slice_bytes cryptoState)))))"

section \<open>HKDF\<close>

text \<open>HKDF-SHA256 without salt (RFC 5869), the instance of the parameter \<open>hkdf\<close>.\<close>

fun hkdf_blocks :: "nat \<Rightarrow> bytes \<Rightarrow> bytes \<Rightarrow> bytes \<Rightarrow> nat \<Rightarrow> bytes" where
  "hkdf_blocks 0 prk info prev i = []"
| "hkdf_blocks (Suc n) prk info prev i =
     (let t = hmac_sha256 prk (prev @ info @ [of_nat i]) in t @ hkdf_blocks n prk info t (Suc i))"

definition hkdf_sha256 :: hkdf where
  "hkdf_sha256 secret info n =
     (if n > 255 * 32 then Inl ''hkdf: entropy limit reached''
      else Inr (take n (hkdf_blocks (Suc (n div 32)) (hmac_sha256 (replicate 32 0) secret) info [] 1)))"

definition hkdf_ok :: "hkdf \<Rightarrow> bool" where
  "hkdf_ok hkdf \<longleftrightarrow> (\<forall>secret info. \<exists>k. hkdf secret info 32 = Inr k \<and> length k = 32)"

lemma length_hkdf_blocks [simp]: "length (hkdf_blocks n prk info prev i) = 32 * n"
  by (induction n arbitrary: prev i) (simp_all add: Let_def)

lemma hkdf_sha256_ok: "hkdf_ok hkdf_sha256"
  by (simp add: hkdf_ok_def hkdf_sha256_def Let_def)

section \<open>Properties\<close>



text \<open>
  A handshake through the service ends after its three messages and frees its entry, over any Noise library with
  the XX contract; but the crypto state it answers with is the 64 random bytes drawn at the end, whatever the two
  parties agreed on, so it is no key the client can know.
\<close>

lemma service_handshake:
  assumes "noise_xx N paired" "nz_NewHandshakeState N True kI rI = Inr i0"
    and "nz_NewHandshakeState N False (cs_serverKey s) rR = Inr r0"
    and "\<forall>h p m cs h'. nz_WriteMessage N h p = (Inr (m, cs), h') \<longrightarrow> m \<noteq> []"
    and "map_of (cs_handshakes s) (hex_encode sid) = None"
  shows "\<exists>s1 m1 i1 s2 m2 p2 i2 m3 i3 c1 c2 s3.
    InitiateHandshake N rR (Inr sid) s False = (s1, Inr sid) \<and>
    nz_WriteMessage N i0 [] = (Inr (m1, None, None), i1) \<and>
    ProcessHandshake N ph s1 (Some sid) (Some m1)
      = (s2, Returns (Inr \<lparr>hr_ResponsePayload = Some m2, hr_Completed = False, hr_CryptoState = None\<rparr>)) \<and>
    nz_ReadMessage N i1 m2 = (Inr (p2, None, None), i2) \<and>
    nz_WriteMessage N i2 [] = (Inr (m3, Some c1, Some c2), i3) \<and>
    (\<forall>rnd. ProcessHandshake N (Inr rnd) s2 (Some sid) (Some m3)
      = (s3, Returns (Inr \<lparr>hr_ResponsePayload = None, hr_Completed = True, hr_CryptoState = Some rnd\<rparr>))) \<and>
    map_of (cs_handshakes s3) (hex_encode sid) = None"
proof -
  from noise_xx.xx [OF assms(1-3)] obtain m1 i1 p1 r1 m2 r2 p2 i2 m3 i3 p3 r3 c1 c2 d1 d2 where xx:
    "nz_WriteMessage N i0 [] = (Inr (m1, None, None), i1)" "nz_ReadMessage N r0 m1 = (Inr (p1, None, None), r1)"
    "nz_WriteMessage N r1 [] = (Inr (m2, None, None), r2)" "nz_ReadMessage N i1 m2 = (Inr (p2, None, None), i2)"
    "nz_WriteMessage N i2 [] = (Inr (m3, Some c1, Some c2), i3)" "nz_ReadMessage N r2 m3 = (Inr (p3, Some d1, Some d2), r3)"
    by blast
  let ?k = "hex_encode sid"
  let ?s1 = "s\<lparr>cs_handshakes := AList.update ?k r0 (cs_handshakes s)\<rparr>"
  let ?s2 = "s\<lparr>cs_handshakes := AList.update ?k r2 (AList.update ?k r1 (AList.update ?k r0 (cs_handshakes s)))\<rparr>"
  let ?s3 = "s\<lparr>cs_handshakes := AList.delete ?k (AList.update ?k r3 (cs_handshakes ?s2))\<rparr>"
  have m: "m1 \<noteq> []" "m3 \<noteq> []" using assms(4) xx(1,5) by blast+
  have "InitiateHandshake N rR (Inr sid) s False = (?s1, Inr sid)" using assms(3) by (simp add: InitiateHandshake_def)
  moreover have "ProcessHandshake N ph ?s1 (Some sid) (Some m1)
      = (?s2, Returns (Inr \<lparr>hr_ResponsePayload = Some m2, hr_Completed = False, hr_CryptoState = None\<rparr>))"
    using m(1) xx(2,3) by (simp add: ProcessHandshake_def write_step_def update_conv)
  moreover have "ProcessHandshake N (Inr rnd) ?s2 (Some sid) (Some m3)
      = (?s3, Returns (Inr \<lparr>hr_ResponsePayload = None, hr_Completed = True, hr_CryptoState = Some rnd\<rparr>))" for rnd
    using m(2) xx(6) by (simp add: ProcessHandshake_def finish_handshake_def serializeCipherStates_def update_conv Let_def)
  moreover have "map_of (cs_handshakes ?s3) ?k = None" by (simp add: delete_conv)
  ultimately show ?thesis using xx(1,4,5) by blast
qed

lemma sym_encrypt_not_Nil: "sym_encrypt p s = (c, s') \<Longrightarrow> p \<noteq> [] \<Longrightarrow> c \<noteq> []"
proof -
  have seal: "aead_Seal chacha20poly1305 k n q a \<noteq> []" for k n q a using chacha.length_seal [of k n q a] by auto
  show "sym_encrypt p s = (c, s') \<Longrightarrow> p \<noteq> [] \<Longrightarrow> c \<noteq> []"
    using seal by (auto simp: sym_encrypt_def Let_def split: option.splits prod.splits)
qed

lemma pub_bytes_not_Nil [simp]: "pub_bytes a \<noteq> []"
  using length_pub_bytes [of a] by force

lemma xx_write_not_Nil: "\<forall>h p m cs h'. nz_WriteMessage noise_chacha h p = (Inr (m, cs), h') \<longrightarrow> m \<noteq> []"
  using sym_encrypt_not_Nil
  by (auto simp: noise_chacha_def xx_write_def Let_def split: if_splits prod.splits)

definition sample_keypair :: KeyPair where
  "sample_keypair = \<lparr>Private = [1], Public = pub_bytes 1\<rparr>"

lemma service_handshake_instance:
  "\<exists>s1 s2 s3 m1 m3 m2. InitiateHandshake noise_chacha [4] (Inr [8]) (NewCryptoServer sample_keypair) False = (s1, Inr [8]) \<and>
    ProcessHandshake noise_chacha (Inr []) s1 (Some [8]) (Some m1)
      = (s2, Returns (Inr \<lparr>hr_ResponsePayload = Some m2, hr_Completed = False, hr_CryptoState = None\<rparr>)) \<and>
    ProcessHandshake noise_chacha (Inr [5, 6]) s2 (Some [8]) (Some m3)
      = (s3, Returns (Inr \<lparr>hr_ResponsePayload = None, hr_Completed = True, hr_CryptoState = Some [5, 6]\<rparr>))"
proof -
  have new: "nz_NewHandshakeState noise_chacha b k r = Inr (projr (xx_new b k r))" for b k r
    by (simp add: noise_chacha_def xx_new_def)
  have "map_of (cs_handshakes (NewCryptoServer sample_keypair)) (hex_encode [8]) = None" by (simp add: NewCryptoServer_def)
  from service_handshake [where s = "NewCryptoServer sample_keypair" and kI = sample_keypair and rI = "[3]" and rR = "[4]"
      and ph = "Inr []" and sid = "[8]", OF nxx.noise_xx_axioms new new xx_write_not_Nil this]
  show ?thesis by blast
qed

end
