(* ===== verification/Starters.thy ===== *)
theory Starters
  imports Session_Machine Crypto_Grpc
begin

text \<open>
  The starter kits under \<open>starters/\<close>: the session machine and the packet cryptography of the Python, PHP, Java,
  .NET, Node and Rust ports, each as its language has it, and how they relate to the Go code of \<open>proto-core\<close>.
  The cipher library of every language is the parameter \<open>aead_ops\<close>; HMAC-SHA256, which every one but Rust takes from
  its standard library, is computed.
\<close>

section \<open>The session machines\<close>

text \<open>The enumerations of the six ports have the same four and six cases.\<close>

datatype st_Status = CONNECTING | ACTIVE | SLEEPING | EXPIRED

datatype st_Event =
  HANDSHAKE_OK | HANDSHAKE_FAIL | PACKET_RECEIVED | IDLE_TIMEOUT | EXPIRY_TIMEOUT | EXPLICIT_LOGOUT

fun st_value :: "st_Status \<Rightarrow> string" where
  "st_value CONNECTING = ''connecting''"
| "st_value ACTIVE = ''active''"
| "st_value SLEEPING = ''sleeping''"
| "st_value EXPIRED = ''expired''"

fun ev_value :: "st_Event \<Rightarrow> string" where
  "ev_value HANDSHAKE_OK = ''handshake_ok''"
| "ev_value HANDSHAKE_FAIL = ''handshake_fail''"
| "ev_value PACKET_RECEIVED = ''packet_received''"
| "ev_value IDLE_TIMEOUT = ''idle_timeout''"
| "ev_value EXPIRY_TIMEOUT = ''expiry_timeout''"
| "ev_value EXPLICIT_LOGOUT = ''explicit_logout''"

record TransitionResult =
  tr_next :: st_Status
  tr_destroyed :: bool

definition tr :: "st_Status \<Rightarrow> bool \<Rightarrow> TransitionResult" where
  "tr s d = \<lparr>tr_next = s, tr_destroyed = d\<rparr>"

text \<open>The message of the exception, which carries the status and the event.\<close>

definition invalid_transition :: "st_Status \<Rightarrow> st_Event \<Rightarrow> string" where
  "invalid_transition s e = ''invalid transition: '' @ st_value s @ '' + '' @ ev_value e"

subsection \<open>Python\<close>

definition py_TRANSITIONS :: "((st_Status \<times> st_Event) \<times> TransitionResult) list" where
  "py_TRANSITIONS =
    [((CONNECTING, HANDSHAKE_OK), tr ACTIVE False),
     ((CONNECTING, HANDSHAKE_FAIL), tr EXPIRED True),
     ((ACTIVE, PACKET_RECEIVED), tr ACTIVE False),
     ((ACTIVE, IDLE_TIMEOUT), tr SLEEPING False),
     ((ACTIVE, EXPLICIT_LOGOUT), tr EXPIRED False),
     ((SLEEPING, PACKET_RECEIVED), tr ACTIVE False),
     ((SLEEPING, EXPIRY_TIMEOUT), tr EXPIRED False)]"

definition py_transition :: "st_Status \<Rightarrow> st_Event \<Rightarrow> string + TransitionResult" where
  "py_transition current event =
     (case map_of py_TRANSITIONS (current, event) of
        None \<Rightarrow> Inl (invalid_transition current event)
      | Some result \<Rightarrow> Inr \<lparr>tr_next = tr_next result, tr_destroyed = tr_destroyed result\<rparr>)"

subsection \<open>PHP\<close>

text \<open>The table is filled on the first call; its keys are strings.\<close>

definition php_key :: "st_Status \<Rightarrow> st_Event \<Rightarrow> string" where
  "php_key s e = st_value s @ '':'' @ ev_value e"

definition php_init :: "(string \<times> TransitionResult) list \<Rightarrow> (string \<times> TransitionResult) list" where
  "php_init table =
     (if table \<noteq> [] then table
      else fold (\<lambda>(k, v). AList.update k v)
        [(php_key CONNECTING HANDSHAKE_OK, tr ACTIVE False),
         (php_key CONNECTING HANDSHAKE_FAIL, tr EXPIRED True),
         (php_key ACTIVE PACKET_RECEIVED, tr ACTIVE False),
         (php_key ACTIVE IDLE_TIMEOUT, tr SLEEPING False),
         (php_key ACTIVE EXPLICIT_LOGOUT, tr EXPIRED False),
         (php_key SLEEPING PACKET_RECEIVED, tr ACTIVE False),
         (php_key SLEEPING EXPIRY_TIMEOUT, tr EXPIRED False)] table)"

definition php_transition ::
  "(string \<times> TransitionResult) list \<Rightarrow> st_Status \<Rightarrow> st_Event
     \<Rightarrow> (string \<times> TransitionResult) list \<times> (string + TransitionResult)" where
  "php_transition table current event =
     (let table = php_init table; key = st_value current @ '':'' @ ev_value event
      in (table, case map_of table key of
            None \<Rightarrow> Inl (invalid_transition current event)
          | Some result \<Rightarrow> Inr result))"

subsection \<open>Java\<close>

definition java_TRANSITIONS :: "((st_Status \<times> st_Event) \<times> TransitionResult) list" where
  "java_TRANSITIONS =
    [((CONNECTING, HANDSHAKE_OK), tr ACTIVE False),
     ((CONNECTING, HANDSHAKE_FAIL), tr EXPIRED True),
     ((ACTIVE, PACKET_RECEIVED), tr ACTIVE False),
     ((ACTIVE, IDLE_TIMEOUT), tr SLEEPING False),
     ((ACTIVE, EXPLICIT_LOGOUT), tr EXPIRED False),
     ((SLEEPING, PACKET_RECEIVED), tr ACTIVE False),
     ((SLEEPING, EXPIRY_TIMEOUT), tr EXPIRED False)]"

definition java_transition :: "st_Status \<Rightarrow> st_Event \<Rightarrow> string + TransitionResult" where
  "java_transition current event =
     (case map_of java_TRANSITIONS (current, event) of
        None \<Rightarrow> Inl (invalid_transition current event)
      | Some result \<Rightarrow> Inr result)"

subsection \<open>.NET\<close>

text \<open>The exception formats the enumeration values by their names.\<close>

fun dotnet_status :: "st_Status \<Rightarrow> string" where
  "dotnet_status CONNECTING = ''Connecting''"
| "dotnet_status ACTIVE = ''Active''"
| "dotnet_status SLEEPING = ''Sleeping''"
| "dotnet_status EXPIRED = ''Expired''"

fun dotnet_event :: "st_Event \<Rightarrow> string" where
  "dotnet_event HANDSHAKE_OK = ''HandshakeOK''"
| "dotnet_event HANDSHAKE_FAIL = ''HandshakeFail''"
| "dotnet_event PACKET_RECEIVED = ''PacketReceived''"
| "dotnet_event IDLE_TIMEOUT = ''IdleTimeout''"
| "dotnet_event EXPIRY_TIMEOUT = ''ExpiryTimeout''"
| "dotnet_event EXPLICIT_LOGOUT = ''ExplicitLogout''"

definition dotnet_Transitions :: "((st_Status \<times> st_Event) \<times> TransitionResult) list" where
  "dotnet_Transitions =
    [((CONNECTING, HANDSHAKE_OK), tr ACTIVE False),
     ((CONNECTING, HANDSHAKE_FAIL), tr EXPIRED True),
     ((ACTIVE, PACKET_RECEIVED), tr ACTIVE False),
     ((ACTIVE, IDLE_TIMEOUT), tr SLEEPING False),
     ((ACTIVE, EXPLICIT_LOGOUT), tr EXPIRED False),
     ((SLEEPING, PACKET_RECEIVED), tr ACTIVE False),
     ((SLEEPING, EXPIRY_TIMEOUT), tr EXPIRED False)]"

definition dotnet_Transition :: "st_Status \<Rightarrow> st_Event \<Rightarrow> string + TransitionResult" where
  "dotnet_Transition current ev =
     (case map_of dotnet_Transitions (current, ev) of
        Some result \<Rightarrow> Inr result
      | None \<Rightarrow> Inl (''invalid transition: '' @ dotnet_status current @ '' + '' @ dotnet_event ev))"

subsection \<open>Node\<close>

definition node_key :: "st_Status \<Rightarrow> st_Event \<Rightarrow> string" where
  "node_key s e = st_value s @ '':'' @ ev_value e"

definition node_transitions :: "(string \<times> TransitionResult) list" where
  "node_transitions =
    [(node_key CONNECTING HANDSHAKE_OK, tr ACTIVE False),
     (node_key CONNECTING HANDSHAKE_FAIL, tr EXPIRED True),
     (node_key ACTIVE PACKET_RECEIVED, tr ACTIVE False),
     (node_key ACTIVE IDLE_TIMEOUT, tr SLEEPING False),
     (node_key ACTIVE EXPLICIT_LOGOUT, tr EXPIRED False),
     (node_key SLEEPING PACKET_RECEIVED, tr ACTIVE False),
     (node_key SLEEPING EXPIRY_TIMEOUT, tr EXPIRED False)]"

definition node_transition :: "st_Status \<Rightarrow> st_Event \<Rightarrow> string + TransitionResult" where
  "node_transition current event =
     (case map_of node_transitions (node_key current event) of
        None \<Rightarrow> Inl (invalid_transition current event)
      | Some result \<Rightarrow> Inr result)"

subsection \<open>Rust\<close>

fun rust_transition :: "st_Status \<Rightarrow> st_Event \<Rightarrow> string + TransitionResult" where
  "rust_transition CONNECTING HANDSHAKE_OK = Inr \<lparr>tr_next = ACTIVE, tr_destroyed = False\<rparr>"
| "rust_transition CONNECTING HANDSHAKE_FAIL = Inr \<lparr>tr_next = EXPIRED, tr_destroyed = True\<rparr>"
| "rust_transition ACTIVE PACKET_RECEIVED = Inr \<lparr>tr_next = ACTIVE, tr_destroyed = False\<rparr>"
| "rust_transition ACTIVE IDLE_TIMEOUT = Inr \<lparr>tr_next = SLEEPING, tr_destroyed = False\<rparr>"
| "rust_transition ACTIVE EXPLICIT_LOGOUT = Inr \<lparr>tr_next = EXPIRED, tr_destroyed = False\<rparr>"
| "rust_transition SLEEPING PACKET_RECEIVED = Inr \<lparr>tr_next = ACTIVE, tr_destroyed = False\<rparr>"
| "rust_transition SLEEPING EXPIRY_TIMEOUT = Inr \<lparr>tr_next = EXPIRED, tr_destroyed = False\<rparr>"
| "rust_transition current event = Inl (invalid_transition current event)"

section \<open>Packets\<close>

subsection \<open>Python\<close>

datatype py_exn = StructError | ValueError string | InvalidTag

definition pack_Q :: "int \<Rightarrow> py_exn + bytes" where
  "pack_Q n = (if 0 \<le> n \<and> n < 2 ^ 64 then Inr (le64 (of_int n)) else Inl StructError)"

definition py_build_nonce :: "int \<Rightarrow> py_exn + bytes" where
  "py_build_nonce seq = (case pack_Q seq of Inl e \<Rightarrow> Inl e | Inr q \<Rightarrow> Inr (replicate 4 0 @ q))"

definition py_build_aad :: "bytes \<Rightarrow> int \<Rightarrow> py_exn + bytes" where
  "py_build_aad session_id seq = (case pack_Q seq of Inl e \<Rightarrow> Inl e | Inr q \<Rightarrow> Inr (session_id @ q))"

definition py_new_aead :: "bytes \<Rightarrow> py_exn + bytes" where
  "py_new_aead key =
     (if length key \<noteq> 32 then Inl (ValueError (''invalid key size: expected 32, got '' @ show_nat (length key)))
      else Inr key)"

definition py_encrypt_aead :: "aead_ops \<Rightarrow> bytes \<Rightarrow> bytes \<Rightarrow> int \<Rightarrow> bytes \<Rightarrow> py_exn + bytes" where
  "py_encrypt_aead C cipher session_id seq plaintext =
     (case py_build_nonce seq of Inl e \<Rightarrow> Inl e
      | Inr nonce \<Rightarrow> (case py_build_aad session_id seq of Inl e \<Rightarrow> Inl e
          | Inr aad \<Rightarrow> Inr (aead_Seal C cipher nonce plaintext aad)))"

definition py_decrypt_aead :: "aead_ops \<Rightarrow> bytes \<Rightarrow> bytes \<Rightarrow> int \<Rightarrow> bytes \<Rightarrow> py_exn + bytes" where
  "py_decrypt_aead C cipher session_id seq ciphertext =
     (case py_build_nonce seq of Inl e \<Rightarrow> Inl e
      | Inr nonce \<Rightarrow> (case py_build_aad session_id seq of Inl e \<Rightarrow> Inl e
          | Inr aad \<Rightarrow> (case aead_Open C cipher nonce ciphertext aad of
               Inl _ \<Rightarrow> Inl InvalidTag | Inr plaintext \<Rightarrow> Inr plaintext)))"

definition rekey_info :: bytes where
  "rekey_info = string_to_bytes ''fproto-rekey''"

definition py_rekey :: "bytes \<Rightarrow> bytes" where
  "py_rekey current_key =
     (let prk = hmac_sha256 [] current_key; info = rekey_info; okm = hmac_sha256 prk (info @ [1])
      in take 32 okm)"

subsection \<open>PHP\<close>

text \<open>An integer has 64 bits; \<open>pack('P')\<close> writes them little endian.\<close>

definition php_buildNonce :: "64 word \<Rightarrow> bytes" where
  "php_buildNonce seq = replicate 4 0 @ le64 seq"

definition php_buildAad :: "bytes \<Rightarrow> 64 word \<Rightarrow> bytes" where
  "php_buildAad sessionId seq = sessionId @ le64 seq"

definition php_encryptAead :: "aead_ops \<Rightarrow> bytes \<Rightarrow> bytes \<Rightarrow> 64 word \<Rightarrow> bytes \<Rightarrow> string + bytes" where
  "php_encryptAead C key sessionId seq plaintext =
     (if length key \<noteq> 32 then Inl (''invalid key size: expected 32, got '' @ show_nat (length key))
      else let nonce = php_buildNonce seq; aad = php_buildAad sessionId seq
           in Inr (aead_Seal C key nonce plaintext aad))"

definition php_decryptAead :: "aead_ops \<Rightarrow> bytes \<Rightarrow> bytes \<Rightarrow> 64 word \<Rightarrow> bytes \<Rightarrow> string + bytes" where
  "php_decryptAead C key sessionId seq ciphertext =
     (if length key \<noteq> 32 then Inl (''invalid key size: expected 32, got '' @ show_nat (length key))
      else let nonce = php_buildNonce seq; aad = php_buildAad sessionId seq
           in case aead_Open C key nonce ciphertext aad of
                Inl _ \<Rightarrow> Inl ''AEAD decryption failed''
              | Inr plaintext \<Rightarrow> Inr plaintext)"

definition php_rekey :: "bytes \<Rightarrow> bytes" where
  "php_rekey currentKey =
     (let prk = hmac_sha256 [] currentKey; info = rekey_info; okm = hmac_sha256 prk (info @ [1])
      in take 32 okm)"

subsection \<open>Java\<close>

definition put_at :: "nat \<Rightarrow> bytes \<Rightarrow> bytes \<Rightarrow> bytes" where
  "put_at i d buf = take i buf @ d @ drop (i + length d) buf"

definition java_buildNonce :: "64 word \<Rightarrow> bytes" where
  "java_buildNonce seq = (let nonce = replicate 12 0 in put_at 4 (le64 seq) nonce)"

definition java_buildAad :: "bytes \<Rightarrow> 64 word \<Rightarrow> bytes" where
  "java_buildAad sessionId seq =
     (let aad = replicate (length sessionId + 8) 0; aad = put_at 0 sessionId aad
      in put_at (length sessionId) (le64 seq) aad)"

definition java_encryptAead :: "aead_ops \<Rightarrow> bytes \<Rightarrow> bytes \<Rightarrow> 64 word \<Rightarrow> bytes \<Rightarrow> string + bytes" where
  "java_encryptAead C key sessionId seq plaintext =
     (if length key \<noteq> 32 then Inl (''invalid key size: expected 32, got '' @ show_nat (length key))
      else let nonce = java_buildNonce seq; aad = java_buildAad sessionId seq
           in Inr (aead_Seal C key nonce plaintext aad))"

definition java_decryptAead :: "aead_ops \<Rightarrow> bytes \<Rightarrow> bytes \<Rightarrow> 64 word \<Rightarrow> bytes \<Rightarrow> string + bytes" where
  "java_decryptAead C key sessionId seq ciphertext =
     (if length key \<noteq> 32 then Inl (''invalid key size: expected 32, got '' @ show_nat (length key))
      else let nonce = java_buildNonce seq; aad = java_buildAad sessionId seq
           in aead_Open C key nonce ciphertext aad)"

text \<open>\<open>SecretKeySpec\<close> refuses an empty key with an \<open>IllegalArgumentException\<close>.\<close>

definition SecretKeySpec :: "bytes \<Rightarrow> string + bytes" where
  "SecretKeySpec key = (if key = [] then Inl ''Empty key'' else Inr key)"

definition java_rekey :: "bytes \<Rightarrow> string + bytes" where
  "java_rekey currentKey =
     (case SecretKeySpec [] of Inl e \<Rightarrow> Inl e
      | Inr k \<Rightarrow>
          (let prk = hmac_sha256 k currentKey in
           case SecretKeySpec prk of Inl e \<Rightarrow> Inl e
           | Inr k2 \<Rightarrow> (let okm = hmac_sha256 k2 (rekey_info @ [1]) in Inr (take 32 okm))))"

subsection \<open>.NET\<close>

text \<open>The cipher class writes the ciphertext and the 16-byte tag to separate arrays.\<close>

definition dotnet_BuildNonce :: "64 word \<Rightarrow> bytes" where
  "dotnet_BuildNonce seq = (let nonce = replicate 12 0 in put_at 4 (le64 seq) nonce)"

definition dotnet_BuildAad :: "bytes \<Rightarrow> 64 word \<Rightarrow> bytes" where
  "dotnet_BuildAad sessionId seq =
     (let aad = replicate (length sessionId + 8) 0; aad = put_at 0 sessionId aad
      in put_at (length sessionId) (le64 seq) aad)"

definition dotnet_EncryptAead :: "aead_ops \<Rightarrow> bytes \<Rightarrow> bytes \<Rightarrow> 64 word \<Rightarrow> bytes \<Rightarrow> string + bytes" where
  "dotnet_EncryptAead C key sessionId seq plaintext =
     (if length key \<noteq> 32 then Inl (''invalid key size: expected 32, got '' @ show_nat (length key))
      else let nonce = dotnet_BuildNonce seq; aad = dotnet_BuildAad sessionId seq;
               out = aead_Seal C key nonce plaintext aad;
               ciphertext = take (length plaintext) out; tag = drop (length plaintext) out;
               result = replicate (length ciphertext + length tag) 0;
               result = put_at 0 ciphertext result
           in Inr (put_at (length ciphertext) tag result))"

definition dotnet_DecryptAead :: "aead_ops \<Rightarrow> bytes \<Rightarrow> bytes \<Rightarrow> 64 word \<Rightarrow> bytes \<Rightarrow> string + bytes" where
  "dotnet_DecryptAead C key sessionId seq ciphertextWithTag =
     (if length key \<noteq> 32 then Inl (''invalid key size: expected 32, got '' @ show_nat (length key))
      else if length ciphertextWithTag < 16 then Inl ''ArgumentOutOfRangeException''
      else let nonce = dotnet_BuildNonce seq; aad = dotnet_BuildAad sessionId seq;
               n = length ciphertextWithTag - 16;
               ciphertext = take n ciphertextWithTag; tag = drop n ciphertextWithTag
           in aead_Open C key nonce (ciphertext @ tag) aad)"

definition dotnet_Rekey :: "bytes \<Rightarrow> bytes" where
  "dotnet_Rekey currentKey =
     (let prk = hmac_sha256 [] currentKey; info = rekey_info;
          inp = put_at (length info) [1] (put_at 0 info (replicate (length info + 1) 0));
          okm = hmac_sha256 prk inp
      in take 32 okm)"

subsection \<open>Node\<close>

text \<open>
  \<open>seq\<close> is an integral number; \<open>writeBigUInt64LE\<close> refuses one outside 64 unsigned bits.  A negative argument of
  \<open>subarray\<close> counts from the end.
\<close>

definition writeBigUInt64LE :: "bytes \<Rightarrow> int \<Rightarrow> nat \<Rightarrow> string + bytes" where
  "writeBigUInt64LE buf n i =
     (if 0 \<le> n \<and> n < 2 ^ 64 then Inr (put_at i (le64 (of_int n)) buf) else Inl ''ERR_OUT_OF_RANGE'')"

definition js_index :: "int \<Rightarrow> nat \<Rightarrow> nat" where
  "js_index i len = (if i < 0 then nat (max 0 (int len + i)) else min (nat i) len)"

definition node_newAead :: "bytes \<Rightarrow> string + bytes" where
  "node_newAead key =
     (if length key \<noteq> 32 then Inl (''invalid key size: expected 32, got '' @ show_nat (length key)) else Inr key)"

definition node_buildNonce :: "int \<Rightarrow> string + bytes" where
  "node_buildNonce seq = (let nonce = replicate 12 0 in writeBigUInt64LE nonce seq 4)"

definition node_buildAad :: "bytes \<Rightarrow> int \<Rightarrow> string + bytes" where
  "node_buildAad sessionId seq =
     (let aad = put_at 0 sessionId (replicate (length sessionId + 8) 0)
      in writeBigUInt64LE aad seq (length sessionId))"

definition node_encryptAead :: "aead_ops \<Rightarrow> bytes \<Rightarrow> bytes \<Rightarrow> int \<Rightarrow> bytes \<Rightarrow> string + bytes" where
  "node_encryptAead C cipher sessionId seq plaintext =
     (case node_buildNonce seq of Inl e \<Rightarrow> Inl e
      | Inr nonce \<Rightarrow> (case node_buildAad sessionId seq of Inl e \<Rightarrow> Inl e
          | Inr aad \<Rightarrow>
              (let out = aead_Seal C cipher nonce plaintext aad;
                   encrypted = take (length plaintext) out; tag = drop (length plaintext) out
               in Inr (encrypted @ tag))))"

definition node_decryptAead :: "aead_ops \<Rightarrow> bytes \<Rightarrow> bytes \<Rightarrow> int \<Rightarrow> bytes \<Rightarrow> string + bytes" where
  "node_decryptAead C cipher sessionId seq ciphertext =
     (case node_buildNonce seq of Inl e \<Rightarrow> Inl e
      | Inr nonce \<Rightarrow> (case node_buildAad sessionId seq of Inl e \<Rightarrow> Inl e
          | Inr aad \<Rightarrow>
              (let len = length ciphertext; cut = js_index (int len - 16) len;
                   tag = drop cut ciphertext; data = take cut ciphertext
               in if length tag \<noteq> 16 then Inl ''ERR_CRYPTO_INVALID_AUTH_TAG''
                  else aead_Open C cipher nonce (data @ tag) aad)))"

definition node_rekey :: "bytes \<Rightarrow> bytes" where
  "node_rekey currentKey =
     (let prk = hmac_sha256 [] currentKey; info = rekey_info; okm = hmac_sha256 prk (info @ [1])
      in take 32 okm)"

subsection \<open>Rust\<close>

datatype CryptoError = RustAead | RustInvalidKeySize nat nat | RustHkdf

definition rust_new_aead :: "bytes \<Rightarrow> CryptoError + bytes" where
  "rust_new_aead key = (if length key \<noteq> 32 then Inl (RustInvalidKeySize 32 (length key)) else Inr key)"

definition rust_build_nonce :: "uint64 \<Rightarrow> bytes" where
  "rust_build_nonce seq = (let nonce = replicate 12 0 in take 4 nonce @ le64 seq)"

definition rust_build_aad :: "bytes \<Rightarrow> uint64 \<Rightarrow> bytes" where
  "rust_build_aad session_id seq = (let aad = []; aad = aad @ session_id in aad @ le64 seq)"

definition rust_encrypt_aead :: "aead_ops \<Rightarrow> bytes \<Rightarrow> bytes \<Rightarrow> uint64 \<Rightarrow> bytes \<Rightarrow> CryptoError + bytes" where
  "rust_encrypt_aead C cipher session_id seq plaintext =
     (let nonce = rust_build_nonce seq; aad = rust_build_aad session_id seq
      in Inr (aead_Seal C cipher nonce plaintext aad))"

definition rust_decrypt_aead :: "aead_ops \<Rightarrow> bytes \<Rightarrow> bytes \<Rightarrow> uint64 \<Rightarrow> bytes \<Rightarrow> CryptoError + bytes" where
  "rust_decrypt_aead C cipher session_id seq ciphertext =
     (let nonce = rust_build_nonce seq; aad = rust_build_aad session_id seq
      in case aead_Open C cipher nonce ciphertext aad of Inl _ \<Rightarrow> Inl RustAead | Inr p \<Rightarrow> Inr p)"

text \<open>The \<open>hkdf\<close> crate is the parameter of \<open>Proto_Crypto\<close>.\<close>

definition rust_rekey :: "hkdf \<Rightarrow> bytes \<Rightarrow> CryptoError + bytes" where
  "rust_rekey hkdf current_key =
     (case hkdf current_key rekey_info 32 of Inl _ \<Rightarrow> Inl RustHkdf | Inr new_key \<Rightarrow> Inr new_key)"

section \<open>Lemmas\<close>

lemma put_at_replicate:
  "length a + length b = n \<Longrightarrow> put_at (length a) b (put_at 0 a (replicate n 0)) = a @ b"
  by (auto simp: put_at_def)

lemma put_at_nonce: "put_at 4 (le64 seq) (replicate 12 0) = BuildNonce seq"
  by (simp add: put_at_def BuildNonce_eq)

lemma pack_uint: "pack_Q (uint (seq :: uint64)) = Inr (le64 seq)"
  using uint_ge_0 [of seq] uint_lt2p [of seq] by (simp add: pack_Q_def)

lemma py_nonce_aad:
  fixes seq :: uint64
  shows "py_build_nonce (uint seq) = Inr (BuildNonce seq)" "py_build_aad sid (uint seq) = Inr (BuildAAD sid seq)"
  by (simp_all add: py_build_nonce_def py_build_aad_def pack_uint BuildNonce_eq BuildAAD_eq)

lemma node_nonce_aad:
  fixes seq :: uint64
  shows "node_buildNonce (uint seq) = Inr (BuildNonce seq)" "node_buildAad sid (uint seq) = Inr (BuildAAD sid seq)"
  using uint_ge_0 [of seq] uint_lt2p [of seq]
  by (simp_all add: node_buildNonce_def node_buildAad_def writeBigUInt64LE_def put_at_nonce put_at_replicate BuildAAD_eq)

lemma other_nonces:
  "php_buildNonce seq = BuildNonce seq" "java_buildNonce seq = BuildNonce seq" "dotnet_BuildNonce seq = BuildNonce seq"
  "rust_build_nonce seq = BuildNonce seq"
  by (simp_all add: php_buildNonce_def java_buildNonce_def dotnet_BuildNonce_def rust_build_nonce_def put_at_nonce BuildNonce_eq)

lemma other_aads:
  "php_buildAad sid seq = BuildAAD sid seq" "java_buildAad sid seq = BuildAAD sid seq"
  "dotnet_BuildAad sid seq = BuildAAD sid seq" "rust_build_aad sid seq = BuildAAD sid seq"
  by (simp_all add: php_buildAad_def java_buildAad_def dotnet_BuildAad_def rust_build_aad_def put_at_replicate BuildAAD_eq)

lemmas nonces_and_aads = py_nonce_aad node_nonce_aad other_nonces other_aads

lemma node_cut: "js_index (int n) (n + 16) = n"
  by (simp add: js_index_def)

text \<open>HMAC pads its key with zeroes, so an absent salt and an empty key are the same.\<close>

lemma hmac_empty_key: "hmac_sha256 [] d = hmac_sha256 (replicate 32 0) d"
  by (simp add: hmac_sha256_def hmac_key_def replicate_add [symmetric])

lemma hkdf_sha256_32:
  "hkdf_sha256 k info 32 = Inr (take 32 (hmac_sha256 (hmac_sha256 [] k) (info @ [1])))"
  by (simp add: hkdf_sha256_def hmac_empty_key Let_def)

section \<open>Properties\<close>

fun go_event :: "st_Event \<Rightarrow> Event" where
  "go_event HANDSHAKE_OK = EventHandshakeOK"
| "go_event HANDSHAKE_FAIL = EventHandshakeFail"
| "go_event PACKET_RECEIVED = EventPacketReceived"
| "go_event IDLE_TIMEOUT = EventIdleTimeout"
| "go_event EXPIRY_TIMEOUT = EventExpiryTimeout"
| "go_event EXPLICIT_LOGOUT = EventExplicitLogout"

text \<open>
  C37. The six ports have one session machine.  On every status and event the Python, PHP, Java, Node and Rust functions
  give the same result or the same error, PHP on its first call and on every later one, and .NET differs in the text
  of the error only.  They accept what the Go machine accepts and agree with it on the next status and on destruction,
  but for the status of a destroyed session, which is expired in the ports and the empty string in Go.
\<close>

theorem starters_session_machine:
  assumes "table = [] \<or> table = php_init []"
  shows "php_transition table s e = (php_init [], py_transition s e) \<and>
    java_transition s e = py_transition s e \<and> node_transition s e = py_transition s e \<and>
    rust_transition s e = py_transition s e \<and>
    (\<forall>r. dotnet_Transition s e = Inr r \<longleftrightarrow> py_transition s e = Inr r) \<and>
    (case py_transition s e of
       Inl _ \<Rightarrow> \<exists>err. Transition (st_value s) (go_event e) = Inl err
     | Inr r \<Rightarrow> Transition (st_value s) (go_event e) =
         Inr (if tr_destroyed r then [] else st_value (tr_next r), tr_destroyed r))"
proof -
  have php: "php_transition table s e = (php_init [], py_transition s e)"
    using assms by (cases s; cases e) (auto simp: php_transition_def php_init_def php_key_def py_transition_def
        py_TRANSITIONS_def invalid_transition_def tr_def)
  have "java_transition s e = py_transition s e" "node_transition s e = py_transition s e"
    "rust_transition s e = py_transition s e" "dotnet_Transition s e = Inr r \<longleftrightarrow> py_transition s e = Inr r" for r
    by (cases s; cases e; simp add: java_transition_def java_TRANSITIONS_def node_transition_def node_transitions_def
        node_key_def dotnet_Transition_def dotnet_Transitions_def py_transition_def py_TRANSITIONS_def tr_def)+
  moreover have "case py_transition s e of Inl _ \<Rightarrow> \<exists>err. Transition (st_value s) (go_event e) = Inl err
     | Inr r \<Rightarrow> Transition (st_value s) (go_event e) =
         Inr (if tr_destroyed r then [] else st_value (tr_next r), tr_destroyed r)"
    by (cases s; cases e; simp add: py_transition_def py_TRANSITIONS_def tr_def Transition_def transitions_def
        to_status_def to_destroyed_def status_defs)
  ultimately show ?thesis using php by blast
qed

theorem starters_session_machine_witness:
  "php_transition [] ACTIVE IDLE_TIMEOUT = (php_init [], Inr (tr SLEEPING False))"
  using starters_session_machine [of "[]" ACTIVE IDLE_TIMEOUT]
  by (simp add: py_transition_def py_TRANSITIONS_def tr_def)



text \<open>
  The ports do not rekey as the Go code does.  Python, PHP, .NET, Node and Rust derive the same key, HKDF-SHA256
  without salt under the label \<open>fproto-rekey\<close>; Java's derivation always throws, because it makes a key object of no bytes;
  the Go code derives its key under another label, \<open>proto-rekey\<close>.
\<close>

lemma starters_rekey:
  "php_rekey k = py_rekey k \<and> dotnet_Rekey k = py_rekey k \<and> node_rekey k = py_rekey k \<and>
   rust_rekey hkdf_sha256 k = Inr (py_rekey k) \<and> java_rekey k = Inl ''Empty key'' \<and>
   hkdf_sha256 k (string_to_bytes ''fproto-rekey'') 32 = Inr (py_rekey k) \<and>
   Rekey hkdf_sha256 k = (if k = [] then Inl ''rekey: empty current key'' else hkdf_sha256 k (string_to_bytes ''proto-rekey'') 32)"
proof -
  have "put_at (length i) [1] (put_at 0 i (replicate (length i + 1) 0)) = i @ [1]" for i
    by (simp add: put_at_replicate del: replicate_add replicate_Suc)
  then have "dotnet_Rekey k = py_rekey k"
    unfolding dotnet_Rekey_def py_rekey_def Let_def by simp
  then show ?thesis
    by (simp add: php_rekey_def py_rekey_def node_rekey_def rust_rekey_def java_rekey_def SecretKeySpec_def
        hkdf_sha256_32 rekey_info_def Rekey_def rekeyInfo_def rekeyLen_def Let_def)
qed

end
