(* ===== verification/Transport_Grpc.thy ===== *)
theory Transport_Grpc
  imports Transport_Quic
begin

text \<open>
  \<open>proto-core/transport/grpc_transport.go\<close>: the two ends of a gRPC stream as pairs of buffered
  channels of capacity 16 and a context. A \<open>select\<close> is the list of the outcomes of its ready cases:
  the empty list when it blocks, two outcomes when both cases are ready. The pumps that move
  messages between the channels and the gRPC stream are not part of the sources.
\<close>

section \<open>Channels\<close>

definition chan_cap :: nat where "chan_cap = 16"

section \<open>GRPCStreamConn\<close>

record GRPCStreamConn =
  gs_ctxDone :: bool
  gs_recvCh :: "bytes list"
  gs_sendCh :: "bytes list"
  gs_addr :: string
  gs_once :: bool
  gs_done :: bool

definition NewGRPCStreamConn :: "bool \<Rightarrow> string \<Rightarrow> GRPCStreamConn" where
  "NewGRPCStreamConn parentDone addr = \<lparr>gs_ctxDone = parentDone, gs_recvCh = [], gs_sendCh = [], gs_addr = addr,
     gs_once = False, gs_done = False\<rparr>"

definition GRPCStreamConn_ReadMessage :: "GRPCStreamConn \<Rightarrow> (GRPCStreamConn \<times> (goerr + bytes)) list" where
  "GRPCStreamConn_ReadMessage g =
     (case gs_recvCh g of [] \<Rightarrow> [] | d # ds \<Rightarrow> [(g\<lparr>gs_recvCh := ds\<rparr>, Inr d)]) @
     (if gs_ctxDone g then [(g, Inl ''grpc stream closed'')] else [])"

definition GRPCStreamConn_WriteMessage :: "GRPCStreamConn \<Rightarrow> bytes \<Rightarrow> (GRPCStreamConn \<times> goerr option) list" where
  "GRPCStreamConn_WriteMessage g d =
     (if length (gs_sendCh g) < chan_cap then [(g\<lparr>gs_sendCh := gs_sendCh g @ [d]\<rparr>, None)] else []) @
     (if gs_ctxDone g then [(g, Some ''grpc stream closed'')] else [])"

definition GRPCStreamConn_Close :: "GRPCStreamConn \<Rightarrow> GRPCStreamConn \<times> goerr option" where
  "GRPCStreamConn_Close g =
     ((if gs_once g then g else g\<lparr>gs_once := True, gs_ctxDone := True, gs_done := True\<rparr>), None)"

definition GRPCStreamConn_Type :: Type where "GRPCStreamConn_Type = TypeGRPC"

definition GRPCStreamConn_RemoteAddr :: "GRPCStreamConn \<Rightarrow> string" where
  "GRPCStreamConn_RemoteAddr g = gs_addr g"

definition GRPCStreamConn_Feed :: "GRPCStreamConn \<Rightarrow> bytes \<Rightarrow> GRPCStreamConn list" where
  "GRPCStreamConn_Feed g d =
     (if length (gs_recvCh g) < chan_cap then [g\<lparr>gs_recvCh := gs_recvCh g @ [d]\<rparr>] else []) @
     (if gs_ctxDone g then [g] else [])"

definition GRPCStreamConn_Drain :: "GRPCStreamConn \<Rightarrow> (GRPCStreamConn \<times> (goerr + bytes)) list" where
  "GRPCStreamConn_Drain g =
     (case gs_sendCh g of [] \<Rightarrow> [] | d # ds \<Rightarrow> [(g\<lparr>gs_sendCh := ds\<rparr>, Inr d)]) @
     (if gs_ctxDone g then [(g, Inl EOF)] else [])"

definition GRPCStreamConn_Done :: "GRPCStreamConn \<Rightarrow> bool" where
  "GRPCStreamConn_Done g = gs_done g"

section \<open>GRPCClientConn\<close>

record GRPCClientConn =
  gc_sendCh :: "bytes list"
  gc_recvCh :: "bytes list"
  gc_ctxDone :: bool
  gc_addr :: string
  gc_once :: bool

definition NewGRPCClientConn :: "bool \<Rightarrow> string \<Rightarrow> GRPCClientConn" where
  "NewGRPCClientConn parentDone addr = \<lparr>gc_sendCh = [], gc_recvCh = [], gc_ctxDone = parentDone, gc_addr = addr,
     gc_once = False\<rparr>"

definition GRPCClientConn_ReadMessage :: "GRPCClientConn \<Rightarrow> (GRPCClientConn \<times> (goerr + bytes)) list" where
  "GRPCClientConn_ReadMessage g =
     (case gc_recvCh g of [] \<Rightarrow> [] | d # ds \<Rightarrow> [(g\<lparr>gc_recvCh := ds\<rparr>, Inr d)]) @
     (if gc_ctxDone g then [(g, Inl ''grpc client closed'')] else [])"

definition GRPCClientConn_WriteMessage :: "GRPCClientConn \<Rightarrow> bytes \<Rightarrow> (GRPCClientConn \<times> goerr option) list" where
  "GRPCClientConn_WriteMessage g d =
     (if length (gc_sendCh g) < chan_cap then [(g\<lparr>gc_sendCh := gc_sendCh g @ [d]\<rparr>, None)] else []) @
     (if gc_ctxDone g then [(g, Some ''grpc client closed'')] else [])"

definition GRPCClientConn_Close :: "GRPCClientConn \<Rightarrow> GRPCClientConn \<times> goerr option" where
  "GRPCClientConn_Close g = ((if gc_once g then g else g\<lparr>gc_once := True, gc_ctxDone := True\<rparr>), None)"

definition GRPCClientConn_Type :: Type where "GRPCClientConn_Type = TypeGRPC"

definition GRPCClientConn_RemoteAddr :: "GRPCClientConn \<Rightarrow> string" where
  "GRPCClientConn_RemoteAddr g = gc_addr g"

definition GRPCClientConn_Feed :: "GRPCClientConn \<Rightarrow> bytes \<Rightarrow> GRPCClientConn list" where
  "GRPCClientConn_Feed g d =
     (if length (gc_recvCh g) < chan_cap then [g\<lparr>gc_recvCh := gc_recvCh g @ [d]\<rparr>] else []) @
     (if gc_ctxDone g then [g] else [])"

definition GRPCClientConn_Drain :: "GRPCClientConn \<Rightarrow> (GRPCClientConn \<times> (goerr + bytes)) list" where
  "GRPCClientConn_Drain g =
     (case gc_sendCh g of [] \<Rightarrow> [] | d # ds \<Rightarrow> [(g\<lparr>gc_sendCh := ds\<rparr>, Inr d)]) @
     (if gc_ctxDone g then [(g, Inl EOF)] else [])"

text \<open>The peer of the context and the values of the header, if the context has them.\<close>

definition ExtractRemoteAddr :: "string option \<Rightarrow> string list option \<Rightarrow> string" where
  "ExtractRemoteAddr peer forwarded =
     (case peer of Some a \<Rightarrow> a
      | None \<Rightarrow> (case forwarded of Some (v # _) \<Rightarrow> v | _ \<Rightarrow> ''unknown''))"

section \<open>Each direction of each end is a pipe\<close>

text \<open>
  \<open>Feed\<close> returns nothing; an outcome that did not enqueue the message has dropped it.
\<close>

definition stream_feed :: "GRPCStreamConn \<Rightarrow> bytes \<Rightarrow> (GRPCStreamConn \<times> goerr option) list" where
  "stream_feed g d = map (\<lambda>g'. (g', if gs_recvCh g' = gs_recvCh g then Some ''dropped'' else None))
     (GRPCStreamConn_Feed g d)"

definition client_feed :: "GRPCClientConn \<Rightarrow> bytes \<Rightarrow> (GRPCClientConn \<times> goerr option) list" where
  "client_feed g d = map (\<lambda>g'. (g', if gc_recvCh g' = gc_recvCh g then Some ''dropped'' else None))
     (GRPCClientConn_Feed g d)"

definition any_message :: "bytes \<Rightarrow> bool" where
  "any_message m = True"

lemma chan_pop: "length ch \<le> n \<Longrightarrow> m # ms = ch \<Longrightarrow> length ms \<le> n"
  by auto

interpretation stream_out: message_pipe GRPCStreamConn_WriteMessage GRPCStreamConn_Drain
  "\<lambda>g. length (gs_sendCh g) \<le> chan_cap" gs_sendCh any_message
  by unfold_locales (auto simp: GRPCStreamConn_WriteMessage_def GRPCStreamConn_Drain_def
      intro: chan_pop split: if_splits list.splits)

interpretation stream_in: message_pipe stream_feed GRPCStreamConn_ReadMessage
  "\<lambda>g. length (gs_recvCh g) \<le> chan_cap" gs_recvCh any_message
  by unfold_locales (auto simp: stream_feed_def GRPCStreamConn_Feed_def GRPCStreamConn_ReadMessage_def
      intro: chan_pop split: if_splits list.splits)

interpretation client_out: message_pipe GRPCClientConn_WriteMessage GRPCClientConn_Drain
  "\<lambda>g. length (gc_sendCh g) \<le> chan_cap" gc_sendCh any_message
  by unfold_locales (auto simp: GRPCClientConn_WriteMessage_def GRPCClientConn_Drain_def
      intro: chan_pop split: if_splits list.splits)

interpretation client_in: message_pipe client_feed GRPCClientConn_ReadMessage
  "\<lambda>g. length (gc_recvCh g) \<le> chan_cap" gc_recvCh any_message
  by unfold_locales (auto simp: client_feed_def GRPCClientConn_Feed_def GRPCClientConn_ReadMessage_def
      intro: chan_pop split: if_splits list.splits)

section \<open>Properties\<close>



text \<open>
  Closing: \<open>Close\<close> is idempotent and ends the context; on a closed connection no operation
  blocks any more, but a message that is still queued for sending may be lost, because \<open>Drain\<close> may
  report the end of the stream instead of returning it.
\<close>

lemma grpc_close:
  defines "cl \<equiv> \<lambda>g. fst (GRPCStreamConn_Close g)"
  assumes "\<not> gs_once g"
  shows "cl (cl g) = cl g \<and> GRPCStreamConn_Done (cl g) \<and>
    GRPCStreamConn_ReadMessage (cl g) \<noteq> [] \<and> GRPCStreamConn_WriteMessage (cl g) d \<noteq> [] \<and>
    GRPCStreamConn_Feed (cl g) d \<noteq> [] \<and> (cl g, Inl EOF) \<in> set (GRPCStreamConn_Drain (cl g))"
  using assms(2) by (auto simp: cl_def GRPCStreamConn_Close_def GRPCStreamConn_Done_def
      GRPCStreamConn_ReadMessage_def GRPCStreamConn_WriteMessage_def GRPCStreamConn_Feed_def
      GRPCStreamConn_Drain_def)

lemma grpc_close_instance:
  "let g = fst (GRPCStreamConn_Close ((NewGRPCStreamConn False ''h'')\<lparr>gs_sendCh := [[1]]\<rparr>)) in
     gs_sendCh g = [[1]] \<and> (g, Inl EOF) \<in> set (GRPCStreamConn_Drain g)"
  using grpc_close [of "(NewGRPCStreamConn False ''h'')\<lparr>gs_sendCh := [[1]]\<rparr>"]
  by (simp add: NewGRPCStreamConn_def GRPCStreamConn_Close_def)

end
