(* ===== verification/Inbox.thy ===== *)
theory Inbox
  imports Postgres
begin

text \<open>
  \<open>server/internal/inbox\<close>: the per-user inbox table and the statements of its store.
\<close>

section \<open>model.go\<close>

record InboxEntry =
  ie_ID :: int
  ie_UserID :: slice
  ie_MessageID :: slice
  ie_ConversationID :: slice
  ie_SenderID :: slice
  ie_Payload :: slice
  ie_Delivered :: bool
  ie_Read :: bool
  ie_CreatedAt :: time

section \<open>store.go\<close>

text \<open>The table: \<open>BIGSERIAL\<close> takes its next value from \<open>ib_next\<close>.\<close>

record ib_row =
  ir_id :: int
  ir_user_id :: bytes
  ir_message_id :: bytes
  ir_conversation_id :: slice
  ir_sender_id :: bytes
  ir_payload :: bytes
  ir_delivered :: bool
  ir_read :: bool
  ir_created_at :: time

record ib_table =
  ib_next :: int
  ib_rows :: "ib_row list"

type_synonym ib_db = "ib_table pg"

definition Inbox_Migrate :: "ib_db \<Rightarrow> ib_db \<times> goerr option" where
  "Inbox_Migrate db = pg_migrate \<lparr>ib_next = 1, ib_rows = []\<rparr> db"

text \<open>
  \<open>ON CONFLICT (user_id, message_id) DO NOTHING\<close>: the not-null constraints are checked first, and a conflicting
  insert uses up a value of the sequence.
\<close>

definition sql_insert_inbox ::
  "time \<Rightarrow> slice \<Rightarrow> slice \<Rightarrow> slice \<Rightarrow> slice \<Rightarrow> slice \<Rightarrow> ib_table \<Rightarrow> goerr + ib_table \<times> nat" where
  "sql_insert_inbox now uid mid cid sid payload t =
     (case uid of None \<Rightarrow> Inl (null_violation ''user_id'') | Some u \<Rightarrow>
     (case mid of None \<Rightarrow> Inl (null_violation ''message_id'') | Some m \<Rightarrow>
     (case sid of None \<Rightarrow> Inl (null_violation ''sender_id'') | Some s \<Rightarrow>
     (case payload of None \<Rightarrow> Inl (null_violation ''payload'') | Some p \<Rightarrow>
      if \<exists>r \<in> set (ib_rows t). ir_user_id r = u \<and> ir_message_id r = m
      then Inr (t\<lparr>ib_next := ib_next t + 1\<rparr>, 0)
      else Inr (\<lparr>ib_next = ib_next t + 1,
        ib_rows = ib_rows t @ [\<lparr>ir_id = ib_next t, ir_user_id = u, ir_message_id = m, ir_conversation_id = cid,
          ir_sender_id = s, ir_payload = p, ir_delivered = False, ir_read = False, ir_created_at = pg_time now\<rparr>]\<rparr>, 1)))))"

definition Inbox_Insert :: "ib_db \<Rightarrow> InboxEntry \<Rightarrow> ib_db \<times> goerr option" where
  "Inbox_Insert db e = exec_err (pg_run (sql_insert_inbox (pg_now db) (ie_UserID e) (ie_MessageID e)
     (ie_ConversationID e) (ie_SenderID e) (ie_Payload e)) db)"

definition inbox_entry :: "ib_row \<Rightarrow> InboxEntry" where
  "inbox_entry r = \<lparr>ie_ID = ir_id r, ie_UserID = Some (ir_user_id r), ie_MessageID = Some (ir_message_id r),
     ie_ConversationID = ir_conversation_id r, ie_SenderID = Some (ir_sender_id r), ie_Payload = Some (ir_payload r),
     ie_Delivered = ir_delivered r, ie_Read = ir_read r, ie_CreatedAt = ir_created_at r\<rparr>"

text \<open>
  \<open>query\<close>: a connection failure is the error of \<open>pool.Query\<close>, an error while the statement runs, here only a
  negative \<open>LIMIT\<close>, the one of \<open>rows.Err\<close>.
\<close>

definition Inbox_query :: "ib_db \<Rightarrow> (ib_row list \<Rightarrow> ib_row list) \<Rightarrow> int \<Rightarrow> ib_db \<times> (goerr + InboxEntry list)" where
  "Inbox_query db q limit =
     (case pg_query (\<lambda>t. q (ib_rows t)) db of
        (db', Inl e) \<Rightarrow> (db', Inl (''inbox query: '' @ e))
      | (db', Inr rows) \<Rightarrow>
          (db', if limit < 0 then Inl ''ERROR: LIMIT must not be negative''
                else Inr (map inbox_entry (take (nat limit) rows))))"

definition undelivered_rows :: "slice \<Rightarrow> ib_row list \<Rightarrow> ib_row list" where
  "undelivered_rows uid rows = sort_key ir_created_at (filter (\<lambda>r. sql_eq (ir_user_id r) uid \<and> \<not> ir_delivered r) rows)"

definition GetUndelivered :: "ib_db \<Rightarrow> slice \<Rightarrow> int \<Rightarrow> ib_db \<times> (goerr + InboxEntry list)" where
  "GetUndelivered db uid limit = Inbox_query db (undelivered_rows uid) limit"

definition GetHistory :: "ib_db \<Rightarrow> slice \<Rightarrow> slice \<Rightarrow> int \<Rightarrow> int \<Rightarrow> ib_db \<times> (goerr + InboxEntry list)" where
  "GetHistory db uid cid after limit = Inbox_query db (\<lambda>rows. sort_key (\<lambda>r. - ir_created_at r)
     (filter (\<lambda>r. sql_eq (ir_user_id r) uid \<and> (case ir_conversation_id r of None \<Rightarrow> False | Some c \<Rightarrow> sql_eq c cid) \<and>
        after < ir_id r) rows)) limit"

text \<open>The subquery yields \<open>NULL\<close> when there is no such message, and no row compares greater than \<open>NULL\<close>.\<close>

definition rows_after :: "slice \<Rightarrow> slice \<Rightarrow> ib_row list \<Rightarrow> ib_row list" where
  "rows_after uid mid rows =
     (case List.find (\<lambda>r. sql_eq (ir_user_id r) uid \<and> sql_eq (ir_message_id r) mid) rows of None \<Rightarrow> []
      | Some c \<Rightarrow> sort_key ir_created_at
          (filter (\<lambda>r. sql_eq (ir_user_id r) uid \<and> ir_created_at c < ir_created_at r) rows))"

definition GetAfterMessageID :: "ib_db \<Rightarrow> slice \<Rightarrow> slice \<Rightarrow> int \<Rightarrow> ib_db \<times> (goerr + InboxEntry list)" where
  "GetAfterMessageID db uid mid limit = Inbox_query db (rows_after uid mid) limit"

definition ib_update :: "int \<Rightarrow> (ib_row \<Rightarrow> ib_row) \<Rightarrow> ib_table \<Rightarrow> ib_table \<times> nat" where
  "ib_update i f t = (let (rows, n) = sql_update (\<lambda>r. ir_id r = i) f (ib_rows t) in (t\<lparr>ib_rows := rows\<rparr>, n))"

definition MarkDelivered :: "ib_db \<Rightarrow> int \<Rightarrow> ib_db \<times> goerr option" where
  "MarkDelivered db i = exec_err (pg_run (\<lambda>t. Inr (ib_update i (\<lambda>r. r\<lparr>ir_delivered := True\<rparr>) t)) db)"

definition MarkRead :: "ib_db \<Rightarrow> int \<Rightarrow> ib_db \<times> goerr option" where
  "MarkRead db i = exec_err (pg_run (\<lambda>t. Inr (ib_update i (\<lambda>r. r\<lparr>ir_read := True\<rparr>) t)) db)"

definition Inbox_Count :: "ib_db \<Rightarrow> slice \<Rightarrow> ib_db \<times> (goerr + int)" where
  "Inbox_Count db uid = pg_query (\<lambda>t. int (length (filter (\<lambda>r. sql_eq (ir_user_id r) uid) (ib_rows t)))) db"

section \<open>The invariant of the table\<close>

definition irows :: "ib_db \<Rightarrow> ib_row list" where
  "irows db = (case pg_tab db of None \<Rightarrow> [] | Some t \<Rightarrow> ib_rows t)"

definition ib_inv :: "ib_db \<Rightarrow> bool" where
  "ib_inv db \<longleftrightarrow> (case pg_tab db of None \<Rightarrow> True
     | Some t \<Rightarrow> distinct (map (\<lambda>r. (ir_user_id r, ir_message_id r)) (ib_rows t)) \<and>
         distinct (map ir_id (ib_rows t)) \<and> (\<forall>r \<in> set (ib_rows t). ir_id r < ib_next t))"

text \<open>What an insert does to the rows: nothing on an error or a conflict, else one row is added.\<close>

definition new_inbox_row :: "ib_row \<Rightarrow> InboxEntry \<Rightarrow> bool" where
  "new_inbox_row x e \<longleftrightarrow> ie_UserID e = Some (ir_user_id x) \<and> ie_MessageID e = Some (ir_message_id x) \<and>
     ir_conversation_id x = ie_ConversationID e \<and> ie_SenderID e = Some (ir_sender_id x) \<and>
     ie_Payload e = Some (ir_payload x) \<and> \<not> ir_delivered x \<and> \<not> ir_read x"

lemma Inbox_Insert_ok:
  assumes "Inbox_Insert db e = (db', None)"
  shows "(\<exists>x \<in> set (irows db). ie_UserID e = Some (ir_user_id x) \<and> ie_MessageID e = Some (ir_message_id x)) \<and>
      irows db' = irows db \<or>
    (\<exists>x. new_inbox_row x e \<and> irows db' = irows db @ [x])"
proof -
  obtain t t' n where t: "pg_tab db = Some t" "pg_tab db' = Some t'"
      "sql_insert_inbox (pg_now db) (ie_UserID e) (ie_MessageID e) (ie_ConversationID e) (ie_SenderID e)
         (ie_Payload e) t = Inr (t', n)"
    using assms by (auto simp: Inbox_Insert_def pg_run_Inr)
  from t(3) show ?thesis
    by (auto simp: sql_insert_inbox_def irows_def t(1,2) new_inbox_row_def split: option.splits if_splits)
qed

lemma Inbox_Insert_ready:
  assumes "pg_ready db" "ie_UserID e \<noteq> None" "ie_MessageID e \<noteq> None" "ie_SenderID e \<noteq> None" "ie_Payload e \<noteq> None"
  shows "\<exists>db'. Inbox_Insert db e = (db', None)"
proof -
  obtain u m s p where "ie_UserID e = Some u" "ie_MessageID e = Some m" "ie_SenderID e = Some s" "ie_Payload e = Some p"
    using assms(2-5) by auto
  then obtain t' n where "sql_insert_inbox (pg_now db) (ie_UserID e) (ie_MessageID e) (ie_ConversationID e)
      (ie_SenderID e) (ie_Payload e) (the (pg_tab db)) = Inr (t', n)"
    by (simp add: sql_insert_inbox_def) (metis old.prod.exhaust)
  then show ?thesis by (simp add: Inbox_Insert_def pg_run_ready [OF assms(1)] Let_def)
qed

lemma Inbox_Insert_err: "Inbox_Insert db e = (db', Some err) \<Longrightarrow> pg_tab db' = pg_tab db"
  using pg_run_Inl_tab by (fastforce simp: Inbox_Insert_def)

lemma Inbox_Insert_inv: "ib_inv db \<Longrightarrow> ib_inv (fst (Inbox_Insert db e))"
proof (cases "Inbox_Insert db e")
  case (Pair db' err)
  assume inv: "ib_inv db"
  show ?thesis
  proof (cases err)
    case None
    with Pair obtain t t' n where t: "pg_tab db = Some t" "pg_tab db' = Some t'"
        "sql_insert_inbox (pg_now db) (ie_UserID e) (ie_MessageID e) (ie_ConversationID e) (ie_SenderID e)
           (ie_Payload e) t = Inr (t', n)"
      by (auto simp: Inbox_Insert_def pg_run_Inr)
    from t(3) inv show ?thesis
      by (force simp: Pair ib_inv_def t(1,2) sql_insert_inbox_def split: option.splits if_splits)
  next
    case (Some e')
    with Pair inv Inbox_Insert_err show ?thesis by (simp add: ib_inv_def)
  qed
qed

end
