(* ===== verification/Sync.thy ===== *)
theory Sync
  imports Inbox Redis_Service Proto_Messages Kafka
begin

text \<open>
  \<open>server/internal/sync\<close>: the consumer that moves messages from Kafka to the inbox, with Redis deduplication and a
  push to the gateway, and the paginated backfill for a client that reconnects. \<open>proto.Unmarshal\<close>, the Redis server
  and the push client are arguments.
\<close>

section \<open>dedup.go\<close>

definition dedupTTL :: duration where "dedupTTL = 48 * Hour"

definition dedupKey :: "slice \<Rightarrow> slice \<Rightarrow> string" where
  "dedupKey userID messageID = ''dedup:'' @ hex_encode (slice_bytes userID) @ '':'' @ hex_encode (slice_bytes messageID)"

definition IsDuplicate :: "'r redis_ops \<Rightarrow> 'r \<Rightarrow> slice \<Rightarrow> slice \<Rightarrow> 'r \<times> (goerr + bool)" where
  "IsDuplicate R rdb userID messageID =
     (case rd_SetNX R rdb (dedupKey userID messageID) ''1'' dedupTTL of
        (rdb', Inl e) \<Rightarrow> (rdb', Inl (''dedup setnx: '' @ e))
      | (rdb', Inr fresh) \<Rightarrow> (rdb', Inr (\<not> fresh)))"

section \<open>handler.go\<close>

text \<open>
  \<open>hexDecode\<close> reads the string two characters at a time with \<open>Sscanf(_, "%02x", _)\<close>, on the characters Kafka allows
  in a topic name: the verb takes one or two hexadecimal digits and leaves the rest of its input unread.
\<close>

definition sscanf_02x :: "char \<Rightarrow> char \<Rightarrow> goerr + byte" where
  "sscanf_02x c d =
     (case unhex c of None \<Rightarrow> Inl ''expected integer''
      | Some h \<Rightarrow> (case unhex d of None \<Rightarrow> Inr (of_nat h) | Some l \<Rightarrow> Inr (of_nat (16 * h + l))))"

fun hexDecode :: "string \<Rightarrow> goerr + bytes" where
  "hexDecode (c # d # s) =
     (case sscanf_02x c d of Inl e \<Rightarrow> Inl e
      | Inr b \<Rightarrow> (case hexDecode s of Inl e \<Rightarrow> Inl e | Inr bs \<Rightarrow> Inr (b # bs)))"
| "hexDecode _ = Inr []"

definition extractRecipientID :: "AppMessage \<Rightarrow> string \<Rightarrow> slice" where
  "extractRecipientID msg topic =
     (let from_topic =
        (if length topic > 5 \<and> take 5 topic = ''user-''
         then (case hexDecode (drop 5 topic) of Inr uid \<Rightarrow> Some uid | Inl _ \<Rightarrow> None) else None) in
      case am_Body msg of
        Some (AppMessage_Chat (Some c)) \<Rightarrow> if slice_len (cm_RecipientId c) > 0 then cm_RecipientId c else from_topic
      | _ \<Rightarrow> from_topic)"

definition extractSenderID :: "AppMessage \<Rightarrow> slice" where
  "extractSenderID msg = (case am_Body msg of Some (AppMessage_Chat (Some c)) \<Rightarrow> cm_SenderId c | _ \<Rightarrow> None)"

definition extractConversationID :: "AppMessage \<Rightarrow> string \<Rightarrow> slice" where
  "extractConversationID msg topic =
     (case am_Body msg of
        Some (AppMessage_Chat (Some c)) \<Rightarrow> if slice_len (cm_GroupId c) > 0 then cm_GroupId c else cm_RecipientId c
      | _ \<Rightarrow> Some (string_to_bytes topic))"

text \<open>The handler: its Redis client, its inbox store and its push client, absent when nil.\<close>

record ('r, 'p) Handler =
  hn_rdb :: 'r
  hn_inbox :: ib_db
  hn_push :: "'p option"

definition handler_entry :: "AppMessage \<Rightarrow> string \<Rightarrow> bytes \<Rightarrow> slice \<Rightarrow> InboxEntry" where
  "handler_entry appMsg topic v userID = \<lparr>ie_ID = 0, ie_UserID = userID, ie_MessageID = am_MessageId appMsg,
     ie_ConversationID = extractConversationID appMsg topic, ie_SenderID = extractSenderID appMsg,
     ie_Payload = Some v, ie_Delivered = False, ie_Read = False, ie_CreatedAt = 0\<rparr>"

definition Handle ::
  "'r redis_ops \<Rightarrow> (bytes \<Rightarrow> goerr + AppMessage) \<Rightarrow> ('p \<Rightarrow> PushToUserRequest \<Rightarrow> 'p \<times> goerr option) \<Rightarrow>
   ('r, 'p) Handler \<Rightarrow> ConsumerMessage \<Rightarrow> ('r, 'p) Handler \<times> goerr option" where
  "Handle R Unmarshal PushToUser h msg =
     (case Unmarshal (cm_Value msg) of Inl e \<Rightarrow> (h, Some (''unmarshal AppMessage: '' @ e))
      | Inr appMsg \<Rightarrow>
          (let userID = extractRecipientID appMsg (cm_Topic msg) in
           if userID = None then (h, None)
           else
             (case IsDuplicate R (hn_rdb h) userID (am_MessageId appMsg) of
                (rdb', Inl e) \<Rightarrow> (h\<lparr>hn_rdb := rdb'\<rparr>, Some (''dedup check: '' @ e))
              | (rdb', Inr True) \<Rightarrow> (h\<lparr>hn_rdb := rdb'\<rparr>, None)
              | (rdb', Inr False) \<Rightarrow>
                  (case Inbox_Insert (hn_inbox h) (handler_entry appMsg (cm_Topic msg) (cm_Value msg) userID) of
                     (db', Some e) \<Rightarrow> (h\<lparr>hn_rdb := rdb', hn_inbox := db'\<rparr>, Some (''inbox insert: '' @ e))
                   | (db', None) \<Rightarrow>
                       (h\<lparr>hn_rdb := rdb', hn_inbox := db',
                          hn_push := map_option (\<lambda>p. fst (PushToUser p \<lparr>pu_UserId = userID, pu_Message = Some appMsg\<rparr>))
                            (hn_push h)\<rparr>, None)))))"

section \<open>service.go\<close>

text \<open>\<open>DiscoverTopics\<close>: the topics of users and groups, in any order.\<close>

definition DiscoverTopics :: "'a admin_ops \<Rightarrow> 'a \<Rightarrow> goerr + string set" where
  "DiscoverTopics A adm =
     (case ao_ListTopics A adm of Inl e \<Rightarrow> Inl (''list topics: '' @ e)
      | Inr topics \<Rightarrow> Inr {name \<in> topics. take 5 name = ''user-'' \<or> take 6 name = ''group-''})"

definition sync_ConsumeClaim ::
  "'r redis_ops \<Rightarrow> (bytes \<Rightarrow> goerr + AppMessage) \<Rightarrow> ('p \<Rightarrow> PushToUserRequest \<Rightarrow> 'p \<times> goerr option) \<Rightarrow>
   ConsumerMessage list \<Rightarrow> ('r, 'p) Handler \<Rightarrow> int list \<Rightarrow> ('r, 'p) Handler \<times> int list" where
  "sync_ConsumeClaim R Unmarshal PushToUser = ConsumeClaim (Handle R Unmarshal PushToUser)"

section \<open>offline.go\<close>

definition DefaultPageSize :: int where "DefaultPageSize = 100"

record OfflineSync =
  os_inbox :: ib_db
  os_pageSize :: int

definition NewOfflineSync :: "ib_db \<Rightarrow> OfflineSync" where
  "NewOfflineSync db = \<lparr>os_inbox = db, os_pageSize = DefaultPageSize\<rparr>"

record SyncResult =
  sr_Messages :: "InboxEntry list"
  sr_HasMore :: bool

definition page_result :: "int \<Rightarrow> InboxEntry list \<Rightarrow> SyncResult" where
  "page_result pageSize entries =
     (let hasMore = int (length entries) > pageSize
      in \<lparr>sr_Messages = (if hasMore then take (nat pageSize) entries else entries), sr_HasMore = hasMore\<rparr>)"

definition getUndelivered :: "OfflineSync \<Rightarrow> slice \<Rightarrow> OfflineSync \<times> (goerr + SyncResult)" where
  "getUndelivered os uid =
     (case GetUndelivered (os_inbox os) uid (os_pageSize os + 1) of
        (db', Inl e) \<Rightarrow> (os\<lparr>os_inbox := db'\<rparr>, Inl (''get undelivered: '' @ e))
      | (db', Inr entries) \<Rightarrow> (os\<lparr>os_inbox := db'\<rparr>, Inr (page_result (os_pageSize os) entries)))"

definition GetMissedMessages :: "OfflineSync \<Rightarrow> slice \<Rightarrow> slice \<Rightarrow> OfflineSync \<times> (goerr + SyncResult)" where
  "GetMissedMessages os uid lastSeen =
     (if slice_len lastSeen = 0 then getUndelivered os uid
      else case GetAfterMessageID (os_inbox os) uid lastSeen (os_pageSize os + 1) of
        (db', Inl e) \<Rightarrow> (os\<lparr>os_inbox := db'\<rparr>, Inl (''get after message_id: '' @ e))
      | (db', Inr entries) \<Rightarrow> (os\<lparr>os_inbox := db'\<rparr>, Inr (page_result (os_pageSize os) entries)))"

text \<open>The loop over the pages; \<open>None\<close> when it does not end. The callback threads its state.\<close>

partial_function (option) GetMissedMessagesPaginated ::
  "('c \<Rightarrow> InboxEntry list \<Rightarrow> 'c \<times> goerr option) \<Rightarrow> OfflineSync \<Rightarrow> slice \<Rightarrow> slice \<Rightarrow> 'c \<Rightarrow> (OfflineSync \<times> 'c \<times> goerr option) option" where
  "GetMissedMessagesPaginated callback os uid cursor c =
     (case GetMissedMessages os uid cursor of
        (os', Inl e) \<Rightarrow> Some (os', c, Some e)
      | (os', Inr result) \<Rightarrow>
          if sr_Messages result = [] then Some (os', c, None)
          else
            (case callback c (sr_Messages result) of
               (c', Some e) \<Rightarrow> Some (os', c', Some (''callback: '' @ e))
             | (c', None) \<Rightarrow>
                 if \<not> sr_HasMore result then Some (os', c', None)
                 else GetMissedMessagesPaginated callback os' uid (ie_MessageID (last (sr_Messages result))) c'))"

section \<open>Deduplication and the inbox\<close>

lemma hexDecode_encode: "hexDecode (hex_encode bs) = Inr bs"
proof (induction bs)
  case (Cons b bs)
  have "(of_nat (16 * (unat b div 16) + unat b mod 16) :: byte) = b" by (simp only: mult_div_mod_eq) simp
  with Cons show ?case
    by (simp add: hex_encode_def hex_byte_def sscanf_02x_def del: of_nat_add of_nat_mult)
qed (simp add: hex_encode_def)

lemma dedupTTL_whole [simp]: "0 < dedupTTL" "dedupTTL mod Second = 0"
  by (simp_all add: dedupTTL_def Hour_def Minute_def Second_def)

context redis_service
begin

lemma IsDuplicate_avail:
  assumes "avail r"
  shows "\<exists>r'. IsDuplicate R r u m = (r', Inr (key_exists (view r) (dedupKey u m))) \<and> avail r' \<and>
    key_exists (view r') (dedupKey u m)"
proof -
  obtain r' b where r': "rd_SetNX R r (dedupKey u m) ''1'' dedupTTL = (r', Inr b)" "avail r'"
    using setnx_avail [OF assms] by blast
  from setnx [OF dedupTTL_whole r'(1)] r' show ?thesis
    by (auto simp: IsDuplicate_def setnx_effect_def key_exists_def)
qed

end

text \<open>The two outcomes of \<open>Handle\<close> for a message with a recipient, over a Redis that answers.\<close>

lemma Handle_duplicate:
  assumes "redis_service R view avail advance" "avail (hn_rdb h)" "Unmarshal (cm_Value msg) = Inr m"
    and "extractRecipientID m (cm_Topic msg) = Some u" "key_exists (view (hn_rdb h)) (dedupKey (Some u) (am_MessageId m))"
  shows "\<exists>r'. Handle R Unmarshal Push h msg = (h\<lparr>hn_rdb := r'\<rparr>, None) \<and> avail r' \<and>
    key_exists (view r') (dedupKey (Some u) (am_MessageId m))"
  using redis_service.IsDuplicate_avail [OF assms(1,2), of "Some u" "am_MessageId m"] assms(3-5)
  by (auto simp: Handle_def)

lemma Handle_fresh:
  assumes "redis_service R view avail advance" "avail (hn_rdb h)" "Unmarshal (cm_Value msg) = Inr m"
    and "extractRecipientID m (cm_Topic msg) = Some u" "\<not> key_exists (view (hn_rdb h)) (dedupKey (Some u) (am_MessageId m))"
    and "Inbox_Insert (hn_inbox h) (handler_entry m (cm_Topic msg) (cm_Value msg) (Some u)) = (db', err)"
  shows "\<exists>r' p'. Handle R Unmarshal Push h msg =
      (h\<lparr>hn_rdb := r', hn_inbox := db', hn_push := p'\<rparr>, map_option ((@) ''inbox insert: '') err) \<and>
    avail r' \<and> key_exists (view r') (dedupKey (Some u) (am_MessageId m))"
proof -
  obtain r' where r': "IsDuplicate R (hn_rdb h) (Some u) (am_MessageId m) = (r', Inr False)" "avail r'"
      "key_exists (view r') (dedupKey (Some u) (am_MessageId m))"
    using redis_service.IsDuplicate_avail [OF assms(1,2), of "Some u" "am_MessageId m"] assms(5) by auto
  show ?thesis
  proof (cases err)
    case None
    with r' assms(3,4,6) show ?thesis by (auto simp: Handle_def Let_def)
  next
    case (Some e)
    with r' assms(3,4,6) have "Handle R Unmarshal Push h msg =
      (h\<lparr>hn_rdb := r', hn_inbox := db', hn_push := hn_push h\<rparr>, map_option ((@) ''inbox insert: '') err)"
      by (simp add: Handle_def Let_def)
    with r'(2,3) show ?thesis by blast
  qed
qed

lemma Handle_stores:
  assumes "redis_service R view avail advance" "avail (hn_rdb h)" "Unmarshal (cm_Value msg) = Inr m"
    and "extractRecipientID m (cm_Topic msg) = Some u" "am_MessageId m = Some i" "extractSenderID m = Some s"
    and "\<not> key_exists (view (hn_rdb h)) (dedupKey (Some u) (Some i))"
    and "pg_faults (hn_inbox h) = []" "pg_tab (hn_inbox h) = Some t"
  shows "\<exists>h'. Handle R Unmarshal Push h msg = (h', None) \<and> avail (hn_rdb h') \<and>
    key_exists (view (hn_rdb h')) (dedupKey (Some u) (Some i)) \<and>
    (\<exists>x \<in> set (irows (hn_inbox h')). ir_user_id x = u \<and> ir_message_id x = i \<and>
       (x \<in> set (irows (hn_inbox h)) \<or> ir_sender_id x = s \<and> ir_payload x = cm_Value msg \<and> \<not> ir_delivered x))"
proof -
  let ?e = "handler_entry m (cm_Topic msg) (cm_Value msg) (Some u)"
  obtain db' where ins: "Inbox_Insert (hn_inbox h) ?e = (db', None)"
    using Inbox_Insert_ready [of "hn_inbox h" ?e] assms(5,6,8,9) by (auto simp: pg_ready_def handler_entry_def)
  obtain r' p' where h': "Handle R Unmarshal Push h msg = (h\<lparr>hn_rdb := r', hn_inbox := db', hn_push := p'\<rparr>, None)"
      "avail r'" "key_exists (view r') (dedupKey (Some u) (Some i))"
    using Handle_fresh [where R = R and view = view and avail = avail and h = h and msg = msg and Unmarshal = Unmarshal
        and Push = Push and u = u and m = m, OF assms(1-4) _ ins] assms(5,7) by auto
  have "\<exists>x \<in> set (irows db'). ir_user_id x = u \<and> ir_message_id x = i \<and>
      (x \<in> set (irows (hn_inbox h)) \<or> ir_sender_id x = s \<and> ir_payload x = cm_Value msg \<and> \<not> ir_delivered x)"
    using Inbox_Insert_ok [OF ins] assms(5,6) by (auto simp: handler_entry_def new_inbox_row_def)
  with h' show ?thesis by (intro exI [of _ "h\<lparr>hn_rdb := r', hn_inbox := db', hn_push := p'\<rparr>"]) simp
qed

section \<open>Pages\<close>

definition strict_times :: "slice \<Rightarrow> ib_row list \<Rightarrow> bool" where
  "strict_times uid rows \<longleftrightarrow>
     inj_on ir_created_at {r \<in> set rows. sql_eq (ir_user_id r) uid} \<and>
     (\<forall>r \<in> set rows. sql_eq (ir_user_id r) uid \<longrightarrow> ir_message_id r \<noteq> [])"

lemma find_unique_row:
  assumes "distinct (map (\<lambda>r. (ir_user_id r, ir_message_id r)) rows)" "x \<in> set rows" "sql_eq (ir_user_id x) uid"
  shows "List.find (\<lambda>r. sql_eq (ir_user_id r) uid \<and> sql_eq (ir_message_id r) (Some (ir_message_id x))) rows = Some x"
  using assms by (induction rows) (auto simp: sql_eq_def image_iff)

lemma filter_greater_drop:
  assumes "sorted_wrt (\<lambda>a b. f a < (f b :: int)) L" "0 < n" "n \<le> length L"
  shows "filter (\<lambda>r. f (L ! (n - 1)) < f r) L = drop n L"
proof -
  let ?P = "\<lambda>r. f (L ! (n - 1)) < f r"
  have "\<not> ?P r" if r: "r \<in> set (take n L)" for r
  proof -
    obtain i where i: "i < n" "i < length L" "r = L ! i" using r by (auto simp: in_set_conv_nth)
    show ?thesis
    proof (cases "i = n - 1")
      case False
      then have "i < n - 1" "n - 1 < length L" using i(1) assms(2,3) by linarith+
      from sorted_wrt_nth_less [OF assms(1) this] i(3) show ?thesis by simp
    qed (simp add: i(3))
  qed
  moreover have "?P r" if r: "r \<in> set (drop n L)" for r
  proof -
    obtain i where "i < length L - n" "r = L ! (n + i)" using r by (auto simp: in_set_conv_nth)
    then have i: "n + i < length L" "r = L ! (n + i)" by linarith+
    have "n - 1 < n + i" using assms(2) by linarith
    from sorted_wrt_nth_less [OF assms(1) this i(1)] i(2) show ?thesis by simp
  qed
  ultimately have "filter ?P (take n L) = []" "filter ?P (drop n L) = drop n L" by (simp_all add: filter_empty_conv)
  then have "filter ?P (take n L @ drop n L) = drop n L" by (simp only: filter_append) simp
  then show ?thesis by simp
qed

lemma sorted_strict:
  assumes "inj_on f (set xs)" "distinct xs"
  shows "sorted_wrt (\<lambda>a b. f a < (f b :: int)) (sort_key f xs)"
proof -
  have "distinct (map f (sort_key f xs))" using assms by (simp add: distinct_map)
  then have "sorted_wrt (<) (map f (sort_key f xs))" by (simp add: strict_sorted_iff)
  then show ?thesis by (simp add: sorted_wrt_map)
qed

lemma rows_after_page:
  assumes "distinct (map (\<lambda>r. (ir_user_id r, ir_message_id r)) rows)" "strict_times uid rows"
    and "0 < n" "n \<le> length (rows_after uid cursor rows)"
  defines "x \<equiv> rows_after uid cursor rows ! (n - 1)"
  shows "rows_after uid (Some (ir_message_id x)) rows = drop n (rows_after uid cursor rows) \<and> ir_message_id x \<noteq> []"
proof -
  let ?L = "rows_after uid cursor rows"
  obtain c :: ib_row where c: "?L = sort_key ir_created_at (filter (\<lambda>r. sql_eq (ir_user_id r) uid \<and> ir_created_at c < ir_created_at r) rows)"
  proof (cases "List.find (\<lambda>r. sql_eq (ir_user_id r) uid \<and> sql_eq (ir_message_id r) cursor) rows")
    case (Some c)
    show ?thesis by (rule that [of c]) (simp add: rows_after_def Some)
  qed (use assms(3,4) in \<open>simp add: rows_after_def\<close>)
  have "x \<in> set ?L" unfolding x_def by (rule nth_mem) (use assms(3,4) in simp)
  then have x: "x \<in> set rows" "sql_eq (ir_user_id x) uid" "ir_created_at c < ir_created_at x" by (auto simp: c)
  have "sorted_wrt (\<lambda>a b. ir_created_at a < ir_created_at b) ?L"
    unfolding c
  proof (rule sorted_strict)
    show "inj_on ir_created_at (set (filter (\<lambda>r. sql_eq (ir_user_id r) uid \<and> ir_created_at c < ir_created_at r) rows))"
      using assms(2) by (auto simp: strict_times_def intro: inj_on_subset)
    show "distinct (filter (\<lambda>r. sql_eq (ir_user_id r) uid \<and> ir_created_at c < ir_created_at r) rows)"
      using assms(1) by (auto simp: distinct_map)
  qed
  from filter_greater_drop [OF this assms(3,4), folded x_def]
  have "drop n ?L = sort_key ir_created_at (filter (\<lambda>r. ir_created_at x < ir_created_at r)
      (filter (\<lambda>r. sql_eq (ir_user_id r) uid \<and> ir_created_at c < ir_created_at r) rows))"
    by (simp add: c filter_sort)
  also have "\<dots> = rows_after uid (Some (ir_message_id x)) rows"
    using find_unique_row [OF assms(1) x(1,2)] x(3)
    by (auto simp: rows_after_def intro!: arg_cong [where f = "sort_key ir_created_at"] filter_cong)
  finally show ?thesis using x(1,2) assms(2) by (simp add: strict_times_def)
qed

lemma GetMissedMessages_healthy:
  assumes "pg_faults (os_inbox os) = []" "pg_tab (os_inbox os) = Some t" "0 \<le> os_pageSize os" "slice_bytes cursor \<noteq> []"
  shows "GetMissedMessages os uid cursor = (os, Inr
    \<lparr>sr_Messages = map inbox_entry (take (nat (os_pageSize os)) (rows_after uid cursor (ib_rows t))),
     sr_HasMore = (nat (os_pageSize os) < length (rows_after uid cursor (ib_rows t)))\<rparr>)"
proof -
  let ?L = "rows_after uid cursor (ib_rows t)" and ?n = "nat (os_pageSize os)"
  have "os_inbox os\<lparr>pg_faults := []\<rparr> = os_inbox os" using assms(1) by simp
  then have q: "GetAfterMessageID (os_inbox os) uid cursor (os_pageSize os + 1)
      = (os_inbox os, Inr (map inbox_entry (take (Suc ?n) ?L)))"
    using assms(1-3)
    by (simp add: GetAfterMessageID_def Inbox_query_def pg_query_def pg_run_def nat_add_distrib)
  have "page_result (os_pageSize os) (map inbox_entry (take (Suc ?n) ?L))
      = \<lparr>sr_Messages = map inbox_entry (take ?n ?L), sr_HasMore = (?n < length ?L)\<rparr>"
    using assms(3) by (auto simp: page_result_def Let_def take_map min_def)
  with q assms(4) show ?thesis by (simp add: GetMissedMessages_def)
qed

lemma Paginated_healthy:
  assumes "pg_faults (os_inbox os) = []" "pg_tab (os_inbox os) = Some t" "0 < os_pageSize os"
    and "distinct (map (\<lambda>r. (ir_user_id r, ir_message_id r)) (ib_rows t))" "strict_times uid (ib_rows t)"
    and "\<And>c es. snd (callback c es) = None"
  shows "slice_bytes cursor \<noteq> [] \<Longrightarrow> \<exists>pages. concat pages = map inbox_entry (rows_after uid cursor (ib_rows t)) \<and>
    (\<forall>p \<in> set pages. p \<noteq> [] \<and> int (length p) \<le> os_pageSize os) \<and>
    GetMissedMessagesPaginated callback os uid cursor c = Some (os, fold (\<lambda>p c. fst (callback c p)) pages c, None)"
proof (induction "length (rows_after uid cursor (ib_rows t))" arbitrary: cursor c rule: less_induct)
  case less
  let ?L = "rows_after uid cursor (ib_rows t)" and ?n = "nat (os_pageSize os)"
  let ?page = "map inbox_entry (take ?n ?L)"
  have n: "0 < ?n" using assms(3) by simp
  note get = GetMissedMessages_healthy [OF assms(1,2) less_imp_le [OF assms(3)] less.prems, of uid]
  obtain c' where cb: "callback c ?page = (c', None)" using assms(6) [of c ?page] by (metis prod.collapse)
  note unfold = GetMissedMessagesPaginated.simps [of callback os uid cursor c, unfolded get]
  show ?case
  proof (cases "?n < length ?L")
    case True
    then have len: "?n \<le> length ?L" by simp
    note step = rows_after_page [OF assms(4,5) n len]
    let ?x = "?L ! (?n - 1)"
    have ne0: "take ?n ?L \<noteq> []" using True n by auto
    then have ne: "?page \<noteq> []" by simp
    have last: "ie_MessageID (last ?page) = Some (ir_message_id ?x)"
      using True n by (simp add: last_map [OF ne0] inbox_entry_def last_conv_nth [OF ne0] min_def)
    have "length (rows_after uid (Some (ir_message_id ?x)) (ib_rows t)) < length ?L" using step n True by simp
    from less.hyps [OF this, of c'] step obtain pages where
      pages: "concat pages = map inbox_entry (drop ?n ?L)" "\<forall>p \<in> set pages. p \<noteq> [] \<and> int (length p) \<le> os_pageSize os"
        "GetMissedMessagesPaginated callback os uid (Some (ir_message_id ?x)) c'
           = Some (os, fold (\<lambda>p c. fst (callback c p)) pages c', None)"
      by auto
    have "concat (?page # pages) = map inbox_entry ?L"
      unfolding concat.simps pages(1) map_append [symmetric] append_take_drop_id ..
    moreover have "\<forall>p \<in> set (?page # pages). p \<noteq> [] \<and> int (length p) \<le> os_pageSize os"
      using ne pages(2) assms(3) by simp
    moreover have "GetMissedMessagesPaginated callback os uid cursor c
        = Some (os, fold (\<lambda>p c. fst (callback c p)) (?page # pages) c, None)"
      using unfold ne cb last pages(3) True by simp
    ultimately show ?thesis by blast
  next
    case False
    then have all: "?page = map inbox_entry ?L" by simp
    show ?thesis
    proof (cases "?L = []")
      case True
      with unfold show ?thesis by (intro exI [of _ "[]"]) simp
    next
      case ne: False
      have "GetMissedMessagesPaginated callback os uid cursor c = Some (os, c', None)"
        using unfold ne n cb False by simp
      with ne False cb assms(3) show ?thesis by (intro exI [of _ "[?page]"]) (simp add: all)
    qed
  qed
qed

section \<open>A concrete delivery\<close>

definition sample_chat :: AppMessage where
  "sample_chat = \<lparr>am_MessageId = Some [1], am_Timestamp = None, am_Body = Some (AppMessage_Chat (Some
     \<lparr>cm_ConversationId = None, cm_SenderId = Some [9], cm_RecipientId = Some [7], cm_GroupId = None, cm_Action = 1,
      cm_Text = ''hi'', cm_ReplyTo = None, cm_Attachments = []\<rparr>))\<rparr>"

definition sample_delivery :: ConsumerMessage where
  "sample_delivery = \<lparr>cm_Topic = ''user-07'', cm_Partition = 0, cm_Offset = 0, cm_Value = enc_fields (am_fields sample_chat)\<rparr>"

definition sample_ib_db :: ib_db where
  "sample_ib_db = \<lparr>pg_faults = [], pg_now = 0, pg_tab = Some \<lparr>ib_next = 1, ib_rows = []\<rparr>\<rparr>"

definition sample_handler :: "(mem_redis, nat) Handler" where
  "sample_handler = \<lparr>hn_rdb = mem_start, hn_inbox = sample_ib_db, hn_push = None\<rparr>"

lemma wire_Unmarshal_enc [simp]: "wire_Unmarshal (enc_fields fs) = Inr (am_of fs)"
  by (simp add: wire_Unmarshal_def dec_enc_fields)

lemma sample_decoded: "am_of (am_fields sample_chat) = sample_chat"
  by (simp add: am_of_def am_fields_def sample_chat_def g_bytes_def w_msg_def w_bytes_def Let_def
      chat_of_def chat_fields_def g_str_def g_num_def last_or_def w_enum_def w_str_def)

lemma sample_hyps:
  "wire_Unmarshal (cm_Value sample_delivery) = Inr sample_chat"
  "extractRecipientID sample_chat (cm_Topic sample_delivery) = Some [7]" "am_MessageId sample_chat = Some [1]"
  "extractSenderID sample_chat = Some [9]" "mem_up (hn_rdb sample_handler)"
  "\<not> key_exists (mem_view (hn_rdb sample_handler)) k"
  by (simp_all add: sample_delivery_def sample_decoded)
    (simp_all add: sample_chat_def extractRecipientID_def extractSenderID_def sample_handler_def mem_start_def
      mem_view_def key_exists_def mem_get_def mem_hash_def mem_set_def)

section \<open>Properties\<close>



text \<open>
  C29. A failed insert loses the message.  The deduplication key is set before the insert: when the insert fails the
  handler reports an error and stores nothing, and the redelivery the consumer then gets is taken for a duplicate,
  reported as handled, and stores nothing either, however healthy the database is by then.
\<close>

theorem dedup_before_insert_loses:
  assumes "redis_service R view avail advance" "avail (hn_rdb h)" "Unmarshal (cm_Value msg) = Inr m"
    and "extractRecipientID m (cm_Topic msg) = Some u" "\<not> key_exists (view (hn_rdb h)) (dedupKey (Some u) (am_MessageId m))"
    and "pg_faults (hn_inbox h) = Some e # fs"
  shows "\<exists>h' err. Handle R Unmarshal Push h msg = (h', Some err) \<and> irows (hn_inbox h') = irows (hn_inbox h) \<and>
    (\<forall>db. \<exists>h''. Handle R Unmarshal Push (h'\<lparr>hn_inbox := db\<rparr>) msg = (h'', None) \<and> hn_inbox h'' = db)"
proof -
  let ?e = "handler_entry m (cm_Topic msg) (cm_Value msg) (Some u)"
  obtain db' where ins: "Inbox_Insert (hn_inbox h) ?e = (db', Some e)"
    using assms(6) by (auto simp: Inbox_Insert_def pg_run_def)
  obtain r' p' where h': "Handle R Unmarshal Push h msg =
      (h\<lparr>hn_rdb := r', hn_inbox := db', hn_push := p'\<rparr>, Some (''inbox insert: '' @ e))"
      "avail r'" "key_exists (view r') (dedupKey (Some u) (am_MessageId m))"
    using Handle_fresh [where R = R and view = view and avail = avail and h = h and msg = msg and Unmarshal = Unmarshal
        and Push = Push and u = u and m = m, OF assms(1-5) ins] by auto
  let ?h' = "h\<lparr>hn_rdb := r', hn_inbox := db', hn_push := p'\<rparr>"
  have "\<exists>h''. Handle R Unmarshal Push (?h'\<lparr>hn_inbox := db\<rparr>) msg = (h'', None) \<and> hn_inbox h'' = db" for db
    using Handle_duplicate [where R = R and view = view and avail = avail and h = "?h'\<lparr>hn_inbox := db\<rparr>" and msg = msg
        and Unmarshal = Unmarshal and Push = Push and u = u and m = m, OF assms(1) _ assms(3,4)] h'(2,3) by auto
  moreover have "irows db' = irows (hn_inbox h)" using Inbox_Insert_err [OF ins] by (simp add: irows_def)
  ultimately show ?thesis using h'(1) by (intro exI [of _ ?h'] exI conjI) simp_all
qed

definition sample_broken :: "(mem_redis, nat) Handler" where
  "sample_broken = sample_handler\<lparr>hn_inbox := sample_ib_db\<lparr>pg_faults := [Some ''conn closed'']\<rparr>\<rparr>"

theorem dedup_before_insert_loses_witness:
  "\<exists>h' h'' err. Handle mem_ops wire_Unmarshal (\<lambda>p _. (p, None)) sample_broken sample_delivery = (h', Some err) \<and>
    Handle mem_ops wire_Unmarshal (\<lambda>p _. (p, None)) (h'\<lparr>hn_inbox := sample_ib_db\<rparr>) sample_delivery = (h'', None) \<and>
    irows (hn_inbox h'') = []"
proof -
  have "mem_up (hn_rdb sample_broken)" "\<not> key_exists (mem_view (hn_rdb sample_broken)) k" for k
    using sample_hyps(5,6) by (simp_all add: sample_broken_def)
  from dedup_before_insert_loses [where R = mem_ops and view = mem_view and avail = mem_up and Unmarshal = wire_Unmarshal
        and h = sample_broken and msg = sample_delivery and Push = "\<lambda>p _. (p, None)",
      OF mem.redis_service_axioms this(1) sample_hyps(1,2) this(2)]
  show ?thesis by (fastforce simp: sample_broken_def sample_ib_db_def irows_def)
qed

text \<open>
  C30. What reaches the inbox.  Whatever Redis answers, handling a message keeps the keys of the table unique, and when
  it changes the rows it adds one, which holds the serialised message; the message is then a chat message with a
  sender, addressed to its recipient or taken from a user's topic.  Signaling, sender keys and every other body never
  reach an inbox, nor does a group message, whose topic is the group's.
\<close>

theorem inbox_holds_direct_chat:
  assumes "Handle R Unmarshal Push h msg = (h', err)" "ib_inv (hn_inbox h)"
  shows "ib_inv (hn_inbox h') \<and>
    (irows (hn_inbox h') \<noteq> irows (hn_inbox h) \<longrightarrow>
      (\<exists>m c x. Unmarshal (cm_Value msg) = Inr m \<and> am_Body m = Some (AppMessage_Chat (Some c)) \<and>
        irows (hn_inbox h') = irows (hn_inbox h) @ [x] \<and> ir_payload x = cm_Value msg \<and>
        cm_SenderId c = Some (ir_sender_id x) \<and> am_MessageId m = Some (ir_message_id x) \<and>
        (cm_RecipientId c = Some (ir_user_id x) \<or> take 5 (cm_Topic msg) = ''user-'')))"
proof (cases "hn_inbox h' = hn_inbox h")
  case False
  obtain m u db' where m: "Unmarshal (cm_Value msg) = Inr m" "extractRecipientID m (cm_Topic msg) = Some u"
      "fst (Inbox_Insert (hn_inbox h) (handler_entry m (cm_Topic msg) (cm_Value msg) (Some u))) = db'"
      "hn_inbox h' = db'"
    using assms(1) False
    by (auto simp: Handle_def Let_def split: sum.splits if_splits prod.splits bool.splits option.splits)
  let ?e = "handler_entry m (cm_Topic msg) (cm_Value msg) (Some u)"
  have inv: "ib_inv (hn_inbox h')" using Inbox_Insert_inv [OF assms(2), of ?e] m(3,4) by simp
  show ?thesis
  proof (cases "irows (hn_inbox h') = irows (hn_inbox h)")
    case changed: False
    have "Inbox_Insert (hn_inbox h) ?e = (db', None)"
    proof (cases "snd (Inbox_Insert (hn_inbox h) ?e)")
      case (Some e')
      with m(3) Inbox_Insert_err [of "hn_inbox h" ?e db' e'] changed m(4) show ?thesis
        by (auto simp: irows_def prod_eq_iff)
    qed (use m(3) in \<open>simp add: prod_eq_iff\<close>)
    then obtain x where x: "new_inbox_row x ?e" "irows db' = irows (hn_inbox h) @ [x]"
      using Inbox_Insert_ok changed m(4) by blast
    then obtain c where c: "am_Body m = Some (AppMessage_Chat (Some c))" "cm_SenderId c = Some (ir_sender_id x)"
      by (auto simp: new_inbox_row_def handler_entry_def extractSenderID_def split: option.splits AppBody.splits)
    have "cm_RecipientId c = Some (ir_user_id x) \<or> take 5 (cm_Topic msg) = ''user-''"
      using m(2) c(1) x(1) by (auto simp: extractRecipientID_def new_inbox_row_def handler_entry_def Let_def split: if_splits)
    with m(1,4) c x inv show ?thesis by (auto simp: new_inbox_row_def handler_entry_def)
  qed (use inv in simp)
qed (use assms(2) in simp)

theorem inbox_holds_direct_chat_witness:
  "ib_inv (hn_inbox (fst (Handle mem_ops wire_Unmarshal (\<lambda>p _. (p, None)) sample_handler sample_delivery)))"
  using inbox_holds_direct_chat [OF prod.collapse [symmetric], of sample_handler mem_ops wire_Unmarshal "\<lambda>p _. (p, None)"
      sample_delivery]
  by (simp add: sample_handler_def sample_ib_db_def ib_inv_def)



definition sample_row :: "byte \<Rightarrow> time \<Rightarrow> ib_row" where
  "sample_row i at = \<lparr>ir_id = at, ir_user_id = [7], ir_message_id = [i], ir_conversation_id = None, ir_sender_id = [9],
     ir_payload = [], ir_delivered = False, ir_read = False, ir_created_at = at\<rparr>"

definition sample_inbox :: ib_table where
  "sample_inbox = \<lparr>ib_next = 4, ib_rows = [sample_row 1 1, sample_row 2 2, sample_row 3 3]\<rparr>"


end
