(* ===== verification/Group_Commands.thy ===== *)
theory Group_Commands
  imports Postgres Go_Json Proto_Messages Kafka
begin

text \<open>
  \<open>server/internal/groups\<close> and \<open>server/internal/commands\<close>: the tables of groups and members, the statements of their
  store, and the consumer of the \<open>commands\<close> topic that runs them. What \<open>JSONB\<close> stores for a text, or that it
  refuses it, is the database's and an argument, as is \<open>proto.Unmarshal\<close>.
\<close>

section \<open>groups/model.go\<close>

type_synonym MemberRole = string

definition RoleAdmin :: MemberRole where "RoleAdmin = ''admin''"
definition RoleModerator :: MemberRole where "RoleModerator = ''moderator''"
definition RoleMember :: MemberRole where "RoleMember = ''member''"

record Group =
  gp_ID :: slice
  gp_Name :: string
  gp_CreatorID :: slice
  gp_Settings :: slice
  gp_CreatedAt :: time
  gp_UpdatedAt :: time

record GroupMember =
  gm_GroupID :: slice
  gm_UserID :: slice
  gm_Role :: MemberRole
  gm_JoinedAt :: time

section \<open>groups/store.go\<close>

record group_row =
  gr_id :: bytes
  gr_name :: string
  gr_creator_id :: bytes
  gr_settings :: slice
  gr_created_at :: time
  gr_updated_at :: time

record member_row =
  mr_group_id :: bytes
  mr_user_id :: bytes
  mr_role :: string
  mr_joined_at :: time

record grp_tables =
  gt_groups :: "group_row list"
  gt_members :: "member_row list"

type_synonym grp_db = "grp_tables pg"

definition Groups_Migrate :: "grp_db \<Rightarrow> grp_db \<times> goerr option" where
  "Groups_Migrate db = pg_migrate \<lparr>gt_groups = [], gt_members = []\<rparr> db"

text \<open>A \<open>JSONB\<close> argument: \<open>NULL\<close> for nil, else what the database stores for the text, if it is JSON.\<close>

definition jsonb_arg :: "(bytes \<Rightarrow> bytes option) \<Rightarrow> slice \<Rightarrow> goerr + slice" where
  "jsonb_arg jsonb s = (case s of None \<Rightarrow> Inr None
     | Some bs \<Rightarrow> (case jsonb bs of None \<Rightarrow> Inl ''ERROR: invalid input syntax for type json'' | Some v \<Rightarrow> Inr (Some v)))"

definition sql_insert_group ::
  "(bytes \<Rightarrow> bytes option) \<Rightarrow> time \<Rightarrow> slice \<Rightarrow> string \<Rightarrow> slice \<Rightarrow> slice \<Rightarrow> grp_tables \<Rightarrow> goerr + grp_tables \<times> nat" where
  "sql_insert_group jsonb now gid name creator settings t =
     (case jsonb_arg jsonb settings of Inl e \<Rightarrow> Inl e | Inr st \<Rightarrow>
     (case gid of None \<Rightarrow> Inl (null_violation ''id'') | Some g \<Rightarrow>
     (case creator of None \<Rightarrow> Inl (null_violation ''creator_id'') | Some c \<Rightarrow>
      if \<exists>r \<in> set (gt_groups t). gr_id r = g then Inl unique_violation
      else Inr (t\<lparr>gt_groups := gt_groups t @ [\<lparr>gr_id = g, gr_name = name, gr_creator_id = c, gr_settings = st,
             gr_created_at = pg_time now, gr_updated_at = pg_time now\<rparr>]\<rparr>, 1))))"

definition foreign_key_violation :: goerr where
  "foreign_key_violation = ''ERROR: insert or update violates foreign key constraint''"

text \<open>\<open>ignore\<close> says the statement has \<open>ON CONFLICT (group_id, user_id) DO NOTHING\<close>.\<close>

definition sql_insert_member ::
  "bool \<Rightarrow> time \<Rightarrow> slice \<Rightarrow> slice \<Rightarrow> string \<Rightarrow> grp_tables \<Rightarrow> goerr + grp_tables \<times> nat" where
  "sql_insert_member ignore now gid uid role t =
     (case gid of None \<Rightarrow> Inl (null_violation ''group_id'') | Some g \<Rightarrow>
     (case uid of None \<Rightarrow> Inl (null_violation ''user_id'') | Some u \<Rightarrow>
      if role \<notin> {''admin'', ''moderator'', ''member''} then Inl check_violation
      else if \<exists>r \<in> set (gt_members t). mr_group_id r = g \<and> mr_user_id r = u
           then (if ignore then Inr (t, 0) else Inl unique_violation)
      else if \<not> (\<exists>r \<in> set (gt_groups t). gr_id r = g) then Inl foreign_key_violation
      else Inr (t\<lparr>gt_members := gt_members t @ [\<lparr>mr_group_id = g, mr_user_id = u, mr_role = role,
             mr_joined_at = pg_time now\<rparr>]\<rparr>, 1)))"

text \<open>\<open>BEGIN\<close> and \<open>COMMIT\<close>: they touch no table and may fail.\<close>

definition pg_tick :: "'t pg \<Rightarrow> 't pg \<times> goerr option" where
  "pg_tick db = (db\<lparr>pg_faults := tl (pg_faults db)\<rparr>, if pg_faults db = [] then None else hd (pg_faults db))"

text \<open>\<open>CreateGroup\<close>: an error before the commit rolls the transaction back to the tables it began with.\<close>

definition CreateGroup :: "(bytes \<Rightarrow> bytes option) \<Rightarrow> grp_db \<Rightarrow> Group \<Rightarrow> grp_db \<times> goerr option" where
  "CreateGroup jsonb db g =
     (case pg_tick db of (db1, Some e) \<Rightarrow> (db1, Some e)
      | (db1, None) \<Rightarrow>
          (case pg_run (sql_insert_group jsonb (pg_now db) (gp_ID g) (gp_Name g) (gp_CreatorID g) (gp_Settings g)) db1 of
             (db2, Inl e) \<Rightarrow> (db2\<lparr>pg_tab := pg_tab db\<rparr>, Some (''insert group: '' @ e))
           | (db2, Inr _) \<Rightarrow>
               (case pg_run (sql_insert_member False (pg_now db) (gp_ID g) (gp_CreatorID g) ''admin'') db2 of
                  (db3, Inl e) \<Rightarrow> (db3\<lparr>pg_tab := pg_tab db\<rparr>, Some (''insert creator as admin: '' @ e))
                | (db3, Inr _) \<Rightarrow>
                    (case pg_tick db3 of (db4, Some e) \<Rightarrow> (db4\<lparr>pg_tab := pg_tab db\<rparr>, Some e)
                     | (db4, None) \<Rightarrow> (db4, None)))))"

definition row_group :: "group_row \<Rightarrow> Group" where
  "row_group r = \<lparr>gp_ID = Some (gr_id r), gp_Name = gr_name r, gp_CreatorID = Some (gr_creator_id r),
     gp_Settings = gr_settings r, gp_CreatedAt = gr_created_at r, gp_UpdatedAt = gr_updated_at r\<rparr>"

definition GetGroup :: "grp_db \<Rightarrow> slice \<Rightarrow> grp_db \<times> (goerr + Group)" where
  "GetGroup db gid =
     (case pg_query (\<lambda>t. List.find (\<lambda>r. sql_eq (gr_id r) gid) (gt_groups t)) db of
        (db', Inl e) \<Rightarrow> (db', Inl (''group not found: '' @ e))
      | (db', Inr None) \<Rightarrow> (db', Inl (''group not found: '' @ ErrNoRows))
      | (db', Inr (Some r)) \<Rightarrow> (db', Inr (row_group r)))"

definition AddMember :: "grp_db \<Rightarrow> slice \<Rightarrow> slice \<Rightarrow> MemberRole \<Rightarrow> grp_db \<times> goerr option" where
  "AddMember db gid uid role = exec_err (pg_run (sql_insert_member True (pg_now db) gid uid role) db)"

definition RemoveMember :: "grp_db \<Rightarrow> slice \<Rightarrow> slice \<Rightarrow> grp_db \<times> goerr option" where
  "RemoveMember db gid uid = exec_err (pg_run (\<lambda>t.
     let (ms, n) = sql_delete (\<lambda>r. sql_eq (mr_group_id r) gid \<and> sql_eq (mr_user_id r) uid) (gt_members t)
     in Inr (t\<lparr>gt_members := ms\<rparr>, n)) db)"

definition UpdateSettings :: "(bytes \<Rightarrow> bytes option) \<Rightarrow> grp_db \<Rightarrow> slice \<Rightarrow> slice \<Rightarrow> grp_db \<times> goerr option" where
  "UpdateSettings jsonb db gid settings = exec_err (pg_run (\<lambda>t.
     case jsonb_arg jsonb settings of Inl e \<Rightarrow> Inl e
     | Inr st \<Rightarrow>
         let (gs, n) = sql_update (\<lambda>r. sql_eq (gr_id r) gid)
               (\<lambda>r. r\<lparr>gr_settings := st, gr_updated_at := pg_time (pg_now db)\<rparr>) (gt_groups t)
         in Inr (t\<lparr>gt_groups := gs\<rparr>, n)) db)"

definition BanMember :: "grp_db \<Rightarrow> slice \<Rightarrow> slice \<Rightarrow> grp_db \<times> goerr option" where
  "BanMember db gid uid = RemoveMember db gid uid"

definition row_member :: "member_row \<Rightarrow> GroupMember" where
  "row_member r = \<lparr>gm_GroupID = Some (mr_group_id r), gm_UserID = Some (mr_user_id r), gm_Role = mr_role r,
     gm_JoinedAt = mr_joined_at r\<rparr>"

definition GetMembers :: "grp_db \<Rightarrow> slice \<Rightarrow> grp_db \<times> (goerr + GroupMember list)" where
  "GetMembers db gid = pg_query (\<lambda>t. map row_member (filter (\<lambda>r. sql_eq (mr_group_id r) gid) (gt_members t))) db"

definition IsMember :: "grp_db \<Rightarrow> slice \<Rightarrow> slice \<Rightarrow> grp_db \<times> (goerr + bool)" where
  "IsMember db gid uid =
     pg_query (\<lambda>t. \<exists>r \<in> set (gt_members t). sql_eq (mr_group_id r) gid \<and> sql_eq (mr_user_id r) uid) db"

definition AdminCount :: "grp_db \<Rightarrow> slice \<Rightarrow> grp_db \<times> (goerr + int)" where
  "AdminCount db gid =
     pg_query (\<lambda>t. int (length (filter (\<lambda>r. sql_eq (mr_group_id r) gid \<and> mr_role r = ''admin'') (gt_members t)))) db"

section \<open>commands/handler.go\<close>

text \<open>The JSON settings of \<open>CREATE_GROUP\<close>: only the name is read.\<close>

definition settings_fields :: "(string \<times> string field) list" where
  "settings_fields = [(''name'', str_field (\<lambda>x _. x))]"

definition settings_name :: "slice \<Rightarrow> goerr + string" where
  "settings_name payload =
     (if slice_len payload > 0
      then (let (name, bad) = json_unmarshal settings_fields (bytes_to_string (slice_bytes payload)) []
            in if bad then Inl ''parse settings: invalid JSON'' else Inr (if name = [] then ''New Group'' else name))
      else Inr ''New Group'')"

text \<open>\<open>cmd.Payload[:0]\<close> is nil when the payload is nil and empty otherwise.\<close>

definition handleCreateGroup :: "(bytes \<Rightarrow> bytes option) \<Rightarrow> grp_db \<Rightarrow> Command \<Rightarrow> grp_db \<times> goerr option" where
  "handleCreateGroup jsonb db cmd =
     (if slice_len (co_TargetId cmd) = 0 then (db, Some ''create_group: target_id (group_id) required'')
      else
        (case settings_name (co_Payload cmd) of Inl e \<Rightarrow> (db, Some e)
         | Inr name \<Rightarrow>
             CreateGroup jsonb db \<lparr>gp_ID = co_TargetId cmd, gp_Name = name,
               gp_CreatorID = map_option (take 0) (co_Payload cmd),
               gp_Settings = (if slice_len (co_Payload cmd) > 0 then co_Payload cmd else Some (string_to_bytes ''{}'')),
               gp_CreatedAt = 0, gp_UpdatedAt = 0\<rparr>))"

definition handleAddMember :: "grp_db \<Rightarrow> Command \<Rightarrow> grp_db \<times> goerr option" where
  "handleAddMember db cmd =
     (if slice_len (co_TargetId cmd) = 0 \<or> slice_len (co_Payload cmd) = 0
      then (db, Some ''add_member: target_id (group_id) and payload (user_id) required'')
      else AddMember db (co_TargetId cmd) (co_Payload cmd) RoleMember)"

definition handleRemoveMember :: "grp_db \<Rightarrow> Command \<Rightarrow> grp_db \<times> goerr option" where
  "handleRemoveMember db cmd =
     (if slice_len (co_TargetId cmd) = 0 \<or> slice_len (co_Payload cmd) = 0
      then (db, Some ''remove_member: target_id (group_id) and payload (user_id) required'')
      else RemoveMember db (co_TargetId cmd) (co_Payload cmd))"

definition handleUpdateSettings :: "(bytes \<Rightarrow> bytes option) \<Rightarrow> grp_db \<Rightarrow> Command \<Rightarrow> grp_db \<times> goerr option" where
  "handleUpdateSettings jsonb db cmd =
     (if slice_len (co_TargetId cmd) = 0 then (db, Some ''update_settings: target_id (group_id) required'')
      else UpdateSettings jsonb db (co_TargetId cmd) (co_Payload cmd))"

definition handleBanMember :: "grp_db \<Rightarrow> Command \<Rightarrow> grp_db \<times> goerr option" where
  "handleBanMember db cmd =
     (if slice_len (co_TargetId cmd) = 0 \<or> slice_len (co_Payload cmd) = 0
      then (db, Some ''ban_member: target_id (group_id) and payload (user_id) required'')
      else BanMember db (co_TargetId cmd) (co_Payload cmd))"

definition handleDeleteMessage :: "grp_db \<Rightarrow> Command \<Rightarrow> grp_db \<times> goerr option" where
  "handleDeleteMessage db cmd = (db, None)"

definition processCommand :: "(bytes \<Rightarrow> bytes option) \<Rightarrow> grp_db \<Rightarrow> Command \<Rightarrow> grp_db \<times> goerr option" where
  "processCommand jsonb db cmd =
     (if co_Type cmd = 1 then handleCreateGroup jsonb db cmd
      else if co_Type cmd = 2 then handleAddMember db cmd
      else if co_Type cmd = 3 then handleRemoveMember db cmd
      else if co_Type cmd = 4 then handleUpdateSettings jsonb db cmd
      else if co_Type cmd = 5 then handleBanMember db cmd
      else if co_Type cmd = 6 then handleDeleteMessage db cmd
      else (db, None))"

definition Commands_Handle ::
  "(bytes \<Rightarrow> bytes option) \<Rightarrow> (bytes \<Rightarrow> goerr + AppMessage) \<Rightarrow> grp_db \<Rightarrow> ConsumerMessage \<Rightarrow> grp_db \<times> goerr option" where
  "Commands_Handle jsonb Unmarshal db msg =
     (case Unmarshal (cm_Value msg) of Inl e \<Rightarrow> (db, Some (''unmarshal AppMessage: '' @ e))
      | Inr appMsg \<Rightarrow>
          (case am_Body appMsg of
             Some (AppMessage_Command (Some cmd)) \<Rightarrow> processCommand jsonb db cmd
           | _ \<Rightarrow> (db, None)))"

section \<open>commands/service.go\<close>

definition command_ConsumeClaim ::
  "(bytes \<Rightarrow> bytes option) \<Rightarrow> (bytes \<Rightarrow> goerr + AppMessage) \<Rightarrow> ConsumerMessage list \<Rightarrow> grp_db \<Rightarrow> int list \<Rightarrow> grp_db \<times> int list" where
  "command_ConsumeClaim jsonb Unmarshal = ConsumeClaim (Commands_Handle jsonb Unmarshal)"

section \<open>The constraints of the tables\<close>

definition tables_ok :: "grp_tables \<Rightarrow> bool" where
  "tables_ok t \<longleftrightarrow> distinct (map gr_id (gt_groups t)) \<and>
     distinct (map (\<lambda>r. (mr_group_id r, mr_user_id r)) (gt_members t)) \<and>
     (\<forall>r \<in> set (gt_members t). mr_group_id r \<in> gr_id ` set (gt_groups t) \<and> mr_role r \<in> {''admin'', ''moderator'', ''member''})"

definition grp_inv :: "grp_db \<Rightarrow> bool" where
  "grp_inv db \<longleftrightarrow> (case pg_tab db of None \<Rightarrow> True | Some t \<Rightarrow> tables_ok t)"

text \<open>A statement that keeps the constraints, and one that in addition changes nothing when it fails.\<close>

definition grp_keeps :: "grp_db \<Rightarrow> grp_db \<times> goerr option \<Rightarrow> bool" where
  "grp_keeps db res \<longleftrightarrow> (grp_inv db \<longrightarrow> grp_inv (fst res)) \<and> (snd res \<noteq> None \<longrightarrow> pg_tab (fst res) = pg_tab db)"

lemma grp_keeps_refl [simp]: "grp_keeps db (db, e)"
  by (simp add: grp_keeps_def)

lemma grp_keeps_run:
  assumes "\<And>t t' n. tables_ok t \<Longrightarrow> stmt t = Inr (t', n) \<Longrightarrow> tables_ok t'"
  shows "grp_keeps db (exec_err (pg_run stmt db))"
proof (cases "pg_run stmt db")
  case (Pair db' res)
  show ?thesis
  proof (cases res)
    case (Inl e)
    with Pair pg_run_Inl_tab [of stmt db db' e] show ?thesis by (simp add: grp_keeps_def grp_inv_def)
  next
    case (Inr x)
    then have run: "pg_run stmt db = (db', Inr x)" using Pair by simp
    then obtain t t' where "pg_tab db = Some t" "stmt t = Inr (t', x)" "pg_tab db' = Some t'"
      by (auto simp: pg_run_Inr)
    with run assms show ?thesis by (simp add: grp_keeps_def grp_inv_def)
  qed
qed

lemma insert_group_ok: "tables_ok t \<Longrightarrow> sql_insert_group jsonb now g n c s t = Inr (t', k) \<Longrightarrow> tables_ok t'"
  by (auto simp: sql_insert_group_def tables_ok_def split: sum.splits option.splits if_splits)

lemma insert_member_ok: "tables_ok t \<Longrightarrow> sql_insert_member ig now g u role t = Inr (t', k) \<Longrightarrow> tables_ok t'"
  by (auto simp: sql_insert_member_def tables_ok_def split: option.splits if_splits) blast+

lemma AddMember_keeps: "grp_keeps db (AddMember db g u r)"
  unfolding AddMember_def by (rule grp_keeps_run) (rule insert_member_ok)

lemma RemoveMember_keeps: "grp_keeps db (RemoveMember db g u)"
  unfolding RemoveMember_def
  by (rule grp_keeps_run) (auto simp: sql_delete_def tables_ok_def distinct_map_filter)

lemma UpdateSettings_keeps: "grp_keeps db (UpdateSettings jsonb db g s)"
  unfolding UpdateSettings_def
proof (rule grp_keeps_run)
  fix t t' n
  assume ok: "tables_ok t"
  let ?f = "\<lambda>st r. if sql_eq (gr_id r) g then r\<lparr>gr_settings := st, gr_updated_at := pg_time (pg_now db)\<rparr> else r"
  assume "(case jsonb_arg jsonb s of Inl e \<Rightarrow> Inl e
     | Inr st \<Rightarrow>
         let (gs, n) = sql_update (\<lambda>r. sql_eq (gr_id r) g)
               (\<lambda>r. r\<lparr>gr_settings := st, gr_updated_at := pg_time (pg_now db)\<rparr>) (gt_groups t)
         in Inr (t\<lparr>gt_groups := gs\<rparr>, n)) = Inr (t', n)"
  then obtain st where t': "t' = t\<lparr>gt_groups := map (?f st) (gt_groups t)\<rparr>"
    by (auto simp: sql_update_def split: sum.splits)
  have ids: "map gr_id (gt_groups t') = map gr_id (gt_groups t)" by (simp add: t')
  then have "gr_id ` set (gt_groups t') = gr_id ` set (gt_groups t)" by (metis list.set_map)
  moreover have "gt_members t' = gt_members t" by (simp add: t')
  ultimately show "tables_ok t'" using ok ids unfolding tables_ok_def by auto
qed

lemma CreateGroup_ok:
  assumes "CreateGroup jsonb db g = (db', None)"
  obtains t t1 t2 n n' where "pg_tab db = Some t" "pg_tab db' = Some t2"
    "sql_insert_group jsonb (pg_now db) (gp_ID g) (gp_Name g) (gp_CreatorID g) (gp_Settings g) t = Inr (t1, n)"
    "sql_insert_member False (pg_now db) (gp_ID g) (gp_CreatorID g) ''admin'' t1 = Inr (t2, n')"
  using assms by (auto simp: CreateGroup_def pg_tick_def pg_run_Inr split: prod.splits option.splits sum.splits if_splits)

lemma CreateGroup_keeps: "grp_keeps db (CreateGroup jsonb db g)"
proof (cases "CreateGroup jsonb db g")
  case (Pair db' err)
  show ?thesis
  proof (cases err)
    case None
    with Pair have "CreateGroup jsonb db g = (db', None)" by simp
    then obtain t t1 t2 n n' where t: "pg_tab db = Some t" "pg_tab db' = Some t2"
        "sql_insert_group jsonb (pg_now db) (gp_ID g) (gp_Name g) (gp_CreatorID g) (gp_Settings g) t = Inr (t1, n)"
        "sql_insert_member False (pg_now db) (gp_ID g) (gp_CreatorID g) ''admin'' t1 = Inr (t2, n')"
      by (rule CreateGroup_ok)
    have "tables_ok t2" if "tables_ok t" using insert_member_ok [OF insert_group_ok [OF that t(3)] t(4)] .
    with Pair None t(1,2) show ?thesis by (simp add: grp_keeps_def grp_inv_def)
  next
    case (Some e)
    with Pair have "pg_tab db' = pg_tab db"
      by (auto simp: CreateGroup_def pg_tick_def split: prod.splits option.splits sum.splits if_splits)
    with Pair show ?thesis by (simp add: grp_keeps_def grp_inv_def)
  qed
qed

lemma processCommand_keeps: "grp_keeps db (processCommand jsonb db cmd)"
  by (simp add: processCommand_def handleCreateGroup_def handleAddMember_def handleRemoveMember_def
      handleUpdateSettings_def handleBanMember_def handleDeleteMessage_def BanMember_def
      AddMember_keeps RemoveMember_keeps UpdateSettings_keeps CreateGroup_keeps split: sum.split)

lemma Commands_Handle_keeps: "grp_keeps db (Commands_Handle jsonb Unmarshal db msg)"
  by (auto simp: Commands_Handle_def processCommand_keeps split: sum.split option.split AppBody.split)

section \<open>Properties\<close>


definition sample_grp_db :: grp_db where
  "sample_grp_db = \<lparr>pg_faults = [], pg_now = 0, pg_tab = Some \<lparr>gt_groups = [], gt_members = []\<rparr>\<rparr>"

lemma sample_grp_inv: "grp_inv sample_grp_db"
  by (simp add: sample_grp_db_def grp_inv_def tables_ok_def)


text \<open>
  A created group belongs to nobody.  When \<open>CREATE_GROUP\<close> succeeds the command had a payload, and the new group's
  one member, its administrator, is the empty user identifier, as is its recorded creator; a command without a
  payload is refused by the database.
\<close>

lemma created_group_owner_empty:
  assumes "grp_inv db" "co_Type cmd = 1" "processCommand jsonb db cmd = (db', None)"
  shows "\<exists>t' g. pg_tab db' = Some t' \<and> co_TargetId cmd = Some g \<and> co_Payload cmd \<noteq> None \<and>
    (\<exists>r \<in> set (gt_groups t'). gr_id r = g \<and> gr_creator_id r = []) \<and>
    map (\<lambda>r. (mr_user_id r, mr_role r)) (filter (\<lambda>r. mr_group_id r = g) (gt_members t')) = [([], RoleAdmin)]"
proof -
  obtain name where
    "CreateGroup jsonb db \<lparr>gp_ID = co_TargetId cmd, gp_Name = name, gp_CreatorID = map_option (take 0) (co_Payload cmd),
       gp_Settings = (if slice_len (co_Payload cmd) > 0 then co_Payload cmd else Some (string_to_bytes ''{}'')),
       gp_CreatedAt = 0, gp_UpdatedAt = 0\<rparr> = (db', None)"
    using assms(2,3) by (auto simp: processCommand_def handleCreateGroup_def split: if_splits sum.splits)
  then obtain t t1 t2 n n' where t: "pg_tab db = Some t" "pg_tab db' = Some t2"
      "sql_insert_group jsonb (pg_now db) (co_TargetId cmd) name (map_option (take 0) (co_Payload cmd))
         (if slice_len (co_Payload cmd) > 0 then co_Payload cmd else Some (string_to_bytes ''{}'')) t = Inr (t1, n)"
      "sql_insert_member False (pg_now db) (co_TargetId cmd) (map_option (take 0) (co_Payload cmd)) ''admin'' t1 = Inr (t2, n')"
    by (rule CreateGroup_ok) simp
  obtain g where g: "co_TargetId cmd = Some g" "co_Payload cmd \<noteq> None"
      "gt_members t1 = gt_members t" "\<forall>r \<in> set (gt_groups t). gr_id r \<noteq> g"
      "\<exists>r \<in> set (gt_groups t1). gr_id r = g \<and> gr_creator_id r = []"
    using t(3) by (auto simp: sql_insert_group_def split: sum.splits option.splits if_splits)
  have "tables_ok t" using assms(1) t(1) by (simp add: grp_inv_def)
  then have none: "filter (\<lambda>r. mr_group_id r = g) (gt_members t) = []"
    using g(4) by (fastforce simp: tables_ok_def filter_empty_conv)
  obtain j where t2: "t2 = t1\<lparr>gt_members := gt_members t @ [\<lparr>mr_group_id = g, mr_user_id = [], mr_role = ''admin'', mr_joined_at = j\<rparr>]\<rparr>"
    using t(4) g(1-3) by (auto simp: sql_insert_member_def split: option.splits if_splits)
  show ?thesis using t(2) g(1,2,5) none by (auto simp: t2 RoleAdmin_def)
qed

definition sample_create :: Command where
  "sample_create = \<lparr>co_Type = 1, co_TargetId = Some [5], co_Payload = Some (string_to_bytes ''null'')\<rparr>"

lemma created_group_owner_empty_instance:
  "\<exists>db'. processCommand Some sample_grp_db sample_create = (db', None) \<and>
     (\<exists>t'. pg_tab db' = Some t' \<and> map (\<lambda>r. (mr_user_id r, mr_role r))
        (filter (\<lambda>r. mr_group_id r = [5]) (gt_members t')) = [([], RoleAdmin)])"
proof -
  have "json_unmarshal settings_fields ''null'' [] = ([], False)" by code_simp
  then have name: "settings_name (co_Payload sample_create) = Inr ''New Group''"
    by (simp add: settings_name_def sample_create_def)
  have ok: "snd (processCommand Some sample_grp_db sample_create) = None"
    using name by (simp add: processCommand_def handleCreateGroup_def sample_create_def CreateGroup_def pg_tick_def
        pg_run_def sample_grp_db_def sql_insert_group_def sql_insert_member_def jsonb_arg_def)
  then have eq: "processCommand Some sample_grp_db sample_create = (fst (processCommand Some sample_grp_db sample_create), None)"
    by (simp add: prod_eq_iff)
  have "co_Type sample_create = 1" "co_TargetId sample_create = Some [5]" by (simp_all add: sample_create_def)
  with created_group_owner_empty [OF sample_grp_inv _ eq] eq show ?thesis by fastforce
qed

end
