(* ===== verification/Media.thy ===== *)
theory Media
  imports Postgres Go_Json Session_Grpc
begin

text \<open>
  \<open>server/internal/media\<close>: the table of uploads, the service over it and an object store, and the gRPC API. The
  object store (\<open>minio-go\<close>) is an argument. A column is scanned into a Go variable as pgx does it: \<open>NULL\<close> does not
  fit a \<open>string\<close>.
\<close>

section \<open>model.go\<close>

definition StatusUploading :: string where "StatusUploading = ''uploading''"
definition StatusCompleted :: string where "StatusCompleted = ''completed''"
definition md_StatusFailed :: string where "md_StatusFailed = ''failed''"
definition md_StatusExpired :: string where "md_StatusExpired = ''expired''"

record Upload =
  up_ID :: int
  up_StreamID :: slice
  up_UserID :: slice
  up_MimeType :: string
  up_TotalSize :: int
  up_Status :: string
  up_S3Key :: string
  up_S3URL :: string
  up_FileHash :: slice
  up_CreatedAt :: time
  up_UpdatedAt :: time

section \<open>store.go\<close>

record md_row =
  md_id :: int
  md_stream_id :: bytes
  md_user_id :: bytes
  md_mime_type :: string
  md_total_size :: int
  md_status :: string
  md_s3_key :: string
  md_s3_url :: "string option"
  md_file_hash :: slice
  md_created_at :: time
  md_updated_at :: time

record md_table =
  md_next :: int
  md_rows :: "md_row list"

type_synonym md_db = "md_table pg"

definition Media_Migrate :: "md_db \<Rightarrow> md_db \<times> goerr option" where
  "Media_Migrate db = pg_migrate \<lparr>md_next = 1, md_rows = []\<rparr> db"

text \<open>\<open>VARCHAR(255)\<close> counts characters: the bytes that start one.\<close>

definition varchar_len :: "string \<Rightarrow> nat" where
  "varchar_len s = length (filter (\<lambda>c. \<not> is_cont c) s)"

definition sql_insert_upload ::
  "time \<Rightarrow> slice \<Rightarrow> slice \<Rightarrow> string \<Rightarrow> int \<Rightarrow> string \<Rightarrow> string \<Rightarrow> slice \<Rightarrow> md_table \<Rightarrow> goerr + md_table \<times> nat" where
  "sql_insert_upload now sid uid mime totalSize status key hash t =
     (if varchar_len mime > 255 then Inl ''ERROR: value too long for type character varying(255)'' else
      case sid of None \<Rightarrow> Inl (null_violation ''stream_id'') | Some s \<Rightarrow>
     (case uid of None \<Rightarrow> Inl (null_violation ''user_id'') | Some u \<Rightarrow>
      if status \<notin> {''uploading'', ''completed'', ''failed'', ''expired''} then Inl check_violation
      else if \<exists>r \<in> set (md_rows t). md_stream_id r = s then Inl unique_violation
      else Inr (\<lparr>md_next = md_next t + 1,
        md_rows = md_rows t @ [\<lparr>md_id = md_next t, md_stream_id = s, md_user_id = u, md_mime_type = mime,
          md_total_size = totalSize, md_status = status, md_s3_key = key, md_s3_url = None, md_file_hash = hash,
          md_created_at = pg_time now, md_updated_at = pg_time now\<rparr>]\<rparr>, 1)))"

definition Media_Insert :: "md_db \<Rightarrow> Upload \<Rightarrow> md_db \<times> goerr option" where
  "Media_Insert db u = exec_err (pg_run (sql_insert_upload (pg_now db) (up_StreamID u) (up_UserID u) (up_MimeType u)
     (up_TotalSize u) StatusUploading (up_S3Key u) (up_FileHash u)) db)"

text \<open>\<open>row.Scan\<close> of the eighth column, \<open>s3_url\<close>, into a \<open>string\<close>.\<close>

definition scan_upload :: "md_row \<Rightarrow> goerr + Upload" where
  "scan_upload r =
     (case md_s3_url r of None \<Rightarrow> Inl ''can't scan into dest[7]: cannot scan NULL into *string''
      | Some url \<Rightarrow> Inr \<lparr>up_ID = md_id r, up_StreamID = Some (md_stream_id r), up_UserID = Some (md_user_id r),
          up_MimeType = md_mime_type r, up_TotalSize = md_total_size r, up_Status = md_status r, up_S3Key = md_s3_key r,
          up_S3URL = url, up_FileHash = md_file_hash r, up_CreatedAt = md_created_at r, up_UpdatedAt = md_updated_at r\<rparr>)"

definition GetByStreamID :: "md_db \<Rightarrow> slice \<Rightarrow> md_db \<times> (goerr + Upload)" where
  "GetByStreamID db sid =
     (case pg_query (\<lambda>t. List.find (\<lambda>r. sql_eq (md_stream_id r) sid) (md_rows t)) db of
        (db', Inl e) \<Rightarrow> (db', Inl (''media upload not found: '' @ e))
      | (db', Inr None) \<Rightarrow> (db', Inl (''media upload not found: '' @ ErrNoRows))
      | (db', Inr (Some r)) \<Rightarrow>
          (db', case scan_upload r of Inl e \<Rightarrow> Inl (''media upload not found: '' @ e) | Inr u \<Rightarrow> Inr u))"

definition md_update :: "slice \<Rightarrow> (md_row \<Rightarrow> md_row) \<Rightarrow> md_table \<Rightarrow> md_table \<times> nat" where
  "md_update sid f t =
     (let (rows, n) = sql_update (\<lambda>r. sql_eq (md_stream_id r) sid) f (md_rows t) in (t\<lparr>md_rows := rows\<rparr>, n))"

definition MarkCompleted :: "md_db \<Rightarrow> slice \<Rightarrow> string \<Rightarrow> md_db \<times> goerr option" where
  "MarkCompleted db sid url = exec_err (pg_run (\<lambda>t. Inr (md_update sid
     (\<lambda>r. r\<lparr>md_status := ''completed'', md_s3_url := Some url, md_updated_at := pg_time (pg_now db)\<rparr>) t)) db)"

definition Media_MarkFailed :: "md_db \<Rightarrow> slice \<Rightarrow> md_db \<times> goerr option" where
  "Media_MarkFailed db sid = exec_err (pg_run (\<lambda>t. Inr (md_update sid
     (\<lambda>r. r\<lparr>md_status := ''failed'', md_updated_at := pg_time (pg_now db)\<rparr>) t)) db)"

section \<open>s3.go\<close>

definition DefaultBucket :: string where "DefaultBucket = ''fproto-media''"
definition UploadExpiry :: duration where "UploadExpiry = 1 * Hour"
definition DownloadExpiry :: duration where "DownloadExpiry = 24 * Hour"

text \<open>The client of the object store: an error of \<open>StatObject\<close> comes with its code.\<close>

record 's s3_ops =
  s3_BucketExists :: "'s \<Rightarrow> string \<Rightarrow> goerr + bool"
  s3_MakeBucket :: "'s \<Rightarrow> string \<Rightarrow> 's \<times> goerr option"
  s3_PresignedPutObject :: "'s \<Rightarrow> string \<Rightarrow> string \<Rightarrow> duration \<Rightarrow> goerr + string"
  s3_PresignedGetObject :: "'s \<Rightarrow> string \<Rightarrow> string \<Rightarrow> duration \<Rightarrow> goerr + string"
  s3_StatObject :: "'s \<Rightarrow> string \<Rightarrow> string \<Rightarrow> (string \<times> goerr) + int"

definition EnsureBucket :: "'s s3_ops \<Rightarrow> 's \<Rightarrow> 's \<times> goerr option" where
  "EnsureBucket S s =
     (case s3_BucketExists S s DefaultBucket of Inl e \<Rightarrow> (s, Some (''bucket exists check: '' @ e))
      | Inr True \<Rightarrow> (s, None)
      | Inr False \<Rightarrow>
          (case s3_MakeBucket S s DefaultBucket of (s', Some e) \<Rightarrow> (s', Some (''make bucket: '' @ e))
           | (s', None) \<Rightarrow> (s', None)))"

definition PresignedPutURL :: "'s s3_ops \<Rightarrow> 's \<Rightarrow> string \<Rightarrow> goerr + string" where
  "PresignedPutURL S s key =
     (case s3_PresignedPutObject S s DefaultBucket key UploadExpiry of Inl e \<Rightarrow> Inl (''presigned put: '' @ e)
      | Inr u \<Rightarrow> Inr u)"

definition PresignedGetURL :: "'s s3_ops \<Rightarrow> 's \<Rightarrow> string \<Rightarrow> goerr + string" where
  "PresignedGetURL S s key =
     (case s3_PresignedGetObject S s DefaultBucket key DownloadExpiry of Inl e \<Rightarrow> Inl (''presigned get: '' @ e)
      | Inr u \<Rightarrow> Inr u)"

definition ObjectExists :: "'s s3_ops \<Rightarrow> 's \<Rightarrow> string \<Rightarrow> goerr + bool \<times> int" where
  "ObjectExists S s key =
     (case s3_StatObject S s DefaultBucket key of
        Inl (code', e) \<Rightarrow> if code' = ''NoSuchKey'' then Inr (False, 0) else Inl e
      | Inr sz \<Rightarrow> Inr (True, sz))"

section \<open>service.go\<close>

definition upload_key :: "slice \<Rightarrow> bytes \<Rightarrow> string" where
  "upload_key uid sid = ''uploads/'' @ hex_encode (slice_bytes uid) @ ''/'' @ hex_encode sid"

text \<open>\<open>rnd\<close> is what the random source gives for the stream identifier.\<close>

definition InitUpload ::
  "'s s3_ops \<Rightarrow> 's \<Rightarrow> goerr + bytes \<Rightarrow> md_db \<Rightarrow> slice \<Rightarrow> string \<Rightarrow> int \<Rightarrow> slice \<Rightarrow> md_db \<times> (goerr + bytes \<times> string)" where
  "InitUpload S s rnd db uid mime totalSize hash =
     (case rnd of Inl e \<Rightarrow> (db, Inl (''generate stream_id: '' @ e))
      | Inr sid \<Rightarrow>
          (let s3Key = upload_key uid sid in
           case Media_Insert db \<lparr>up_ID = 0, up_StreamID = Some sid, up_UserID = uid, up_MimeType = mime,
               up_TotalSize = totalSize, up_Status = [], up_S3Key = s3Key, up_S3URL = [], up_FileHash = hash,
               up_CreatedAt = 0, up_UpdatedAt = 0\<rparr> of
             (db', Some e) \<Rightarrow> (db', Inl (''insert: '' @ e))
           | (db', None) \<Rightarrow>
               (db', case PresignedPutURL S s s3Key of Inl e \<Rightarrow> Inl (''presigned url: '' @ e)
                     | Inr url \<Rightarrow> Inr (sid, url))))"

definition CompleteUpload :: "'s s3_ops \<Rightarrow> 's \<Rightarrow> md_db \<Rightarrow> slice \<Rightarrow> slice \<Rightarrow> md_db \<times> (goerr + string)" where
  "CompleteUpload S s db sid hash =
     (case GetByStreamID db sid of (db', Inl e) \<Rightarrow> (db', Inl (''get upload: '' @ e))
      | (db', Inr upload) \<Rightarrow>
          if up_Status upload \<noteq> StatusUploading
          then (db', Inl (''upload status is '' @ up_Status upload @ '', expected uploading''))
          else
            (case ObjectExists S s (up_S3Key upload) of Inl e \<Rightarrow> (db', Inl (''check s3 object: '' @ e))
             | Inr (False, _) \<Rightarrow> (db', Inl ''object not found in S3'')
             | Inr (True, sz) \<Rightarrow>
                 if sz \<noteq> up_TotalSize upload
                 then (db', Inl (''size mismatch: expected '' @ show_int (up_TotalSize upload) @ '', got '' @ show_int sz))
                 else
                   (case PresignedGetURL S s (up_S3Key upload) of Inl e \<Rightarrow> (db', Inl (''download url: '' @ e))
                    | Inr url \<Rightarrow>
                        (case MarkCompleted db' sid url of (db'', Some e) \<Rightarrow> (db'', Inl (''mark completed: '' @ e))
                         | (db'', None) \<Rightarrow> (db'', Inr url)))))"

definition GetDownloadURL :: "'s s3_ops \<Rightarrow> 's \<Rightarrow> md_db \<Rightarrow> slice \<Rightarrow> md_db \<times> (goerr + string)" where
  "GetDownloadURL S s db sid =
     (case GetByStreamID db sid of (db', Inl e) \<Rightarrow> (db', Inl (''get upload: '' @ e))
      | (db', Inr upload) \<Rightarrow>
          if up_Status upload \<noteq> StatusCompleted
          then (db', Inl (''upload not completed (status='' @ up_Status upload @ '')''))
          else (db', PresignedGetURL S s (up_S3Key upload)))"

section \<open>grpc_server.go\<close>

record InitUploadRequest =
  iu_UserId :: slice
  iu_MimeType :: string
  iu_TotalSize :: uint64
  iu_FileHash :: slice

text \<open>\<open>int64(req.TotalSize)\<close> reinterprets the bits.\<close>

definition Media_GRPC_InitUpload ::
  "'s s3_ops \<Rightarrow> 's \<Rightarrow> goerr + bytes \<Rightarrow> time \<Rightarrow> md_db \<Rightarrow> InitUploadRequest \<Rightarrow>
   md_db \<times> (goerr grpc_status + bytes \<times> string \<times> int)" where
  "Media_GRPC_InitUpload S s rnd now db req =
     (if slice_len (iu_UserId req) = 0 then (db, Inl (GrpcStatus InvalidArgument ''user_id is required'' None))
      else if iu_MimeType req = [] then (db, Inl (GrpcStatus InvalidArgument ''mime_type is required'' None))
      else if iu_TotalSize req = 0 then (db, Inl (GrpcStatus InvalidArgument ''total_size is required'' None))
      else
        (case InitUpload S s rnd db (iu_UserId req) (iu_MimeType req) (sint (iu_TotalSize req)) (iu_FileHash req) of
           (db', Inl e) \<Rightarrow> (db', Inl (GrpcStatus Internal ''init upload: '' (Some e)))
         | (db', Inr (sid, url)) \<Rightarrow> (db', Inr (sid, url, to_unix (now + UploadExpiry)))))"

definition Media_GRPC_CompleteUpload ::
  "'s s3_ops \<Rightarrow> 's \<Rightarrow> md_db \<Rightarrow> slice \<Rightarrow> slice \<Rightarrow> md_db \<times> (goerr grpc_status + bool \<times> string)" where
  "Media_GRPC_CompleteUpload S s db sid hash =
     (if slice_len sid = 0 then (db, Inl (GrpcStatus InvalidArgument ''stream_id is required'' None))
      else
        (case CompleteUpload S s db sid hash of
           (db', Inl e) \<Rightarrow> (db', Inl (GrpcStatus Internal ''complete upload: '' (Some e)))
         | (db', Inr url) \<Rightarrow> (db', Inr (True, url))))"

definition Media_GRPC_GetDownloadURL ::
  "'s s3_ops \<Rightarrow> 's \<Rightarrow> time \<Rightarrow> md_db \<Rightarrow> slice \<Rightarrow> md_db \<times> (goerr grpc_status + string \<times> int)" where
  "Media_GRPC_GetDownloadURL S s now db sid =
     (if slice_len sid = 0 then (db, Inl (GrpcStatus InvalidArgument ''stream_id is required'' None))
      else
        (case GetDownloadURL S s db sid of
           (db', Inl e) \<Rightarrow> (db', Inl (GrpcStatus Internal ''download url: '' (Some e)))
         | (db', Inr url) \<Rightarrow> (db', Inr (url, to_unix (now + DownloadExpiry)))))"

section \<open>What becomes of an upload\<close>

text \<open>Requests to the service, each with what its random source, the clock and the object store give it.\<close>

datatype 's media_op =
    MInit "goerr + bytes" time 's InitUploadRequest
  | MComplete 's slice slice
  | MDownload 's time slice
  | MFail slice

fun media_step :: "'s s3_ops \<Rightarrow> 's media_op \<Rightarrow> md_db \<Rightarrow> md_db" where
  "media_step S (MInit rnd now s req) db = fst (Media_GRPC_InitUpload S s rnd now db req)"
| "media_step S (MComplete s sid hash) db = fst (Media_GRPC_CompleteUpload S s db sid hash)"
| "media_step S (MDownload s now sid) db = fst (Media_GRPC_GetDownloadURL S s now db sid)"
| "media_step S (MFail sid) db = fst (Media_MarkFailed db sid)"

definition mrows :: "md_db \<Rightarrow> md_row list" where
  "mrows db = (case pg_tab db of None \<Rightarrow> [] | Some t \<Rightarrow> md_rows t)"

definition no_url :: "md_db \<Rightarrow> bool" where
  "no_url db \<longleftrightarrow> (\<forall>r \<in> set (mrows db). md_s3_url r = None \<and> md_status r \<noteq> StatusCompleted)"

lemma GetByStreamID_no_url:
  assumes "no_url db"
  shows "\<exists>db' e. GetByStreamID db sid = (db', Inl e) \<and> pg_tab db' = pg_tab db"
proof (cases "pg_query (\<lambda>t. List.find (\<lambda>r. sql_eq (md_stream_id r) sid) (md_rows t)) db")
  case (Pair db' res)
  note tab = pg_query_tab [OF Pair]
  show ?thesis
  proof (cases res)
    case (Inl e)
    with Pair tab show ?thesis by (simp add: GetByStreamID_def)
  next
    case (Inr found)
    show ?thesis
    proof (cases found)
      case (Some r)
      with Pair Inr obtain t where "pg_tab db = Some t" "List.find (\<lambda>r. sql_eq (md_stream_id r) sid) (md_rows t) = Some r"
        by (auto simp: pg_query_Inr)
      then have "r \<in> set (mrows db)" by (auto simp: mrows_def find_Some_iff)
      then have "md_s3_url r = None" using assms by (simp add: no_url_def)
      with Pair Inr Some tab show ?thesis by (simp add: GetByStreamID_def scan_upload_def)
    qed (use Pair Inr tab in \<open>simp add: GetByStreamID_def\<close>)
  qed
qed

lemma no_url_tab: "pg_tab db' = pg_tab db \<Longrightarrow> no_url db' = no_url db"
  by (simp add: no_url_def mrows_def)

lemma CompleteUpload_no_url:
  "no_url db \<Longrightarrow> \<exists>db' e. Media_GRPC_CompleteUpload S s db sid hash = (db', Inl e) \<and> pg_tab db' = pg_tab db"
  using GetByStreamID_no_url [of db sid] by (auto simp: Media_GRPC_CompleteUpload_def CompleteUpload_def)

lemma GetDownloadURL_no_url:
  "no_url db \<Longrightarrow> \<exists>db' e. Media_GRPC_GetDownloadURL S s now db sid = (db', Inl e) \<and> pg_tab db' = pg_tab db"
  using GetByStreamID_no_url [of db sid] by (auto simp: Media_GRPC_GetDownloadURL_def GetDownloadURL_def)

lemma exec_err_tab: "exec_err (pg_run stmt db) = (db', Some e) \<Longrightarrow> pg_tab db' = pg_tab db"
  using pg_run_Inl_tab [of stmt db db' e] by simp

lemma InitUpload_no_url:
  assumes "no_url db"
  shows "no_url (fst (Media_GRPC_InitUpload S s rnd now db req))"
proof -
  have ins: "no_url (fst (Media_Insert db u))" for u
  proof (cases "snd (Media_Insert db u)")
    case None
    obtain db' where ok: "Media_Insert db u = (db', None)" using None by (metis prod.collapse)
    then obtain t t' n where t: "pg_tab db = Some t" "pg_tab db' = Some t'"
        "sql_insert_upload (pg_now db) (up_StreamID u) (up_UserID u) (up_MimeType u) (up_TotalSize u) StatusUploading
           (up_S3Key u) (up_FileHash u) t = Inr (t', n)"
      by (auto simp: Media_Insert_def pg_run_Inr)
    from t(3) obtain r where "md_rows t' = md_rows t @ [r]" "md_s3_url r = None" "md_status r = StatusUploading"
      by (auto simp: sql_insert_upload_def split: if_splits option.splits)
    with assms ok t(1,2) show ?thesis by (auto simp: no_url_def mrows_def StatusUploading_def StatusCompleted_def)
  next
    case (Some e)
    obtain db' where err: "Media_Insert db u = (db', Some e)" using Some by (metis prod.collapse)
    then have "pg_tab db' = pg_tab db" unfolding Media_Insert_def by (rule exec_err_tab)
    with err assms no_url_tab [of db' db] show ?thesis by simp
  qed
  have "no_url (fst (InitUpload S s rnd db uid mime sz hash))" for uid mime sz hash
  proof (cases rnd)
    case (Inr sid)
    let ?u = "\<lparr>up_ID = 0, up_StreamID = Some sid, up_UserID = uid, up_MimeType = mime, up_TotalSize = sz, up_Status = [],
      up_S3Key = upload_key uid sid, up_S3URL = [], up_FileHash = hash, up_CreatedAt = 0, up_UpdatedAt = 0\<rparr>"
    obtain db' err where "Media_Insert db ?u = (db', err)" by (rule prod.exhaust)
    with ins [of ?u] Inr show ?thesis by (cases err) (simp_all add: InitUpload_def)
  qed (use assms in \<open>simp add: InitUpload_def\<close>)
  from this [of "iu_UserId req" "iu_MimeType req" "sint (iu_TotalSize req)" "iu_FileHash req"] show ?thesis
    using assms by (auto simp: Media_GRPC_InitUpload_def split: sum.split prod.split)
qed

lemma MarkFailed_no_url: "no_url db \<Longrightarrow> no_url (fst (Media_MarkFailed db sid))"
proof (cases "Media_MarkFailed db sid")
  case (Pair db' err)
  assume "no_url db"
  then show ?thesis
  proof (cases err)
    case None
    with Pair obtain t where "pg_tab db = Some t" "pg_tab db' = Some (fst (md_update sid
        (\<lambda>r. r\<lparr>md_status := ''failed'', md_updated_at := pg_time (pg_now db)\<rparr>) t))"
      by (auto simp: Media_MarkFailed_def pg_run_Inr)
    then show ?thesis using \<open>no_url db\<close> Pair
      by (auto simp: no_url_def mrows_def md_update_def sql_update_def StatusCompleted_def)
  next
    case (Some e)
    then have "Media_MarkFailed db sid = (db', Some e)" using Pair by simp
    then have "pg_tab db' = pg_tab db" unfolding Media_MarkFailed_def by (rule exec_err_tab)
    with Pair no_url_tab [of db' db] \<open>no_url db\<close> show ?thesis by simp
  qed
qed

lemma media_step_no_url:
  assumes "no_url db"
  shows "no_url (media_step S op db)"
proof (cases op)
  case (MComplete s sid hash)
  obtain db' e where "Media_GRPC_CompleteUpload S s db sid hash = (db', Inl e)" "pg_tab db' = pg_tab db"
    using CompleteUpload_no_url [OF assms, of S s sid hash] by blast
  with assms no_url_tab [of db' db] MComplete show ?thesis by simp
next
  case (MDownload s now sid)
  obtain db' e where "Media_GRPC_GetDownloadURL S s now db sid = (db', Inl e)" "pg_tab db' = pg_tab db"
    using GetDownloadURL_no_url [OF assms, of S s now sid] by blast
  with assms no_url_tab [of db' db] MDownload show ?thesis by simp
qed (simp_all add: InitUpload_no_url MarkFailed_no_url assms)

section \<open>Properties\<close>

text \<open>
  C32. No upload is ever completed.  The row of a new upload has no URL and \<open>GetByStreamID\<close> cannot scan such a row, so
  after any requests to the service, whatever the object store answers and whatever fails, no row has the status
  completed, and every \<open>CompleteUpload\<close> and every \<open>GetDownloadURL\<close> is answered by an error, those for a stored and
  fully uploaded object included.
\<close>

theorem uploads_never_complete:
  assumes "pg_tab db = Some \<lparr>md_next = 1, md_rows = []\<rparr>"
  shows "(\<forall>r \<in> set (mrows (fold (media_step S) ops db)). md_status r \<noteq> StatusCompleted) \<and>
    (\<exists>e. snd (Media_GRPC_CompleteUpload S s (fold (media_step S) ops db) sid hash) = Inl e) \<and>
    (\<exists>e. snd (Media_GRPC_GetDownloadURL S s now (fold (media_step S) ops db) sid) = Inl e)"
proof -
  have "no_url db \<Longrightarrow> no_url (fold (media_step S) ops db)" for db
    by (induction ops arbitrary: db) (simp_all add: media_step_no_url)
  moreover have "no_url db" using assms by (simp add: no_url_def mrows_def)
  ultimately have inv: "no_url (fold (media_step S) ops db)" by blast
  with CompleteUpload_no_url [OF inv, of S s sid hash] GetDownloadURL_no_url [OF inv, of S s now sid]
  show ?thesis by (auto simp: no_url_def)
qed

definition sample_s3 :: "unit s3_ops" where
  "sample_s3 = \<lparr>s3_BucketExists = (\<lambda>_ _. Inr True), s3_MakeBucket = (\<lambda>s _. (s, None)),
     s3_PresignedPutObject = (\<lambda>_ b k _. Inr (''http://s3/'' @ b @ ''/'' @ k)),
     s3_PresignedGetObject = (\<lambda>_ b k _. Inr (''http://s3/'' @ b @ ''/'' @ k)), s3_StatObject = (\<lambda>_ _ _. Inr 3)\<rparr>"

definition sample_upload :: "unit media_op" where
  "sample_upload = MInit (Inr [1]) 0 () \<lparr>iu_UserId = Some [2], iu_MimeType = ''image/png'', iu_TotalSize = 3, iu_FileHash = None\<rparr>"

theorem uploads_never_complete_witness:
  "\<exists>e. snd (Media_GRPC_CompleteUpload sample_s3 () (fold (media_step sample_s3) [sample_upload]
     \<lparr>pg_faults = [], pg_now = 0, pg_tab = Some \<lparr>md_next = 1, md_rows = []\<rparr>\<rparr>) (Some [1]) None) = Inl e"
  using uploads_never_complete [of "\<lparr>pg_faults = [], pg_now = 0, pg_tab = Some \<lparr>md_next = 1, md_rows = []\<rparr>\<rparr>"]
  by (metis pg.select_convs(3))

end
